(* ===== verification/Prelude.thy ===== *)
theory Prelude
  imports
    Complex_Main
    "HOL-Library.Word"
    "HOL-Library.Finite_Map"
    "HOL-Library.Sublist"
begin

text \<open>
  What every component shares: the lemma collections, the string functions of the Go
  standard library the sources call (package \<open>strings\<close>, \<open>strconv\<close>, the \<open>%q\<close> verb of
  \<open>fmt\<close>) over byte strings, and Go pointers and maps.  A Go string is a sequence of
  bytes, here a \<^typ>\<open>string\<close> (a list of 8-bit characters).
\<close>

named_theorems go_simps \<open>rewriting rules of the Go computation monad\<close>
named_theorems obeys_intros \<open>rules that a computation obeys a relation on states\<close>
named_theorems fails_intros \<open>rules for the errors a computation can return\<close>

section \<open>Pointers and maps\<close>

type_synonym 'a ptr = "'a option"
type_synonym gomap = "(string, string) fmap"
type_synonym int32 = "32 word"
type_synonym int64 = "64 word"

text \<open>Reading a Go map: a missing key, or a nil map, reads as the zero value.\<close>

definition mapIndex :: "gomap ptr \<Rightarrow> string \<Rightarrow> string" where
  "mapIndex m k = (case m of None \<Rightarrow> '''' | Some f \<Rightarrow> (case fmlookup f k of None \<Rightarrow> '''' | Some v \<Rightarrow> v))"

lemma mapIndex_simps [simp]:
  "mapIndex None k = ''''"
  "mapIndex (Some f) k = (case fmlookup f k of None \<Rightarrow> '''' | Some v \<Rightarrow> v)"
  by (simp_all add: mapIndex_def)

definition mapLen :: "gomap \<Rightarrow> nat" where
  "mapLen m = fcard (fmdom m)"

section \<open>Package strings\<close>

definition HasPrefix :: "string \<Rightarrow> string \<Rightarrow> bool" where
  "HasPrefix s p = prefix p s"

definition HasSuffix :: "string \<Rightarrow> string \<Rightarrow> bool" where
  "HasSuffix s p = suffix p s"

fun Contains :: "string \<Rightarrow> string \<Rightarrow> bool" where
  "Contains [] p = (p = [])"
| "Contains (c # s) p = (prefix p (c # s) \<or> Contains s p)"

text \<open>\<open>cutAt sep s\<close>: the parts of \<open>s\<close> around the first instance of \<open>sep\<close>, if there is one.\<close>

fun cutAt :: "string \<Rightarrow> string \<Rightarrow> (string \<times> string) option" where
  "cutAt sep [] = (if sep = [] then Some ([], []) else None)"
| "cutAt sep (c # s) =
     (if prefix sep (c # s) then Some ([], drop (length sep) (c # s))
      else map_option (\<lambda>(a, b). (c # a, b)) (cutAt sep s))"

text \<open>\<open>strings.Cut\<close>: before, after, found.\<close>

definition Cut :: "string \<Rightarrow> string \<Rightarrow> string \<times> string \<times> bool" where
  "Cut s sep = (case cutAt sep s of None \<Rightarrow> (s, '''', False) | Some (a, b) \<Rightarrow> (a, b, True))"

text \<open>\<open>strings.SplitN(s, sep, 2)\<close> for a non-empty separator.\<close>

definition SplitN2 :: "string \<Rightarrow> string \<Rightarrow> string list" where
  "SplitN2 s sep = (case cutAt sep s of None \<Rightarrow> [s] | Some (a, b) \<Rightarrow> [a, b])"

text \<open>\<open>strings.Split\<close> for a separator of one byte, the only ones the sources use.\<close>

fun Split :: "char \<Rightarrow> string \<Rightarrow> string list" where
  "Split sep [] = [[]]"
| "Split sep (c # s) =
     (if c = sep then [] # Split sep s
      else (case Split sep s of [] \<Rightarrow> [[c]] | w # ws \<Rightarrow> (c # w) # ws))"

text \<open>\<open>strings.Join\<close>.\<close>

fun Join :: "string list \<Rightarrow> string \<Rightarrow> string" where
  "Join [] sep = []"
| "Join [w] sep = w"
| "Join (w # v # ws) sep = w @ sep @ Join (v # ws) sep"

definition TrimPrefix :: "string \<Rightarrow> string \<Rightarrow> string" where
  "TrimPrefix s p = (if prefix p s then drop (length p) s else s)"

definition TrimSuffix :: "string \<Rightarrow> string \<Rightarrow> string" where
  "TrimSuffix s p = (if suffix p s then take (length s - length p) s else s)"

definition isSpace :: "char \<Rightarrow> bool" where
  "isSpace c = (let n = (of_char c :: nat) in n = 32 \<or> (9 \<le> n \<and> n \<le> 13))"

definition TrimSpace :: "string \<Rightarrow> string" where
  "TrimSpace s = rev (dropWhile isSpace (rev (dropWhile isSpace s)))"

text \<open>
  \<open>strings.EqualFold\<close> on ASCII letters.  The sources compare with the constant
  \<open>UEFI_COMPATIBLE\<close> only, none of whose letters is the fold of a character outside ASCII.
\<close>

definition foldCase :: "char \<Rightarrow> char" where
  "foldCase c = (let n = (of_char c :: nat) in if 65 \<le> n \<and> n \<le> 90 then char_of (n + 32) else c)"

definition EqualFold :: "string \<Rightarrow> string \<Rightarrow> bool" where
  "EqualFold s t = (map foldCase s = map foldCase t)"

section \<open>Package strconv and the verbs of fmt\<close>

definition digitChar :: "nat \<Rightarrow> char" where
  "digitChar d = char_of (48 + d)"

fun showNat :: "nat \<Rightarrow> string" where
  "showNat n = (if n < 10 then [digitChar n] else showNat (n div 10) @ [digitChar (n mod 10)])"

declare showNat.simps [simp del]

text \<open>\<open>strconv.Itoa\<close>, \<open>strconv.FormatInt(i, 10)\<close> and the verb \<open>%d\<close>.\<close>

definition Itoa :: "int \<Rightarrow> string" where
  "Itoa i = (if i < 0 then CHR ''-'' # showNat (nat (- i)) else showNat (nat i))"

text \<open>Reading a decimal back, as the consumers of the annotations do (\<open>strconv.ParseInt\<close> in base 10).\<close>

definition digitVal :: "char \<Rightarrow> nat option" where
  "digitVal c = (let n = (of_char c :: nat) in if 48 \<le> n \<and> n \<le> 57 then Some (n - 48) else None)"

fun readDigits :: "nat \<Rightarrow> string \<Rightarrow> nat option" where
  "readDigits acc [] = Some acc"
| "readDigits acc (c # s) = (case digitVal c of None \<Rightarrow> None | Some d \<Rightarrow> readDigits (10 * acc + d) s)"

definition readNat :: "string \<Rightarrow> nat option" where
  "readNat s = (if s = [] then None else readDigits 0 s)"

definition readInt :: "string \<Rightarrow> int option" where
  "readInt s = (case s of [] \<Rightarrow> None
     | c # t \<Rightarrow> if c = CHR ''-'' then map_option (\<lambda>n. - int n) (readNat t) else map_option int (readNat s))"

text \<open>
  The verb \<open>%q\<close> (\<open>strconv.Quote\<close>): the escapes of the ASCII control characters, the quote
  and the backslash; bytes from 128 up stand for themselves, as they do in a printable
  UTF-8 sequence.
\<close>

definition hexDigit :: "nat \<Rightarrow> char" where
  "hexDigit d = (if d < 10 then char_of (48 + d) else char_of (87 + d))"

definition quoteChar :: "char \<Rightarrow> string" where
  "quoteChar c = (let n = (of_char c :: nat); bs = CHR 0x5C in
     if n = 34 then [bs, CHR 0x22] else if n = 92 then [bs, bs]
     else if n = 7 then [bs, CHR ''a''] else if n = 8 then [bs, CHR ''b'']
     else if n = 12 then [bs, CHR ''f''] else if n = 10 then [bs, CHR ''n'']
     else if n = 13 then [bs, CHR ''r''] else if n = 9 then [bs, CHR ''t'']
     else if n = 11 then [bs, CHR ''v'']
     else if n < 32 \<or> n = 127 then [bs, CHR ''x'', hexDigit (n div 16), hexDigit (n mod 16)]
     else [c])"

definition Quote :: "string \<Rightarrow> string" where
  "Quote s = [CHR 0x22] @ concat (map quoteChar s) @ [CHR 0x22]"

text \<open>The verb \<open>%v\<close> on a slice of strings.\<close>

definition showStrings :: "string list \<Rightarrow> string" where
  "showStrings xs = ''['' @ Join xs '' '' @ '']''"

section \<open>Lemmas on strings\<close>

lemma Contains_iff: "Contains s p \<longleftrightarrow> (\<exists>a b. s = a @ p @ b)"
proof (induction s)
  case Nil
  then show ?case by auto
next
  case (Cons c s)
  have "(\<exists>a b. c # s = a @ p @ b) \<longleftrightarrow> prefix p (c # s) \<or> (\<exists>a b. s = a @ p @ b)"
    by (auto simp: prefix_def Cons_eq_append_conv)
  with Cons show ?case by auto
qed

lemma Contains_appendI: "Contains s p \<Longrightarrow> Contains (a @ s @ b) p"
  unfolding Contains_iff by (metis append.assoc)

lemma cutAt_None_iff: "cutAt sep s = None \<longleftrightarrow> \<not> Contains s sep"
  by (induction s) auto

lemma cutAt_Some: "cutAt sep s = Some (a, b) \<Longrightarrow> s = a @ sep @ b"
proof (induction s arbitrary: a)
  case Nil
  then show ?case by (auto split: if_splits)
next
  case (Cons c s)
  show ?case
  proof (cases "prefix sep (c # s)")
    case True
    with Cons.prems show ?thesis by (auto simp: prefix_def)
  next
    case False
    with Cons.prems obtain a' where "cutAt sep s = Some (a', b)" "a = c # a'" by auto
    with Cons.IH show ?thesis by simp
  qed
qed

text \<open>The cut is at the first instance: no instance starts earlier.\<close>

lemma cutAt_prefix:
  assumes "\<And>u v. w @ sep = u @ sep @ v \<Longrightarrow> v = []"
  shows "cutAt sep (w @ sep @ t) = Some (w, t)"
  using assms
proof (induction w)
  case Nil
  have "prefix sep (sep @ t)" and "drop (length sep) (sep @ t) = t" by simp_all
  then show ?case by (cases "sep @ t") auto
next
  case (Cons c w)
  have np: "\<not> prefix sep (c # w @ sep @ t)"
  proof
    assume "prefix sep (c # w @ sep @ t)"
    then have "prefix sep (c # w @ sep)"
      by (metis append.assoc append_Cons linorder_not_le nle_le length_append
          length_Cons le_add2 prefix_length_prefix prefix_def Suc_leD le_SucI)
    then obtain v where v: "(c # w) @ sep = [] @ sep @ v" by (auto simp: prefix_def)
    then have "v = []" by (rule Cons.prems)
    with v have "length ((c # w) @ sep) = length sep" by simp
    then show False by simp
  qed
  have "cutAt sep (w @ sep @ t) = Some (w, t)"
  proof (rule Cons.IH)
    fix u v assume "w @ sep = u @ sep @ v"
    then have "(c # w) @ sep = (c # u) @ sep @ v" by simp
    then show "v = []" by (rule Cons.prems)
  qed
  with np show ?case by simp
qed

lemma cutAt_char:
  assumes "c \<notin> set w"
  shows "cutAt [c] (w @ c # t) = Some (w, t)"
  using assms by (induction w) (auto simp: prefix_def)

lemma cutAt_char_None: "c \<notin> set w \<Longrightarrow> cutAt [c] w = None"
  by (induction w) (auto simp: prefix_def)

lemma Split_nonempty [simp]: "Split sep s \<noteq> []"
  by (induction s) (auto split: list.splits)

lemma Split_word [simp]: "sep \<notin> set w \<Longrightarrow> Split sep w = [w]"
  by (induction w) auto

lemma Split_append: "sep \<notin> set w \<Longrightarrow> Split sep (w @ sep # s) = w # Split sep s"
  by (induction w) auto

lemma Split_no_sep: "w \<in> set (Split sep s) \<Longrightarrow> sep \<notin> set w"
  by (induction s arbitrary: w) (auto split: if_splits list.splits)

lemma Split_Join:
  "ws \<noteq> [] \<Longrightarrow> \<forall>w \<in> set ws. sep \<notin> set w \<Longrightarrow> Split sep (Join ws [sep]) = ws"
  by (induction ws "[sep]" rule: Join.induct) (auto simp: Split_append)

lemma Join_Split: "Join (Split sep s) [sep] = s"
proof (induction s)
  case (Cons c s)
  then show ?case
    by (cases "Split sep s"; cases "tl (Split sep s)") auto
qed simp

section \<open>Lemmas on decimals\<close>

lemma digitVal_digitChar [simp]: "d < 10 \<Longrightarrow> digitVal (digitChar d) = Some d"
  by (simp add: digitVal_def digitChar_def)

lemma readDigits_append:
  "readDigits acc (s @ t) = (case readDigits acc s of None \<Rightarrow> None | Some n \<Rightarrow> readDigits n t)"
  by (induction s arbitrary: acc) (auto split: option.splits)

lemma readDigits_showNat: "readDigits 0 (showNat n) = Some n"
proof (induction n rule: showNat.induct)
  case (1 n)
  show ?case
  proof (cases "n < 10")
    case True
    then show ?thesis by (simp add: showNat.simps [of n])
  next
    case False
    with "1.IH" show ?thesis by (simp add: showNat.simps [of n] readDigits_append)
  qed
qed

lemma showNat_nonempty [simp]: "showNat n \<noteq> []"
  by (subst showNat.simps) simp

lemma readNat_showNat [simp]: "readNat (showNat n) = Some n"
  by (simp add: readNat_def readDigits_showNat)

lemma digitChar_neq_minus: "d < 10 \<Longrightarrow> digitChar d \<noteq> CHR ''-''"
proof -
  assume "d < 10"
  then have "digitVal (digitChar d) = Some d" by simp
  moreover have "digitVal (CHR ''-'') = None" by (simp add: digitVal_def)
  ultimately show ?thesis by auto
qed

lemma hd_showNat: "hd (showNat n) \<noteq> CHR ''-''"
proof (induction n rule: showNat.induct)
  case (1 n)
  then show ?case
    by (cases "n < 10") (simp_all add: showNat.simps [of n] digitChar_neq_minus)
qed

lemma readInt_Itoa [simp]: "readInt (Itoa i) = Some i"
proof (cases "i < 0")
  case True
  then show ?thesis by (simp add: Itoa_def readInt_def)
next
  case False
  moreover obtain c t where ct: "showNat (nat i) = c # t"
    by (metis list.exhaust showNat_nonempty)
  moreover from ct hd_showNat [of "nat i"] have "c \<noteq> CHR ''-''" by simp
  moreover from ct have "readNat (c # t) = Some (nat i)" by (metis readNat_showNat)
  ultimately show ?thesis by (simp add: Itoa_def readInt_def)
qed

lemma Itoa_inject [simp]: "Itoa i = Itoa j \<longleftrightarrow> i = j"
  by (metis option.inject readInt_Itoa)

end
