(* ===== verification/Go_Errors.thy ===== *)
theory Go_Errors
  imports Prelude
begin

text \<open>
  Go error values.  Every kind of error the sources create, receive or inspect is a
  constructor; wrapping with the verb \<open>%w\<close> keeps the wrapped error reachable for
  \<open>errors.As\<close>, formatting with \<open>%v\<close> keeps its text only.  The classification functions
  of the machine reconciler and of the machine set controller follow.
\<close>

section \<open>Error values\<close>

text \<open>
  \<^item> \<open>PlainError\<close>: \<open>errors.New\<close>, and \<open>fmt.Errorf\<close> without a \<open>%w\<close>;
  \<^item> \<open>WrapError text e\<close>: \<open>fmt.Errorf\<close> with one \<open>%w\<close>, its whole text and the wrapped error;
  \<^item> \<open>MachineError reason message\<close> and \<open>RequeueAfterError seconds\<close> of machine-api-operator;
  \<^item> \<open>GoogleError code message body details items wrapped\<close>: \<open>*googleapi.Error\<close>, each item a
    reason and a message, \<open>details\<close> the rendered JSON of the details (empty when there are none);
  \<^item> \<open>APIError code text\<close>: \<open>*apierror.APIError\<close> of gax-go;
  \<^item> \<open>StatusError reason code text\<close>: an API-machinery status;
  \<^item> \<open>ContextCanceled\<close> and \<open>DeadlineExceeded\<close> of package \<open>context\<close>.
\<close>

datatype error =
    PlainError string
  | WrapError string error
  | MachineError string string
  | RequeueAfterError nat
  | GoogleError int string string string "(string \<times> string) list" "error option"
  | APIError int string
  | StatusError string int string
  | ContextCanceled
  | DeadlineExceeded

text \<open>\<open>time.Duration.String\<close> for a whole number of seconds.\<close>

definition durationString :: "nat \<Rightarrow> string" where
  "durationString n =
     (if n < 60 then showNat n @ ''s''
      else if n < 3600 then showNat (n div 60) @ ''m'' @ showNat (n mod 60) @ ''s''
      else showNat (n div 3600) @ ''h'' @ showNat (n div 60 mod 60) @ ''m'' @ showNat (n mod 60) @ ''s'')"

definition nl :: string where
  "nl = [CHR 0x0A]"

text \<open>\<open>func (e *googleapi.Error) Error() string\<close>.\<close>

definition googleErrorText :: "int \<Rightarrow> string \<Rightarrow> string \<Rightarrow> string \<Rightarrow> (string \<times> string) list \<Rightarrow> string" where
  "googleErrorText code msg body details items =
     (if items = [] \<and> msg = ''''
      then ''googleapi: got HTTP response code '' @ Itoa code @ '' with body: '' @ body
      else let buf = ''googleapi: Error '' @ Itoa code @ '': '' @ msg
                     @ (if details = '''' then '''' else nl @ ''Details:'' @ nl @ details)
           in case items of
                [] \<Rightarrow> TrimSpace buf
              | [(reason, m)] \<Rightarrow>
                  if m = msg then buf @ '', '' @ reason
                  else buf @ nl @ ''More details:'' @ nl @ ''Reason: '' @ reason @ '', Message: '' @ m @ nl
              | _ \<Rightarrow> buf @ nl @ ''More details:'' @ nl
                    @ concat (map (\<lambda>(r, m). ''Reason: '' @ r @ '', Message: '' @ m @ nl) items))"

text \<open>The method \<open>Error()\<close> of the \<open>error\<close> interface.\<close>

fun Error :: "error \<Rightarrow> string" where
  "Error (PlainError s) = s"
| "Error (WrapError s e) = s"
| "Error (MachineError reason msg) = msg"
| "Error (RequeueAfterError n) = ''requeue in: '' @ durationString n"
| "Error (GoogleError code msg body details items w) = googleErrorText code msg body details items"
| "Error (APIError code s) = s"
| "Error (StatusError reason code s) = s"
| "Error ContextCanceled = ''context canceled''"
| "Error DeadlineExceeded = ''context deadline exceeded''"

section \<open>Error chains\<close>

text \<open>The chain that \<open>errors.As\<close> walks: the error, what it wraps, and so on.\<close>

fun chain :: "error \<Rightarrow> error list" where
  "chain (WrapError s e) = WrapError s e # chain e"
| "chain (GoogleError code msg body details items w) =
     GoogleError code msg body details items w # (case w of None \<Rightarrow> [] | Some e \<Rightarrow> chain e)"
| "chain e = [e]"

text \<open>
  \<open>fmt.Errorf\<close> with prefix and \<open>%w\<close>, and with prefix and \<open>%v\<close>: all wrapping formats of
  the sources end in the error.
\<close>

definition errorfW :: "string \<Rightarrow> error \<Rightarrow> error" where
  "errorfW pre e = WrapError (pre @ Error e) e"

definition errorfV :: "string \<Rightarrow> error \<Rightarrow> error" where
  "errorfV pre e = PlainError (pre @ Error e)"

definition InvalidConfigurationMachineError :: string where
  "InvalidConfigurationMachineError = ''InvalidConfiguration''"

text \<open>\<open>machinecontroller.InvalidMachineConfiguration\<close>, its message already formatted.\<close>

definition InvalidMachineConfiguration :: "string \<Rightarrow> error" where
  "InvalidMachineConfiguration msg = MachineError InvalidConfigurationMachineError msg"

section \<open>Classification in the machine reconciler\<close>

text \<open>\<open>errors.As\<close> with a \<open>*MachineError\<close> target: the first machine error of the chain.\<close>

fun asMachineError :: "error list \<Rightarrow> (string \<times> string) option" where
  "asMachineError [] = None"
| "asMachineError (MachineError r m # es) = Some (r, m)"
| "asMachineError (e # es) = asMachineError es"

text \<open>\<open>isInvalidMachineConfigurationError\<close>; a nil error is \<open>None\<close>.\<close>

definition isInvalidMachineConfigurationError :: "error option \<Rightarrow> bool" where
  "isInvalidMachineConfigurationError err =
     (case err of None \<Rightarrow> False
      | Some e \<Rightarrow> (case asMachineError (chain e) of None \<Rightarrow> False
                   | Some (r, m) \<Rightarrow> r = InvalidConfigurationMachineError))"

definition isNotFoundError :: "error option \<Rightarrow> bool" where
  "isNotFoundError err =
     (case err of Some (GoogleError code msg body details items w) \<Rightarrow> code = 404 | _ \<Rightarrow> False)"

text \<open>The single quote, which a string literal cannot hold at its ends.\<close>

definition sq :: string where
  "sq = [CHR 0x27]"

definition isProjectNotFoundError :: "error \<Rightarrow> string \<Rightarrow> bool" where
  "isProjectNotFoundError err projectID =
     (case err of
        GoogleError code msg body details items w \<Rightarrow>
          code = 404 \<and>
          list_ex (\<lambda>(reason, m). Contains m (sq @ ''projects/'' @ projectID @ sq) \<and> reason = ''notFound'') items
      | _ \<Rightarrow> False)"

definition isInvalidZone :: "error \<Rightarrow> bool" where
  "isInvalidZone err =
     (case err of
        GoogleError code msg body details items w \<Rightarrow>
          code = 400 \<and>
          list_ex (\<lambda>(reason, m). Contains m (sq @ ''zone'' @ sq) \<and> reason = ''invalid'') items
      | _ \<Rightarrow> False)"

section \<open>Classification elsewhere\<close>

text \<open>
  \<open>isInvalidConfigurationError\<close> of the machine set controller: a type switch on the error
  itself, which does not look through wrapping.
\<close>

definition isInvalidConfigurationError :: "error option \<Rightarrow> bool" where
  "isInvalidConfigurationError err =
     (case err of Some (MachineError r m) \<Rightarrow> r = InvalidConfigurationMachineError | _ \<Rightarrow> False)"

text \<open>\<open>apierrors.IsNotFound\<close>, with the reasons API machinery knows.\<close>

fun asStatus :: "error list \<Rightarrow> string \<times> int" where
  "asStatus [] = ([], 0)"
| "asStatus (StatusError r c s # es) = (r, c)"
| "asStatus (e # es) = asStatus es"

definition knownReasons :: "string list" where
  "knownReasons =
     [''Unauthorized'', ''Forbidden'', ''NotFound'', ''AlreadyExists'', ''Conflict'', ''Gone'',
      ''Invalid'', ''ServerTimeout'', ''StorageReadError'', ''Timeout'', ''TooManyRequests'',
      ''BadRequest'', ''MethodNotAllowed'', ''NotAcceptable'', ''RequestEntityTooLarge'',
      ''UnsupportedMediaType'', ''InternalError'', ''Expired'', ''ServiceUnavailable'']"

definition IsNotFound :: "error \<Rightarrow> bool" where
  "IsNotFound e = (case asStatus (chain e) of
     (reason, code) \<Rightarrow> reason = ''NotFound'' \<or> (reason \<notin> set knownReasons \<and> code = 404))"

text \<open>\<open>errors.As\<close> with an \<open>*apierror.APIError\<close> target, and its HTTP code.\<close>

fun asAPIError :: "error list \<Rightarrow> int option" where
  "asAPIError [] = None"
| "asAPIError (APIError code s # es) = Some code"
| "asAPIError (e # es) = asAPIError es"

section \<open>Lemmas\<close>

lemma chain_nonempty [simp]: "chain e \<noteq> []"
  by (cases e) auto

lemma Error_errorf [simp]:
  "Error (errorfW pre e) = pre @ Error e"
  "Error (errorfV pre e) = pre @ Error e"
  by (simp_all add: errorfW_def errorfV_def)

lemma isInvalid_simps [simp]:
  "\<not> isInvalidMachineConfigurationError None"
  "isInvalidMachineConfigurationError (Some (InvalidMachineConfiguration msg))"
  "isInvalidMachineConfigurationError (Some (errorfW pre e)) = isInvalidMachineConfigurationError (Some e)"
  "\<not> isInvalidMachineConfigurationError (Some (errorfV pre e))"
  "\<not> isInvalidMachineConfigurationError (Some (PlainError s))"
  "\<not> isInvalidMachineConfigurationError (Some (RequeueAfterError n))"
  by (simp_all add: isInvalidMachineConfigurationError_def InvalidMachineConfiguration_def
      errorfW_def errorfV_def)

lemma asAPIError_simps [simp]:
  "asAPIError (chain (PlainError s)) = None"
  "asAPIError (chain (APIError code s)) = Some code"
  "asAPIError (chain (WrapError s e)) = asAPIError (chain e)"
  by simp_all

lemma isNotFoundError_simps [simp]:
  "\<not> isNotFoundError None"
  "isNotFoundError (Some (GoogleError code msg body details items w)) \<longleftrightarrow> code = 404"
  "\<not> isNotFoundError (Some (PlainError s))"
  by (simp_all add: isNotFoundError_def)

end
