(* ===== verification/Go_Monad.thy ===== *)
theory Go_Monad
  imports Go_Errors
begin

text \<open>
  Go computations as state transformers.  A call ends with a value, with a non-nil error
  or with a crash (a nil dereference, an index out of range, an explicit panic or
  \<open>log.Fatal\<close>); in every case the state it leaves behind is kept, as Go keeps the effects
  made before an early return.
\<close>

section \<open>Outcomes and computations\<close>

datatype crash =
    NilDereference
  | NilMapWrite
  | IndexOutOfRange
  | PanicError error
  | PanicText string
  | LogFatal error

datatype 'a outcome = Ok 'a | Err error | Crash crash

type_synonym ('s, 'a) go = "'s \<Rightarrow> 'a outcome \<times> 's"

definition ret :: "'a \<Rightarrow> ('s, 'a) go" where
  "ret x = (\<lambda>s. (Ok x, s))"

definition raise :: "error \<Rightarrow> ('s, 'a) go" where
  "raise e = (\<lambda>s. (Err e, s))"

definition panic :: "crash \<Rightarrow> ('s, 'a) go" where
  "panic c = (\<lambda>s. (Crash c, s))"

text \<open>\<open>x, err := m; if err != nil { return err }; k x\<close>\<close>

definition seq :: "('s, 'a) go \<Rightarrow> ('a \<Rightarrow> ('s, 'b) go) \<Rightarrow> ('s, 'b) go" where
  "seq m k = (\<lambda>s. case m s of
       (Ok x, s') \<Rightarrow> k x s'
     | (Err e, s') \<Rightarrow> (Err e, s')
     | (Crash c, s') \<Rightarrow> (Crash c, s'))"

text \<open>\<open>if err := m; err != nil { return f(err) }\<close>\<close>

definition onErr :: "(error \<Rightarrow> error) \<Rightarrow> ('s, 'a) go \<Rightarrow> ('s, 'a) go" where
  "onErr f m = (\<lambda>s. case m s of
       (Ok x, s') \<Rightarrow> (Ok x, s')
     | (Err e, s') \<Rightarrow> (Err (f e), s')
     | (Crash c, s') \<Rightarrow> (Crash c, s'))"

text \<open>The same where the new error reads the state the failed call left behind.\<close>

definition onErrS :: "('s \<Rightarrow> error \<Rightarrow> error) \<Rightarrow> ('s, 'a) go \<Rightarrow> ('s, 'a) go" where
  "onErrS f m = (\<lambda>s. case m s of
       (Ok x, s') \<Rightarrow> (Ok x, s')
     | (Err e, s') \<Rightarrow> (Err (f s' e), s')
     | (Crash c, s') \<Rightarrow> (Crash c, s'))"

text \<open>\<open>x, err := m\<close>, with the error inspected by the code that follows.\<close>

definition attempt :: "('s, 'a) go \<Rightarrow> ('s, error + 'a) go" where
  "attempt m = (\<lambda>s. case m s of
       (Ok x, s') \<Rightarrow> (Ok (Inr x), s')
     | (Err e, s') \<Rightarrow> (Ok (Inl e), s')
     | (Crash c, s') \<Rightarrow> (Crash c, s'))"

definition gets :: "('s \<Rightarrow> 'a) \<Rightarrow> ('s, 'a) go" where
  "gets f = (\<lambda>s. (Ok (f s), s))"

definition modify :: "('s \<Rightarrow> 's) \<Rightarrow> ('s, unit) go" where
  "modify f = (\<lambda>s. (Ok (), f s))"

text \<open>Dereferencing a pointer, and the first element of a slice.\<close>

definition deref :: "'a ptr \<Rightarrow> ('s, 'a) go" where
  "deref p = (case p of None \<Rightarrow> panic NilDereference | Some x \<Rightarrow> ret x)"

definition firstElem :: "'a list \<Rightarrow> ('s, 'a) go" where
  "firstElem xs = (case xs of [] \<Rightarrow> panic IndexOutOfRange | x # _ \<Rightarrow> ret x)"

text \<open>\<open>for _, x := range xs { acc = body(acc, x) }\<close> with early return on an error.\<close>

fun foldG :: "('b \<Rightarrow> 'a \<Rightarrow> ('s, 'b) go) \<Rightarrow> 'b \<Rightarrow> 'a list \<Rightarrow> ('s, 'b) go" where
  "foldG body acc [] = ret acc"
| "foldG body acc (x # xs) = seq (body acc x) (\<lambda>acc'. foldG body acc' xs)"

definition forEach :: "'a list \<Rightarrow> ('a \<Rightarrow> ('s, unit) go) \<Rightarrow> ('s, unit) go" where
  "forEach xs body = foldG (\<lambda>_ x. body x) () xs"

text \<open>Running a computation on one half of the state.\<close>

definition onSnd :: "('w, 'a) go \<Rightarrow> ('s \<times> 'w, 'a) go" where
  "onSnd m = (\<lambda>(s, w). case m w of (r, w') \<Rightarrow> (r, (s, w')))"

section \<open>Rewriting rules\<close>

lemma run_basic [go_simps]:
  "ret x s = (Ok x, s)"
  "raise e s = (Err e, s)"
  "panic c s = (Crash c, s)"
  "gets f s = (Ok (f s), s)"
  "modify g s = (Ok (), g s)"
  by (simp_all add: ret_def raise_def panic_def gets_def modify_def)

lemma seq_run [go_simps]:
  "seq m k s = (case m s of (Ok x, s') \<Rightarrow> k x s' | (Err e, s') \<Rightarrow> (Err e, s') | (Crash c, s') \<Rightarrow> (Crash c, s'))"
  by (simp add: seq_def)

lemma onErr_run [go_simps]:
  "onErr f m s = (case m s of (Ok x, s') \<Rightarrow> (Ok x, s') | (Err e, s') \<Rightarrow> (Err (f e), s') | (Crash c, s') \<Rightarrow> (Crash c, s'))"
  by (simp add: onErr_def)

lemma onErrS_run [go_simps]:
  "onErrS f m s = (case m s of (Ok x, s') \<Rightarrow> (Ok x, s') | (Err e, s') \<Rightarrow> (Err (f s' e), s') | (Crash c, s') \<Rightarrow> (Crash c, s'))"
  by (simp add: onErrS_def)

lemma attempt_run [go_simps]:
  "attempt m s = (case m s of (Ok x, s') \<Rightarrow> (Ok (Inr x), s') | (Err e, s') \<Rightarrow> (Ok (Inl e), s') | (Crash c, s') \<Rightarrow> (Crash c, s'))"
  by (simp add: attempt_def)

lemma onSnd_run [go_simps]:
  "onSnd m (s, w) = (case m w of (r, w') \<Rightarrow> (r, (s, w')))"
  by (simp add: onSnd_def)

lemma deref_simps [simp]:
  "deref None = panic NilDereference"
  "deref (Some x) = ret x"
  by (simp_all add: deref_def)

lemma firstElem_simps [simp]:
  "firstElem [] = panic IndexOutOfRange"
  "firstElem (x # xs) = ret x"
  by (simp_all add: firstElem_def)

lemma forEach_simps [simp]:
  "forEach [] body = ret ()"
  "forEach (x # xs) body = seq (body x) (\<lambda>_. forEach xs body)"
  by (simp_all add: forEach_def)

lemma seq_ret [simp]: "seq (ret x) k = k x"
  by (simp add: seq_def ret_def)

lemma seq_raise [simp]: "seq (raise e) k = raise e"
  by (simp add: seq_def raise_def)

lemma seq_panic [simp]: "seq (panic c) k = panic c"
  by (simp add: seq_def panic_def)

lemma seq_assoc: "seq (seq m k) h = seq m (\<lambda>x. seq (k x) h)"
  by (rule ext) (simp add: seq_def split: prod.splits outcome.splits)

lemma foldG_snoc: "foldG body acc (xs @ [x]) = seq (foldG body acc xs) (\<lambda>a. body a x)"
  by (induction xs arbitrary: acc) (simp_all add: seq_assoc, simp add: seq_def ret_def fun_eq_iff split: prod.splits outcome.splits)

lemma onErr_simps [simp]:
  "onErr f (ret x) = ret x"
  "onErr f (raise e) = raise (f e)"
  "onErr f (panic c) = panic c"
  by (simp_all add: onErr_def ret_def raise_def panic_def)

lemma attempt_simps [simp]:
  "attempt (ret x) = ret (Inr x)"
  "attempt (raise e) = ret (Inl e)"
  "attempt (panic c) = panic c"
  by (simp_all add: attempt_def ret_def raise_def panic_def)

lemma seq_Ok_iff:
  "seq m k s = (Ok y, t) \<longleftrightarrow> (\<exists>x u. m s = (Ok x, u) \<and> k x u = (Ok y, t))"
  by (auto simp: seq_def split: prod.splits outcome.splits)

lemma onErr_Ok_iff [simp]: "onErr f m s = (Ok y, t) \<longleftrightarrow> m s = (Ok y, t)"
  by (auto simp: onErr_def split: prod.splits outcome.splits)

lemma onErrS_Ok_iff [simp]: "onErrS f m s = (Ok y, t) \<longleftrightarrow> m s = (Ok y, t)"
  by (auto simp: onErrS_def split: prod.splits outcome.splits)

lemma onErr_Crash_iff [simp]: "onErr f m s = (Crash c, t) \<longleftrightarrow> m s = (Crash c, t)"
  by (auto simp: onErr_def split: prod.splits outcome.splits)

lemma seq_Crash_iff:
  "seq m k s = (Crash c, t) \<longleftrightarrow>
     m s = (Crash c, t) \<or> (\<exists>x u. m s = (Ok x, u) \<and> k x u = (Crash c, t))"
  by (auto simp: seq_def split: prod.splits outcome.splits)

section \<open>Computations that respect a relation between states\<close>

text \<open>
  A frame or growth condition of an operation is a relation between the state before and
  the state after, whatever the outcome: what was there is unchanged, a log only grows.
\<close>

definition obeys :: "('s \<Rightarrow> 's \<Rightarrow> bool) \<Rightarrow> ('s, 'a) go \<Rightarrow> bool" where
  "obeys R m \<longleftrightarrow> (\<forall>s. R s (snd (m s)))"

lemma obeysD: "obeys R m \<Longrightarrow> m s = (r, t) \<Longrightarrow> R s t"
  unfolding obeys_def by (metis snd_conv)

lemma obeysI: "(\<And>s r t. m s = (r, t) \<Longrightarrow> R s t) \<Longrightarrow> obeys R m"
  unfolding obeys_def by (metis prod.collapse)

lemma obeys_mono: "obeys R m \<Longrightarrow> (\<And>s t. R s t \<Longrightarrow> Q s t) \<Longrightarrow> obeys Q m"
  unfolding obeys_def by blast

lemma obeys_onSnd:
  "obeys R m \<Longrightarrow> obeys (\<lambda>(s, w) (s', w'). s' = s \<and> R w w') (onSnd m)"
  by (auto simp: obeys_def onSnd_def split: prod.splits) (metis snd_conv)

text \<open>
  The interface such relations offer to the components: a preorder on states is respected
  by every program built from parts that respect it.
\<close>

locale state_preorder =
  fixes R :: "'s \<Rightarrow> 's \<Rightarrow> bool"
  assumes refl: "R s s"
    and trans: "R s t \<Longrightarrow> R t u \<Longrightarrow> R s u"
begin

lemma obeys_ret [obeys_intros, intro, simp]: "obeys R (ret x)"
  by (simp add: obeys_def ret_def refl)

lemma obeys_raise [obeys_intros, intro, simp]: "obeys R (raise e)"
  by (simp add: obeys_def raise_def refl)

lemma obeys_panic [obeys_intros, intro, simp]: "obeys R (panic c)"
  by (simp add: obeys_def panic_def refl)

lemma obeys_gets [obeys_intros, intro, simp]: "obeys R (gets f)"
  by (simp add: obeys_def gets_def refl)

lemma obeys_modify: "(\<And>s. R s (f s)) \<Longrightarrow> obeys R (modify f)"
  by (simp add: obeys_def modify_def)

lemma obeys_deref [obeys_intros, intro, simp]: "obeys R (deref p)"
  by (cases p) simp_all

lemma obeys_firstElem [obeys_intros, intro, simp]: "obeys R (firstElem xs)"
  by (cases xs) simp_all

lemma obeys_seq [obeys_intros, intro]:
  assumes "obeys R m" and "\<And>x. obeys R (k x)"
  shows "obeys R (seq m k)"
proof (rule obeysI)
  fix s r t assume eq: "seq m k s = (r, t)"
  obtain r' u where m: "m s = (r', u)" by force
  with assms(1) have su: "R s u" by (rule obeysD)
  show "R s t"
  proof (cases r')
    case (Ok x)
    with eq m have "k x u = (r, t)" by (simp add: seq_def)
    with assms(2) have "R u t" by (rule obeysD)
    with su show ?thesis by (rule trans)
  qed (use eq m su in \<open>simp_all add: seq_def\<close>)
qed

lemma obeys_onErr [obeys_intros, intro]: "obeys R m \<Longrightarrow> obeys R (onErr f m)"
  by (auto simp: obeys_def onErr_def split: prod.splits outcome.splits) (metis snd_conv)+

lemma obeys_onErrS [obeys_intros, intro]: "obeys R m \<Longrightarrow> obeys R (onErrS f m)"
  by (auto simp: obeys_def onErrS_def split: prod.splits outcome.splits) (metis snd_conv)+

lemma obeys_attempt [obeys_intros, intro]: "obeys R m \<Longrightarrow> obeys R (attempt m)"
  by (auto simp: obeys_def attempt_def split: prod.splits outcome.splits) (metis snd_conv)+

lemma obeys_foldG [obeys_intros, intro]:
  "(\<And>acc x. obeys R (body acc x)) \<Longrightarrow> obeys R (foldG body acc xs)"
  by (induction xs arbitrary: acc) (auto intro: obeys_seq)

lemma obeys_forEach [obeys_intros, intro]:
  "(\<And>x. obeys R (body x)) \<Longrightarrow> obeys R (forEach xs body)"
  unfolding forEach_def by (rule obeys_foldG)

lemma obeys_if [obeys_intros, intro]:
  "obeys R m \<Longrightarrow> obeys R n \<Longrightarrow> obeys R (if b then m else n)"
  by simp

lemma obeys_case_option [obeys_intros, intro]:
  "obeys R m \<Longrightarrow> (\<And>x. obeys R (k x)) \<Longrightarrow>
   obeys R (case p of None \<Rightarrow> m | Some x \<Rightarrow> k x)"
  by (cases p) simp_all

lemma obeys_case_sum [obeys_intros, intro]:
  "(\<And>e. obeys R (m e)) \<Longrightarrow> (\<And>x. obeys R (k x)) \<Longrightarrow>
   obeys R (case p of Inl e \<Rightarrow> m e | Inr x \<Rightarrow> k x)"
  by (cases p) simp_all

lemma obeys_case_prod [obeys_intros, intro]:
  "(\<And>x y. obeys R (k x y)) \<Longrightarrow> obeys R (case p of (x, y) \<Rightarrow> k x y)"
  by (cases p) simp

lemma obeys_let [obeys_intros, intro]:
  "(\<And>x. obeys R (k x)) \<Longrightarrow> obeys R (let x = v in k x)"
  by simp

end

section \<open>The errors a computation can return\<close>

text \<open>Every error of the computation satisfies \<open>E\<close>; it may also succeed or crash.\<close>

definition failsWith :: "(error \<Rightarrow> bool) \<Rightarrow> ('s, 'a) go \<Rightarrow> bool" where
  "failsWith E m \<longleftrightarrow> (\<forall>s e t. m s = (Err e, t) \<longrightarrow> E e)"

lemma failsWithD: "failsWith E m \<Longrightarrow> m s = (Err e, t) \<Longrightarrow> E e"
  unfolding failsWith_def by blast

lemma failsWith_basic [fails_intros, simp]:
  "failsWith E (ret x)" "failsWith E (panic c)" "failsWith E (gets f)" "failsWith E (modify g)"
  "failsWith E (deref p)" "failsWith E (firstElem xs)"
  by (auto simp: failsWith_def run_basic deref_def firstElem_def split: option.splits list.splits)

lemma failsWith_raise [fails_intros]: "E e \<Longrightarrow> failsWith E (raise e)"
  by (simp add: failsWith_def run_basic)

lemma failsWith_seq [fails_intros]:
  "failsWith E m \<Longrightarrow> (\<And>x. failsWith E (k x)) \<Longrightarrow> failsWith E (seq m k)"
  unfolding failsWith_def seq_def by (auto split: prod.splits outcome.splits)

lemma failsWith_onErr [fails_intros]: "(\<And>e. E (f e)) \<Longrightarrow> failsWith E (onErr f m)"
  unfolding failsWith_def onErr_def by (auto split: prod.splits outcome.splits)

lemma failsWith_attempt [fails_intros, simp]: "failsWith E (attempt m)"
  unfolding failsWith_def attempt_def by (auto split: prod.splits outcome.splits)

lemma failsWith_if [fails_intros]:
  "failsWith E m \<Longrightarrow> failsWith E n \<Longrightarrow> failsWith E (if b then m else n)"
  by simp

lemma failsWith_case_option [fails_intros]:
  "failsWith E m \<Longrightarrow> (\<And>x. failsWith E (k x)) \<Longrightarrow> failsWith E (case p of None \<Rightarrow> m | Some x \<Rightarrow> k x)"
  by (cases p) simp_all

lemma failsWith_case_sum [fails_intros]:
  "(\<And>e. failsWith E (m e)) \<Longrightarrow> (\<And>x. failsWith E (k x)) \<Longrightarrow>
   failsWith E (case p of Inl e \<Rightarrow> m e | Inr x \<Rightarrow> k x)"
  by (cases p) simp_all

lemma failsWith_foldG [fails_intros]:
  "(\<And>acc x. failsWith E (body acc x)) \<Longrightarrow> failsWith E (foldG body acc xs)"
  by (induction xs arbitrary: acc) (auto intro!: fails_intros)

lemma failsWith_forEach [fails_intros]:
  "(\<And>x. failsWith E (body x)) \<Longrightarrow> failsWith E (forEach xs body)"
  unfolding forEach_def by (rule failsWith_foldG)

lemma failsWith_onSnd [fails_intros]: "failsWith E m \<Longrightarrow> failsWith E (onSnd m)"
  unfolding failsWith_def onSnd_def by (auto split: prod.splits)

end
