(* ===== verification/Api_Types.thy ===== *)
theory Api_Types
  imports Go_Monad
begin

text \<open>
  The data the program works on: the machine API types (\<open>vendor/github.com/openshift/api\<close>),
  the part of the compute API's types the program reads or writes, and the core objects.
  A Go pointer field is a \<open>ptr\<close> (an option); a slice is a list.  Slices of pointers that a
  user can write (disks, metadata, network interfaces of a provider spec) keep their
  pointers, since a null in the JSON becomes a nil element; the slices of decoded compute
  API responses have no nil elements.  Fields that no code of the repository reads or
  writes are left out or carried as one opaque field.
\<close>

section \<open>Machine API types\<close>

record GCPShieldedInstanceConfig =
  SecureBoot :: string
  VirtualizedTrustedPlatformModule :: string
  IntegrityMonitoring :: string

record GCPKMSKeyReference =
  kms_Name :: string
  kms_KeyRing :: string
  kms_ProjectID :: string
  kms_Location :: string

record GCPEncryptionKeyReference =
  KMSKey :: "GCPKMSKeyReference ptr"
  KMSKeyServiceAccount :: string

record GCPDisk =
  dk_AutoDelete :: bool
  dk_Boot :: bool
  dk_SizeGB :: int64
  dk_Type :: string
  dk_Image :: string
  dk_Labels :: "gomap ptr"
  dk_EncryptionKey :: "GCPEncryptionKeyReference ptr"

record GCPMetadata =
  md_Key :: string
  md_Value :: "string ptr"

record GCPNetworkInterface =
  ni_PublicIP :: bool
  ni_Network :: string
  ni_ProjectID :: string
  ni_Subnetwork :: string

record GCPServiceAccount =
  sa_Email :: string
  sa_Scopes :: "string list"

record GCPGPUConfig =
  gpu_Count :: int32
  gpu_Type :: string

record ResourceManagerTag =
  tag_ParentID :: string
  tag_Key :: string
  tag_Value :: string

record GCPMachineProviderSpec =
  ps_Meta :: string
  UserDataSecret :: "string ptr"
  CredentialsSecret :: "string ptr"
  CanIPForward :: bool
  DeletionProtection :: bool
  Disks :: "GCPDisk ptr list"
  ps_Labels :: "gomap ptr"
  Metadata :: "GCPMetadata ptr list"
  NetworkInterfaces :: "GCPNetworkInterface ptr list"
  ServiceAccounts :: "GCPServiceAccount list"
  ps_Tags :: "string list"
  TargetPools :: "string list"
  ps_MachineType :: string
  Region :: string
  Zone :: string
  ps_ProjectID :: string
  GPUs :: "GCPGPUConfig list"
  Preemptible :: bool
  ProvisioningModel :: "string ptr"
  OnHostMaintenance :: string
  RestartPolicy :: string
  ShieldedInstanceConfig :: GCPShieldedInstanceConfig
  ConfidentialCompute :: string
  ResourceManagerTags :: "ResourceManagerTag list"

record Condition =
  co_Type :: string
  co_Status :: string
  co_ObservedGeneration :: int64
  co_LastTransitionTime :: nat
  co_Reason :: string
  co_Message :: string

record GCPMachineProviderStatus =
  pst_Meta :: string
  InstanceID :: "string ptr"
  InstanceState :: "string ptr"
  Conditions :: "Condition list"

text \<open>The zero values of the two structs.\<close>

definition zeroShielded :: GCPShieldedInstanceConfig where
  "zeroShielded = \<lparr>SecureBoot = '''', VirtualizedTrustedPlatformModule = '''', IntegrityMonitoring = ''''\<rparr>"

definition zeroProviderSpec :: GCPMachineProviderSpec where
  "zeroProviderSpec = \<lparr>
     ps_Meta = '''', UserDataSecret = None, CredentialsSecret = None, CanIPForward = False,
     DeletionProtection = False, Disks = [], ps_Labels = None, Metadata = [],
     NetworkInterfaces = [], ServiceAccounts = [], ps_Tags = [], TargetPools = [],
     ps_MachineType = '''', Region = '''', Zone = '''', ps_ProjectID = '''', GPUs = [],
     Preemptible = False, ProvisioningModel = None, OnHostMaintenance = '''',
     RestartPolicy = '''', ShieldedInstanceConfig = zeroShielded,
     ConfidentialCompute = '''', ResourceManagerTags = []\<rparr>"

definition zeroProviderStatus :: GCPMachineProviderStatus where
  "zeroProviderStatus = \<lparr>pst_Meta = '''', InstanceID = None, InstanceState = None, Conditions = []\<rparr>"

text \<open>\<open>runtime.RawExtension\<close>: the encoded bytes.\<close>

type_synonym RawExtension = string

datatype NodeAddressType = NodeInternalIP | NodeExternalIP | NodeInternalDNS

record NodeAddress =
  na_Type :: NodeAddressType
  na_Address :: string

record MachineStatus =
  Addresses :: "NodeAddress list"
  ProviderStatus :: "RawExtension ptr"
  LastUpdated :: "nat ptr"
  Phase :: "string ptr"

record Machine =
  m_Name :: string
  m_Namespace :: string
  m_UID :: string
  ResourceVersion :: string
  m_Labels :: "gomap ptr"
  m_Annotations :: "gomap ptr"
  SpecLabels :: "gomap ptr"
  ProviderID :: "string ptr"
  ProviderSpecValue :: "RawExtension ptr"
  m_Status :: MachineStatus

record MachineSet =
  set_Name :: string
  set_Namespace :: string
  DeletionTimestamp :: "nat ptr"
  set_Annotations :: "gomap ptr"
  TemplateProviderSpec :: "RawExtension ptr"

section \<open>Compute API types\<close>

record AccessConfig =
  NatIP :: string

record ComputeNetworkInterface =
  cn_Network :: string
  cn_Subnetwork :: string
  NetworkIP :: string
  AccessConfigs :: "AccessConfig list"

record Scheduling =
  sc_Preemptible :: bool
  sc_OnHostMaintenance :: string
  sc_ProvisioningModel :: string
  AutomaticRestart :: "bool ptr"

record ComputeShieldedInstanceConfig =
  EnableSecureBoot :: bool
  EnableVtpm :: bool
  EnableIntegrityMonitoring :: bool
  ForceSendFields :: "string list"

record ConfidentialInstanceConfig =
  EnableConfidentialCompute :: bool
  ConfidentialInstanceType :: string

record AcceleratorConfig =
  AcceleratorType :: string
  AcceleratorCount :: int64

record CustomerEncryptionKey =
  KmsKeyName :: string
  KmsKeyServiceAccount :: string

record AttachedDiskInitializeParams =
  DiskSizeGb :: int64
  DiskType :: string
  ip_Labels :: gomap
  ip_ResourceManagerTags :: "gomap ptr"
  SourceImage :: string

record AttachedDisk =
  ad_AutoDelete :: bool
  ad_Boot :: bool
  InitializeParams :: AttachedDiskInitializeParams
  DiskEncryptionKey :: "CustomerEncryptionKey ptr"

record MetadataItem =
  mi_Key :: string
  mi_Value :: "string ptr"

record Instance =
  in_CanIpForward :: bool
  in_DeletionProtection :: bool
  in_Labels :: "gomap ptr"
  in_MachineType :: string
  in_Name :: string
  in_Zone :: string
  in_Tags :: "string list ptr"
  in_Scheduling :: "Scheduling ptr"
  in_ShieldedInstanceConfig :: "ComputeShieldedInstanceConfig ptr"
  in_Params :: "gomap ptr ptr"
  in_ConfidentialInstanceConfig :: "ConfidentialInstanceConfig ptr"
  in_GuestAccelerators :: "AcceleratorConfig list"
  in_Disks :: "AttachedDisk list"
  in_NetworkInterfaces :: "ComputeNetworkInterface list"
  in_ServiceAccounts :: "GCPServiceAccount list"
  in_Metadata :: "MetadataItem list ptr"
  in_Status :: string

definition zeroInstance :: Instance where
  "zeroInstance = \<lparr>
     in_CanIpForward = False, in_DeletionProtection = False, in_Labels = None,
     in_MachineType = '''', in_Name = '''', in_Zone = '''', in_Tags = None, in_Scheduling = None,
     in_ShieldedInstanceConfig = None, in_Params = None, in_ConfidentialInstanceConfig = None,
     in_GuestAccelerators = [], in_Disks = [], in_NetworkInterfaces = [],
     in_ServiceAccounts = [], in_Metadata = None, in_Status = ''''\<rparr>"

record Quota =
  Metric :: string
  Usage :: rat
  Limit :: rat

record ComputeRegion =
  Quotas :: "Quota list"

record MachineTypeAccelerator =
  GuestAcceleratorCount :: int64
  GuestAcceleratorType :: string

record MachineType =
  mt_Name :: string
  GuestCpus :: int64
  MemoryMb :: int64
  Accelerators :: "MachineTypeAccelerator list"

record TargetPool =
  tp_Instances :: "string list"

record Image =
  GuestOsFeatures :: "string list"

record ImageFamilyView =
  fv_Image :: "Image ptr"

record InstanceGroup =
  ig_Name :: string
  ig_Region :: string
  ig_Zone :: string
  ig_Network :: string
  ig_Subnetwork :: string

record Backend =
  BalancingMode :: string
  Group :: string

record BackendService =
  Backends :: "Backend list"
  bs_Rest :: string

record Operation =
  op_Status :: string

record TagValue =
  tv_Parent :: string
  tv_Name :: string

record GpuInfo =
  gi_Count :: int64
  gi_Type :: string

section \<open>Cluster objects\<close>

record GCPPlatformStatus =
  ResourceLabels :: "(string \<times> string) list ptr"
  ResourceTags :: "ResourceManagerTag list ptr"

record PlatformStatus =
  GCP :: "GCPPlatformStatus ptr"

record Infrastructure =
  infra_PlatformStatus :: "PlatformStatus ptr"

type_synonym Secret = "(string, string) fmap"

record NodeCondition =
  nc_Type :: string
  nc_Status :: string
  nc_LastHeartbeatTime :: nat
  nc_LastTransitionTime :: nat
  nc_Reason :: string
  nc_Message :: string

record Node =
  node_Name :: string
  node_Conditions :: "NodeCondition list"

section \<open>Library functions that are parameters\<close>

text \<open>
  Encoding and decoding (\<open>encoding/json\<close>, \<open>sigs.k8s.io/yaml\<close>), URL resolution
  (\<open>googleapi.ResolveRelative\<close>, \<open>None\<close> where it panics), the rendering of a float, what the
  implementation makes of a float outside the range of \<open>int32\<close> (the language leaves it
  open), and the order in which a range over a map visits its entries (also left open).
  Decoding a provider spec goes through a pointer to a pointer, so that a null document
  yields a nil spec.
\<close>

record golib =
  marshalSpec :: "GCPMachineProviderSpec \<Rightarrow> error + RawExtension"
  marshalStatus :: "GCPMachineProviderStatus \<Rightarrow> error + RawExtension"
  unmarshalSpec :: "RawExtension \<Rightarrow> error + GCPMachineProviderSpec ptr"
  unmarshalStatus :: "RawExtension \<Rightarrow> error + GCPMachineProviderStatus"
  unmarshalProjectID :: "string \<Rightarrow> error + string"
  resolveRelative :: "string \<Rightarrow> string \<Rightarrow> string ptr"
  int32OfFloatOutOfRange :: "rat \<Rightarrow> int32"
  showFloat :: "rat \<Rightarrow> string"
  rangeMap :: "gomap \<Rightarrow> (string \<times> string) list"

text \<open>A call that only computes: its error or its value.\<close>

definition pureCall :: "error + 'a \<Rightarrow> ('s, 'a) go" where
  "pureCall r = (case r of Inl e \<Rightarrow> raise e | Inr x \<Rightarrow> ret x)"

lemma pureCall_simps [simp]:
  "pureCall (Inl e) = raise e"
  "pureCall (Inr x) = ret x"
  by (simp_all add: pureCall_def)

context state_preorder
begin

lemma obeys_pureCall [obeys_intros, intro, simp]: "obeys R (pureCall r)"
  by (cases r) simp_all

end

end
