(* ===== verification/World.thy ===== *)
theory World
  imports Api_Types
begin

text \<open>
  The world outside the program and the interfaces to it.  Everything beyond the process
  (the cloud, the API server, the metadata endpoint) is one opaque value of type \<open>'w\<close>; an
  interface method is a function of that value which returns an error or a result and the
  value it becomes, so that no two calls need agree.  Around it the model keeps what the
  program makes observable: the calls in the order they are made, the events it records
  and the failure metrics it registers.
\<close>

section \<open>Interfaces\<close>

type_synonym ('w, 'a) extcall = "'w \<Rightarrow> (error + 'a) \<times> 'w"

text \<open>\<open>GCPComputeService\<close> of \<open>services/compute/computeservice.go\<close>.\<close>

record 'w GCPComputeService =
  InstancesDelete :: "string \<Rightarrow> string \<Rightarrow> string \<Rightarrow> string \<Rightarrow> ('w, Operation ptr) extcall"
  InstancesInsert :: "string \<Rightarrow> string \<Rightarrow> Instance \<Rightarrow> ('w, Operation ptr) extcall"
  InstancesGet :: "string \<Rightarrow> string \<Rightarrow> string \<Rightarrow> ('w, Instance ptr) extcall"
  ZonesGet :: "string \<Rightarrow> string \<Rightarrow> ('w, string ptr) extcall"
  ZoneOperationsGet :: "string \<Rightarrow> string \<Rightarrow> string \<Rightarrow> ('w, Operation ptr) extcall"
  BasePath :: string
  TargetPoolsGet :: "string \<Rightarrow> string \<Rightarrow> string \<Rightarrow> ('w, TargetPool ptr) extcall"
  TargetPoolsAddInstance :: "string \<Rightarrow> string \<Rightarrow> string \<Rightarrow> string \<Rightarrow> ('w, Operation ptr) extcall"
  TargetPoolsRemoveInstance :: "string \<Rightarrow> string \<Rightarrow> string \<Rightarrow> string \<Rightarrow> ('w, Operation ptr) extcall"
  MachineTypesGet :: "string \<Rightarrow> string \<Rightarrow> string \<Rightarrow> ('w, MachineType ptr) extcall"
  RegionGet :: "string \<Rightarrow> string \<Rightarrow> ('w, ComputeRegion ptr) extcall"
  GPUCompatibleMachineTypesList ::
    "string \<Rightarrow> string \<Rightarrow> ('w, (string, GpuInfo) fmap \<times> string list) go"
  AcceleratorTypeGet :: "string \<Rightarrow> string \<Rightarrow> string \<Rightarrow> ('w, string ptr) extcall"
  ImageGet :: "string \<Rightarrow> string \<Rightarrow> ('w, Image ptr) extcall"
  ImageFamilyGet :: "string \<Rightarrow> string \<Rightarrow> string \<Rightarrow> ('w, ImageFamilyView ptr) extcall"
  InstanceGroupsListInstances :: "string \<Rightarrow> string \<Rightarrow> string \<Rightarrow> string \<Rightarrow> ('w, string list ptr) extcall"
  InstanceGroupsAddInstances :: "string \<Rightarrow> string \<Rightarrow> string \<Rightarrow> string \<Rightarrow> ('w, Operation ptr) extcall"
  InstanceGroupsRemoveInstances :: "string \<Rightarrow> string \<Rightarrow> string \<Rightarrow> string \<Rightarrow> ('w, Operation ptr) extcall"
  InstanceGroupInsert :: "string \<Rightarrow> string \<Rightarrow> InstanceGroup \<Rightarrow> ('w, Operation ptr) extcall"
  InstanceGroupGet :: "string \<Rightarrow> string \<Rightarrow> string \<Rightarrow> ('w, InstanceGroup ptr) extcall"
  AddInstanceGroupToBackendService :: "string \<Rightarrow> string \<Rightarrow> string \<Rightarrow> BackendService \<Rightarrow> ('w, Operation ptr) extcall"
  BackendServiceGet :: "string \<Rightarrow> string \<Rightarrow> string \<Rightarrow> ('w, BackendService ptr) extcall"

text \<open>\<open>TagService\<close> of \<open>services/tags/tagservice.go\<close>.\<close>

record 'w TagService =
  GetNamespacedName :: "string \<Rightarrow> ('w, TagValue ptr) extcall"

text \<open>
  The part of the controller-runtime client the program uses, one method per type of object.
  A successful patch overwrites the object passed in with the server's answer.
\<close>

record 'w Client =
  GetSecret :: "string \<Rightarrow> string \<Rightarrow> ('w, Secret) extcall"
  GetInfrastructureObject :: "string \<Rightarrow> ('w, Infrastructure) extcall"
  GetNode :: "string \<Rightarrow> ('w, Node) extcall"
  UpdateNodeStatus :: "Node \<Rightarrow> ('w, unit) extcall"
  GetMachineSet :: "string \<Rightarrow> string \<Rightarrow> ('w, MachineSet) extcall"
  PatchMachineSet :: "MachineSet \<Rightarrow> MachineSet \<Rightarrow> ('w, MachineSet) extcall"
  Patch :: "Machine \<Rightarrow> Machine \<Rightarrow> ('w, Machine) extcall"
  StatusPatch :: "Machine \<Rightarrow> Machine \<Rightarrow> ('w, Machine) extcall"

section \<open>What the program makes observable\<close>

datatype call =
    CallInstancesDelete string string string string
  | CallInstancesInsert string string Instance
  | CallInstancesGet string string string
  | CallTargetPoolsGet string string string
  | CallTargetPoolsAddInstance string string string string
  | CallTargetPoolsRemoveInstance string string string string
  | CallMachineTypesGet string string string
  | CallRegionGet string string
  | CallGPUCompatibleMachineTypesList string string
  | CallAcceleratorTypeGet string string string
  | CallImageGet string string
  | CallImageFamilyGet string string string
  | CallInstanceGroupsListInstances string string string string
  | CallInstanceGroupsAddInstances string string string string
  | CallInstanceGroupsRemoveInstances string string string string
  | CallInstanceGroupInsert string string InstanceGroup
  | CallInstanceGroupGet string string string
  | CallAddInstanceGroupToBackendService string string string BackendService
  | CallBackendServiceGet string string string
  | CallGetNamespacedName string
  | CallGetSecret string string
  | CallGetInfrastructure string
  | CallGetNode string
  | CallUpdateNodeStatus Node
  | CallGetMachineSet string string
  | CallPatchMachineSet MachineSet MachineSet
  | CallPatch Machine Machine
  | CallStatusPatch Machine Machine
  | CallTerminationEndpoint string

datatype metric =
    FailedInstanceCreate string string string
  | FailedInstanceUpdate string string string
  | FailedInstanceDelete string string string

datatype EventType = EventTypeNormal | EventTypeWarning

record event =
  ev_Object :: string
  ev_Type :: EventType
  ev_Reason :: string
  ev_Message :: string

record 'w world =
  ext :: 'w
  calls :: "call list"
  events :: "event list"
  metrics :: "metric list"
  wallClock :: "'w \<Rightarrow> nat"

text \<open>\<open>metav1.Now\<close>: a reading of the outside world, which every call may advance.\<close>

definition Now :: "('w world, nat) go" where
  "Now = gets (\<lambda>w. wallClock w (ext w))"

text \<open>Calling an interface method: the call is logged, the outside world moves on.\<close>

definition invoke :: "call \<Rightarrow> ('w, 'a) extcall \<Rightarrow> ('w world, 'a) go" where
  "invoke c f = (\<lambda>w. case f (ext w) of (r, e) \<Rightarrow>
     (case r of Inl err \<Rightarrow> Err err | Inr x \<Rightarrow> Ok x, w\<lparr>ext := e, calls := calls w @ [c]\<rparr>))"

definition invokeGo :: "call \<Rightarrow> ('w, 'a) go \<Rightarrow> ('w world, 'a) go" where
  "invokeGo c f = (\<lambda>w. case f (ext w) of (r, e) \<Rightarrow> (r, w\<lparr>ext := e, calls := calls w @ [c]\<rparr>))"

definition recordEvent :: "event \<Rightarrow> ('w world, unit) go" where
  "recordEvent ev = modify (\<lambda>w. w\<lparr>events := events w @ [ev]\<rparr>)"

definition registerMetric :: "metric \<Rightarrow> ('w world, unit) go" where
  "registerMetric m = modify (\<lambda>w. w\<lparr>metrics := metrics w @ [m]\<rparr>)"

text \<open>The calls that leave the cloud and the cluster as they are.\<close>

fun readOnly :: "call \<Rightarrow> bool" where
  "readOnly (CallInstancesDelete _ _ _ _) = False"
| "readOnly (CallInstancesInsert _ _ _) = False"
| "readOnly (CallTargetPoolsAddInstance _ _ _ _) = False"
| "readOnly (CallTargetPoolsRemoveInstance _ _ _ _) = False"
| "readOnly (CallInstanceGroupsAddInstances _ _ _ _) = False"
| "readOnly (CallInstanceGroupsRemoveInstances _ _ _ _) = False"
| "readOnly (CallInstanceGroupInsert _ _ _) = False"
| "readOnly (CallAddInstanceGroupToBackendService _ _ _ _) = False"
| "readOnly (CallUpdateNodeStatus _) = False"
| "readOnly (CallPatchMachineSet _ _) = False"
| "readOnly (CallPatch _ _) = False"
| "readOnly (CallStatusPatch _ _) = False"
| "readOnly _ = True"

section \<open>Rules for calls\<close>

lemma invoke_run [go_simps]:
  "invoke c f w = (case f (ext w) of (r, e) \<Rightarrow>
     (case r of Inl err \<Rightarrow> Err err | Inr x \<Rightarrow> Ok x, w\<lparr>ext := e, calls := calls w @ [c]\<rparr>))"
  by (simp add: invoke_def)

lemma invokeGo_run [go_simps]:
  "invokeGo c f w = (case f (ext w) of (r, e) \<Rightarrow> (r, w\<lparr>ext := e, calls := calls w @ [c]\<rparr>))"
  by (simp add: invokeGo_def)

lemma invoke_not_Crash [simp]: "invoke c f w \<noteq> (Crash x, w')"
  by (auto simp: invoke_def split: prod.splits sum.splits)

text \<open>
  The interface that a condition on worlds offers to the components: it is a preorder, and
  a call that satisfies \<open>P\<close> keeps it whatever the world answers.
\<close>

locale call_frame = state_preorder R for R :: "'w world \<Rightarrow> 'w world \<Rightarrow> bool" +
  fixes P :: "call \<Rightarrow> bool"
  assumes called: "P c \<Longrightarrow> R w (w\<lparr>ext := e, calls := calls w @ [c]\<rparr>)"
begin

lemma obeys_invoke [obeys_intros]: "P c \<Longrightarrow> obeys R (invoke c f)"
  by (rule obeysI) (auto simp: invoke_def called split: prod.splits)

lemma obeys_invokeGo [obeys_intros]: "P c \<Longrightarrow> obeys R (invokeGo c f)"
  by (rule obeysI) (auto simp: invokeGo_def called split: prod.splits)

lemma obeys_Now [obeys_intros, simp]: "obeys R Now"
  by (simp add: Now_def)

end

text \<open>
  Two such conditions: the logs only grow, by calls that satisfy \<open>P\<close>; and the same with
  no event and no metric.  The clock reading stays the same function.
\<close>

definition logGrows :: "(call \<Rightarrow> bool) \<Rightarrow> 'w world \<Rightarrow> 'w world \<Rightarrow> bool" where
  "logGrows P w w' \<longleftrightarrow>
     (\<exists>cs. calls w' = calls w @ cs \<and> list_all P cs) \<and>
     prefix (events w) (events w') \<and> prefix (metrics w) (metrics w') \<and>
     wallClock w' = wallClock w"

definition callsOnly :: "(call \<Rightarrow> bool) \<Rightarrow> 'w world \<Rightarrow> 'w world \<Rightarrow> bool" where
  "callsOnly P w w' \<longleftrightarrow>
     (\<exists>cs. calls w' = calls w @ cs \<and> list_all P cs) \<and>
     events w' = events w \<and> metrics w' = metrics w \<and> wallClock w' = wallClock w"

lemma logGrows_refl: "logGrows P w w"
  by (auto simp: logGrows_def)

lemma logGrows_trans: "logGrows P w u \<Longrightarrow> logGrows P u v \<Longrightarrow> logGrows P w v"
  unfolding logGrows_def by (fastforce intro: prefix_order.trans)

lemma callsOnly_trans: "callsOnly P w u \<Longrightarrow> callsOnly P u v \<Longrightarrow> callsOnly P w v"
  unfolding callsOnly_def by fastforce

interpretation log: call_frame "logGrows P" P
  by unfold_locales (auto intro: logGrows_trans simp: logGrows_def)

interpretation quiet: call_frame "callsOnly P" P
  by unfold_locales (auto intro: callsOnly_trans simp: callsOnly_def)

lemma callsOnly_logGrows: "callsOnly P w w' \<Longrightarrow> (\<And>c. P c \<Longrightarrow> Q c) \<Longrightarrow> logGrows Q w w'"
  unfolding callsOnly_def logGrows_def by (metis list_all_iff prefix_order.refl)

lemma logGrows_recordEvent [obeys_intros, simp]: "obeys (logGrows P) (recordEvent ev)"
  by (auto simp: recordEvent_def logGrows_def intro: log.obeys_modify)

lemma logGrows_registerMetric [obeys_intros, simp]: "obeys (logGrows P) (registerMetric m)"
  by (auto simp: registerMetric_def logGrows_def intro: log.obeys_modify)

lemma logGrows_weaken:
  assumes "logGrows P w w'" and "\<And>c. P c \<Longrightarrow> Q c"
  shows "logGrows Q w w'"
  using assms unfolding logGrows_def by (metis list_all_iff)

end
