(* ===== verification/Provider_Config.thy ===== *)
theory Provider_Config
  imports World
begin

text \<open>
  Reading and writing the provider configuration of a machine: \<open>util/register.go\<close> (raw
  extensions) and \<open>util/gcp_credentials.go\<close> (the credentials secret and the project of a
  service account key).
\<close>

section \<open>Raw extensions\<close>

definition RawExtensionFromProviderSpec :: "golib \<Rightarrow> GCPMachineProviderSpec ptr \<Rightarrow> error + RawExtension" where
  "RawExtensionFromProviderSpec lib spec =
     (case spec of
        None \<Rightarrow> Inr ''''
      | Some sp \<Rightarrow> (case marshalSpec lib sp of
            Inl err \<Rightarrow> Inl (errorfV ''error marshalling providerSpec: '' err)
          | Inr rawBytes \<Rightarrow> Inr rawBytes))"

definition RawExtensionFromProviderStatus :: "golib \<Rightarrow> GCPMachineProviderStatus ptr \<Rightarrow> error + RawExtension" where
  "RawExtensionFromProviderStatus lib status =
     (case status of
        None \<Rightarrow> Inr ''''
      | Some st \<Rightarrow> (case marshalStatus lib st of
            Inl err \<Rightarrow> Inl (errorfV ''error marshalling providerStatus: '' err)
          | Inr rawBytes \<Rightarrow> Inr rawBytes))"

definition ProviderSpecFromRawExtension :: "golib \<Rightarrow> RawExtension ptr \<Rightarrow> error + GCPMachineProviderSpec ptr" where
  "ProviderSpecFromRawExtension lib rawExtension =
     (case rawExtension of
        None \<Rightarrow> Inr (Some zeroProviderSpec)
      | Some raw \<Rightarrow> (case unmarshalSpec lib raw of
            Inl err \<Rightarrow> Inl (errorfV ''error unmarshalling providerSpec: '' err)
          | Inr spec \<Rightarrow> Inr spec))"

definition ProviderStatusFromRawExtension :: "golib \<Rightarrow> RawExtension ptr \<Rightarrow> error + GCPMachineProviderStatus" where
  "ProviderStatusFromRawExtension lib rawExtension =
     (case rawExtension of
        None \<Rightarrow> Inr zeroProviderStatus
      | Some raw \<Rightarrow> (case unmarshalStatus lib raw of
            Inl err \<Rightarrow> Inl (errorfV ''error unmarshalling providerStatus: '' err)
          | Inr providerStatus \<Rightarrow> Inr providerStatus))"

text \<open>The deprecated names of the four in \<open>pkg/apis/gcpprovider/v1beta1/conversion.go\<close>.\<close>

definition v1beta1_RawExtensionFromProviderSpec :: "golib \<Rightarrow> GCPMachineProviderSpec ptr \<Rightarrow> error + RawExtension" where
  "v1beta1_RawExtensionFromProviderSpec = RawExtensionFromProviderSpec"

definition v1beta1_RawExtensionFromProviderStatus :: "golib \<Rightarrow> GCPMachineProviderStatus ptr \<Rightarrow> error + RawExtension" where
  "v1beta1_RawExtensionFromProviderStatus = RawExtensionFromProviderStatus"

definition v1beta1_ProviderSpecFromRawExtension :: "golib \<Rightarrow> RawExtension ptr \<Rightarrow> error + GCPMachineProviderSpec ptr" where
  "v1beta1_ProviderSpecFromRawExtension = ProviderSpecFromRawExtension"

definition v1beta1_ProviderStatusFromRawExtension :: "golib \<Rightarrow> RawExtension ptr \<Rightarrow> error + GCPMachineProviderStatus" where
  "v1beta1_ProviderStatusFromRawExtension = ProviderStatusFromRawExtension"

section \<open>Credentials\<close>

definition credentialsSecretKey :: string where
  "credentialsSecretKey = ''service_account.json''"

text \<open>
  A secret that is not found builds an invalid-configuration error and drops it: the call
  has no effect and the plain error is returned in both cases.
\<close>

definition GetCredentialsSecret :: "'w Client \<Rightarrow> string \<Rightarrow> GCPMachineProviderSpec \<Rightarrow> ('w world, string) go" where
  "GetCredentialsSecret coreClient namespace spec =
     (case CredentialsSecret spec of
        None \<Rightarrow> ret ''''
      | Some name \<Rightarrow>
          seq (onErr (errorfV (''error getting credentials secret '' @ Quote name @ '' in namespace ''
                               @ Quote namespace @ '': ''))
                 (invoke (CallGetSecret namespace name) (GetSecret coreClient namespace name)))
            (\<lambda>credentialsSecret.
               case fmlookup credentialsSecret credentialsSecretKey of
                 None \<Rightarrow> raise (InvalidMachineConfiguration
                   (''secret '' @ namespace @ ''/'' @ name @ '' does not have '' @ Quote credentialsSecretKey
                    @ '' field set. Thus, no credentials applied when creating an instance''))
               | Some data \<Rightarrow> ret data))"

definition GetProjectIDFromJSONKey :: "golib \<Rightarrow> string \<Rightarrow> error + string" where
  "GetProjectIDFromJSONKey lib content =
     (case unmarshalProjectID lib content of
        Inl err \<Rightarrow> Inl (errorfV ''error un marshalling JSON key: '' err)
      | Inr projectID \<Rightarrow> Inr projectID)"

text \<open>\<open>CreateOauth2Client\<close>: reading the key and making the client are the oauth2 library's.\<close>

definition CreateOauth2Client ::
    "(string \<Rightarrow> string list \<Rightarrow> error + 'j) \<Rightarrow> ('j \<Rightarrow> 'h) \<Rightarrow> string \<Rightarrow> string list \<Rightarrow> error + 'h" where
  "CreateOauth2Client jwtConfigFromJSON newClient serviceAccountJSON scope =
     (case jwtConfigFromJSON serviceAccountJSON scope of Inl err \<Rightarrow> Inl err | Inr jwt \<Rightarrow> Inr (newClient jwt))"

section \<open>Properties\<close>

context call_frame
begin

lemma obeys_GetCredentialsSecret [obeys_intros]:
  "(\<And>n s. P (CallGetSecret n s)) \<Longrightarrow> obeys R (GetCredentialsSecret client ns spec)"
  by (auto simp: GetCredentialsSecret_def intro!: obeys_intros split: option.splits)

end

lemma GetCredentialsSecret_not_Crash [simp]:
  "GetCredentialsSecret client ns spec w \<noteq> (Crash c, w')"
  by (auto simp: GetCredentialsSecret_def go_simps split: option.splits prod.splits sum.splits)

text \<open>
  When the API server answers the read of the credentials secret with an error of any
  kind, a not-found error included, \<open>GetCredentialsSecret\<close> returns an error that is not
  classified as an invalid machine configuration; only a secret without the expected key
  is.  (The source builds an invalid-configuration error for the not-found case, but does
  not return it.)
\<close>

theorem GetCredentialsSecret_classification:
  assumes "CredentialsSecret spec = Some name"
  shows "case GetSecret client ns name (ext w) of
     (Inl err, e) \<Rightarrow> (\<exists>e'. fst (GetCredentialsSecret client ns spec w) = Err e' \<and>
                       \<not> isInvalidMachineConfigurationError (Some e'))
   | (Inr secret, e) \<Rightarrow> (case fmlookup secret credentialsSecretKey of
       None \<Rightarrow> (\<exists>e'. fst (GetCredentialsSecret client ns spec w) = Err e' \<and>
                  isInvalidMachineConfigurationError (Some e'))
     | Some data \<Rightarrow> fst (GetCredentialsSecret client ns spec w) = Ok data)"
  using assms
  by (auto simp: GetCredentialsSecret_def go_simps split: prod.splits sum.splits option.splits)

end
