(* ===== verification/Machine_Scope.thy ===== *)
theory Machine_Scope
  imports Provider_Config
begin

text \<open>
  \<open>machine/machine_scope.go\<close>: the scope of one actuator operation, made from a machine and
  closed by writing the machine back to the API server.
\<close>

section \<open>Definitions\<close>

text \<open>
  \<open>machineScope\<close>, less the context and the feature gates, which nothing reads.  Methods of
  the scope and of the reconciler run on the scope together with the world.
\<close>

record 'w machineScope =
  coreClient :: "'w Client"
  projectID :: string
  providerID :: string
  computeSvc :: "'w GCPComputeService"
  machine :: Machine
  providerSpec :: GCPMachineProviderSpec
  providerStatus :: GCPMachineProviderStatus
  origMachine :: Machine
  origProviderStatus :: GCPMachineProviderStatus
  machineToBePatched :: Machine
  tagSvc :: "'w TagService"

type_synonym ('w, 'a) rec = "('w machineScope \<times> 'w world, 'a) go"

definition getScope :: "('w machineScope \<Rightarrow> 'a) \<Rightarrow> ('w, 'a) rec" where
  "getScope f = gets (\<lambda>(s, w). f s)"

definition updScope :: "('w machineScope \<Rightarrow> 'w machineScope) \<Rightarrow> ('w, unit) rec" where
  "updScope f = modify (\<lambda>(s, w). (f s, w))"

record ('w) machineScopeParams =
  par_coreClient :: "'w Client"
  par_machine :: Machine
  computeClientBuilder :: "string \<Rightarrow> error + 'w GCPComputeService"
  tagsClientBuilder :: "string \<Rightarrow> error + 'w TagService"

definition newMachineScope :: "golib \<Rightarrow> 'w machineScopeParams \<Rightarrow> ('w world, 'w machineScope) go" where
  "newMachineScope lib params =
     (let mach = par_machine params in
      seq (onErr (\<lambda>err. InvalidMachineConfiguration (''failed to get machine config: '' @ Error err))
             (pureCall (ProviderSpecFromRawExtension lib (ProviderSpecValue mach)))) (\<lambda>specPtr.
      seq (onErr (\<lambda>err. InvalidMachineConfiguration (''failed to get machine provider status: '' @ Error err))
             (pureCall (ProviderStatusFromRawExtension lib (ProviderStatus (m_Status mach))))) (\<lambda>status.
      seq (deref specPtr) (\<lambda>spec.
      seq (GetCredentialsSecret (par_coreClient params) (m_Namespace mach) spec) (\<lambda>serviceAccountJSON.
      seq (if ps_ProjectID spec = ''''
           then onErr (\<lambda>err. InvalidMachineConfiguration (''error getting project from JSON key: '' @ Error err))
                  (pureCall (GetProjectIDFromJSONKey lib serviceAccountJSON))
           else ret (ps_ProjectID spec)) (\<lambda>project.
      seq (onErr (\<lambda>err. InvalidMachineConfiguration (''error creating compute service: '' @ Error err))
             (pureCall (computeClientBuilder params serviceAccountJSON))) (\<lambda>compute.
      seq (onErr (\<lambda>err. InvalidMachineConfiguration (''error creating tag service: '' @ Error err))
             (pureCall (tagsClientBuilder params serviceAccountJSON))) (\<lambda>tags.
      ret \<lparr>coreClient = par_coreClient params,
           projectID = project,
           providerID = ''gce://'' @ project @ ''/'' @ Zone spec @ ''/'' @ m_Name mach,
           computeSvc = compute,
           machine = mach,
           providerSpec = spec,
           providerStatus = status,
           origMachine = mach,
           origProviderStatus = status,
           machineToBePatched = mach,
           tagSvc = tags\<rparr>))))))))"

definition setMachineSpec :: "golib \<Rightarrow> ('w, unit) rec" where
  "setMachineSpec lib =
     seq (getScope providerSpec) (\<lambda>spec.
     seq (pureCall (RawExtensionFromProviderSpec lib (Some spec))) (\<lambda>raw.
     updScope (\<lambda>s. s\<lparr>machine := (machine s)\<lparr>ProviderSpecValue := Some raw\<rparr>\<rparr>)))"

definition setMachineStatus :: "golib \<Rightarrow> ('w, unit) rec" where
  "setMachineStatus lib =
     seq (getScope (\<lambda>s. s)) (\<lambda>s.
     if providerStatus s = origProviderStatus s \<and>
        Addresses (m_Status (machine s)) = Addresses (m_Status (origMachine s))
     then ret ()
     else
       seq (pureCall (RawExtensionFromProviderStatus lib (Some (providerStatus s)))) (\<lambda>raw.
       seq (onSnd Now) (\<lambda>time.
       updScope (\<lambda>s. s\<lparr>machine := (machine s)\<lparr>m_Status := (m_Status (machine s))\<lparr>
           ProviderStatus := Some raw, LastUpdated := Some time\<rparr>\<rparr>\<rparr>))))"

definition PatchMachine :: "('w, unit) rec" where
  "PatchMachine =
     seq (getScope (\<lambda>s. s)) (\<lambda>s.
     let statusCopy = m_Status (machine s) in
     seq (onSnd (invoke (CallPatch (machine s) (machineToBePatched s))
                  (Patch (coreClient s) (machine s) (machineToBePatched s)))) (\<lambda>answer.
     let patched = answer\<lparr>m_Status := statusCopy\<rparr> in
     seq (updScope (\<lambda>s. s\<lparr>machine := patched\<rparr>)) (\<lambda>_.
     seq (onSnd (invoke (CallStatusPatch patched (machineToBePatched s))
                  (StatusPatch (coreClient s) patched (machineToBePatched s)))) (\<lambda>answer.
     updScope (\<lambda>s. s\<lparr>machine := answer\<rparr>)))))"

definition closeError :: "string \<Rightarrow> 'w machineScope \<times> 'w world \<Rightarrow> error \<Rightarrow> error" where
  "closeError what st err =
     (let m = machine (fst st) in
      errorfV (''[machinescope] failed to '' @ what @ '' '' @ Quote (m_Name m) @ '' in namespace ''
               @ Quote (m_Namespace m) @ '': '') err)"

definition Close :: "golib \<Rightarrow> ('w, unit) rec" where
  "Close lib =
     seq (onErrS (closeError ''set provider status for machine'') (setMachineStatus lib)) (\<lambda>_.
     seq (onErrS (closeError ''set machine spec'') (setMachineSpec lib)) (\<lambda>_.
     onErrS (closeError ''patch machine'') PatchMachine))"

section \<open>Lemmas\<close>

lemma scope_run [go_simps]:
  "getScope f (s, w) = (Ok (f s), (s, w))"
  "updScope g (s, w) = (Ok (), (g s, w))"
  by (simp_all add: getScope_def updScope_def run_basic)

lemma failsWith_scope [fails_intros, simp]:
  "failsWith E (getScope f)" "failsWith E (updScope g)"
  by (simp_all add: getScope_def updScope_def)

lemma Now_run [go_simps]: "Now w = (Ok (wallClock w (ext w)), w)"
  by (simp add: Now_def run_basic)

lemma scope_Ok_iff:
  "getScope f (s, w) = (Ok x, st) \<longleftrightarrow> x = f s \<and> st = (s, w)"
  "onSnd m (s, w) = (Ok x, st) \<longleftrightarrow> (\<exists>w'. m w = (Ok x, w') \<and> st = (s, w'))"
  by (auto simp: scope_run onSnd_run split: prod.splits)

lemma pureCall_Ok_iff: "pureCall r st = (Ok x, st') \<longleftrightarrow> r = Inr x \<and> st' = st"
  by (cases r) (auto simp: run_basic)

lemma deref_Ok_iff: "deref p st = (Ok x, st') \<longleftrightarrow> p = Some x \<and> st' = st"
  by (cases p) (auto simp: run_basic)

lemma seq_OkE:
  assumes "seq m k st = (Ok y, st')"
  obtains x u where "m st = (Ok x, u)" and "k x u = (Ok y, st')"
  using assms by (auto simp: seq_Ok_iff)

lemmas run_Ok = seq_Ok_iff scope_Ok_iff pureCall_Ok_iff deref_Ok_iff run_basic

text \<open>
  What an operation of the reconciler leaves alone in its scope: everything but the provider
  spec, the provider status and the parts of the machine it reports into, which
  \<open>fixedScope\<close> blanks out.  In general, a part \<open>K\<close> of the scope stays and the world keeps a
  condition \<open>R\<close>; the operations that are shared by several conditions are proved once in
  the interface \<open>scope_frame\<close>.
\<close>

definition fixedScope :: "'w machineScope \<Rightarrow> 'w machineScope" where
  "fixedScope s = s\<lparr>
     machine := (machine s)\<lparr>m_Labels := None, m_Annotations := None, SpecLabels := None, ProviderID := None,
       m_Status := (m_Status (machine s))\<lparr>Addresses := []\<rparr>\<rparr>,
     providerSpec := zeroProviderSpec, providerStatus := zeroProviderStatus\<rparr>"

definition onScope ::
    "('w machineScope \<Rightarrow> 'k) \<Rightarrow> ('w world \<Rightarrow> 'w world \<Rightarrow> bool) \<Rightarrow>
     'w machineScope \<times> 'w world \<Rightarrow> 'w machineScope \<times> 'w world \<Rightarrow> bool" where
  "onScope K R x y \<longleftrightarrow> K (fst y) = K (fst x) \<and> R (snd x) (snd y)"

locale scope_frame = call_frame R P for R :: "'w world \<Rightarrow> 'w world \<Rightarrow> bool" and P +
  fixes K :: "'w machineScope \<Rightarrow> 'k"

sublocale scope_frame < scope: state_preorder "onScope K R"
  by unfold_locales (auto simp: onScope_def intro: refl trans)

context scope_frame
begin

lemma obeys_getScope [obeys_intros, simp]: "obeys (onScope K R) (getScope f)"
  by (simp add: getScope_def)

lemma obeys_onScope [obeys_intros]: "obeys R m \<Longrightarrow> obeys (onScope K R) (onSnd m)"
  by (rule obeysI) (auto simp: onScope_def onSnd_def dest: obeysD split: prod.splits)

lemma obeys_updScope [obeys_intros]: "(\<And>s. K (f s) = K s) \<Longrightarrow> obeys (onScope K R) (updScope f)"
  unfolding updScope_def by (rule scope.obeys_modify) (auto simp: onScope_def refl)

end

text \<open>The same for conditions that allow failure metrics.\<close>

locale scope_log = scope_frame R P K for R :: "'w world \<Rightarrow> 'w world \<Rightarrow> bool" and P and K +
  assumes noted: "R w (w\<lparr>metrics := metrics w @ [m]\<rparr>)"
begin

lemma obeys_registerMetric [obeys_intros, simp]: "obeys R (registerMetric m)"
  unfolding registerMetric_def by (rule obeys_modify) (rule noted)

end

abbreviation scopeFrame ::
    "(call \<Rightarrow> bool) \<Rightarrow> 'w machineScope \<times> 'w world \<Rightarrow> 'w machineScope \<times> 'w world \<Rightarrow> bool" where
  "scopeFrame P \<equiv> onScope fixedScope (logGrows P)"

interpretation frame: scope_log "logGrows P" P fixedScope
  by unfold_locales (simp add: logGrows_def)

interpretation kept: scope_log "logGrows P" P "\<lambda>s. s"
  by unfold_locales (simp add: logGrows_def)

lemma fixedScopeD:
  assumes "fixedScope s' = fixedScope s"
  shows "coreClient s' = coreClient s" "projectID s' = projectID s" "providerID s' = providerID s"
    "computeSvc s' = computeSvc s" "tagSvc s' = tagSvc s" "origMachine s' = origMachine s"
    "origProviderStatus s' = origProviderStatus s" "machineToBePatched s' = machineToBePatched s"
    "m_Name (machine s') = m_Name (machine s)" "m_Namespace (machine s') = m_Namespace (machine s)"
    "m_UID (machine s') = m_UID (machine s)" "ResourceVersion (machine s') = ResourceVersion (machine s)"
    "ProviderSpecValue (machine s') = ProviderSpecValue (machine s)"
    "LastUpdated (m_Status (machine s')) = LastUpdated (m_Status (machine s))"
    "ProviderStatus (m_Status (machine s')) = ProviderStatus (m_Status (machine s))"
    "Phase (m_Status (machine s')) = Phase (m_Status (machine s))"
proof -
  obtain cc p pid cs m sp st om os mp ts where s:
    "s = \<lparr>coreClient = cc, projectID = p, providerID = pid, computeSvc = cs, machine = m, providerSpec = sp,
       providerStatus = st, origMachine = om, origProviderStatus = os, machineToBePatched = mp, tagSvc = ts\<rparr>"
    by (cases s) blast
  obtain cc' p' pid' cs' m' sp' st' om' os' mp' ts' where s':
    "s' = \<lparr>coreClient = cc', projectID = p', providerID = pid', computeSvc = cs', machine = m', providerSpec = sp',
       providerStatus = st', origMachine = om', origProviderStatus = os', machineToBePatched = mp', tagSvc = ts'\<rparr>"
    by (cases s') blast
  have eq: "cc' = cc \<and> p' = p \<and> pid' = pid \<and> cs' = cs \<and> om' = om \<and> os' = os \<and> mp' = mp \<and> ts' = ts \<and>
      m_Name m' = m_Name m \<and> m_Namespace m' = m_Namespace m \<and> m_UID m' = m_UID m \<and>
      ResourceVersion m' = ResourceVersion m \<and> ProviderSpecValue m' = ProviderSpecValue m \<and>
      LastUpdated (m_Status m') = LastUpdated (m_Status m) \<and>
      ProviderStatus (m_Status m') = ProviderStatus (m_Status m) \<and> Phase (m_Status m') = Phase (m_Status m)"
    using assms unfolding s s' fixedScope_def
    by (cases m; cases m'; cases "m_Status m"; cases "m_Status m'") simp
  show "coreClient s' = coreClient s" "projectID s' = projectID s" "providerID s' = providerID s"
    "computeSvc s' = computeSvc s" "tagSvc s' = tagSvc s" "origMachine s' = origMachine s"
    "origProviderStatus s' = origProviderStatus s" "machineToBePatched s' = machineToBePatched s"
    "m_Name (machine s') = m_Name (machine s)" "m_Namespace (machine s') = m_Namespace (machine s)"
    "m_UID (machine s') = m_UID (machine s)" "ResourceVersion (machine s') = ResourceVersion (machine s)"
    "ProviderSpecValue (machine s') = ProviderSpecValue (machine s)"
    "LastUpdated (m_Status (machine s')) = LastUpdated (m_Status (machine s))"
    "ProviderStatus (m_Status (machine s')) = ProviderStatus (m_Status (machine s))"
    "Phase (m_Status (machine s')) = Phase (m_Status (machine s))"
    using eq by (simp_all add: s s')
qed

lemma setMachineStatus_run:
  "setMachineStatus lib (s, w) =
    (if providerStatus s = origProviderStatus s \<and>
        Addresses (m_Status (machine s)) = Addresses (m_Status (origMachine s))
     then (Ok (), (s, w))
     else case marshalStatus lib (providerStatus s) of
       Inl err \<Rightarrow> (Err (errorfV ''error marshalling providerStatus: '' err), (s, w))
     | Inr raw \<Rightarrow> (Ok (), (s\<lparr>machine := (machine s)\<lparr>m_Status := (m_Status (machine s))\<lparr>
           ProviderStatus := Some raw, LastUpdated := Some (wallClock w (ext w))\<rparr>\<rparr>\<rparr>, w)))"
  by (simp add: setMachineStatus_def go_simps RawExtensionFromProviderStatus_def split: sum.splits)

text \<open>No event is recorded, whatever becomes of the scope.\<close>

definition sameEvents :: "'w world \<Rightarrow> 'w world \<Rightarrow> bool" where
  "sameEvents w w' \<longleftrightarrow> events w' = events w"

interpretation silent: scope_log sameEvents "\<lambda>_. True" "\<lambda>_. ()"
  by unfold_locales (auto simp: sameEvents_def)

abbreviation silently :: "'w machineScope \<times> 'w world \<Rightarrow> 'w machineScope \<times> 'w world \<Rightarrow> bool" where
  "silently \<equiv> onScope (\<lambda>_. ()) sameEvents"

lemma silent_Close [obeys_intros, simp]: "obeys silently (Close lib)"
  unfolding Close_def setMachineStatus_def setMachineSpec_def PatchMachine_def Let_def
  by (intro obeys_intros; simp)

lemma silent_newMachineScope: "obeys sameEvents (newMachineScope lib params)"
  unfolding newMachineScope_def Let_def by (intro obeys_intros; simp)

lemma newMachineScope_machine:
  assumes "newMachineScope lib params w = (Ok s, w')"
  shows "machine s = par_machine params" "machineToBePatched s = par_machine params"
  using assms by (auto simp: newMachineScope_def Let_def run_Ok split: if_splits)

lemma pureCall_not_Crash [simp]: "pureCall r st \<noteq> (Crash c, st')"
  by (cases r) (simp_all add: run_basic)

lemma Close_not_Crash: "Close lib (s, w) \<noteq> (Crash c, st)"
  by (auto simp: Close_def setMachineStatus_run setMachineSpec_def PatchMachine_def Let_def go_simps
      RawExtensionFromProviderSpec_def split: prod.splits sum.splits if_splits outcome.splits)

section \<open>Properties\<close>

text \<open>
  C18. A scope that \<open>newMachineScope\<close> returns describes the machine it was given and leaves the
  cloud alone: the project is the provider spec's or, if that is empty, the one of the
  service account key; the provider id is \<open>gce://project/zone/name\<close>; machine, original and
  patch base are the given machine; and the only request made is at most one read of a
  secret.
\<close>

theorem newMachineScope_spec:
  assumes "newMachineScope lib params w = (Ok s, w')"
  shows "machine s = par_machine params \<and> origMachine s = par_machine params \<and>
     machineToBePatched s = par_machine params \<and>
     ProviderSpecFromRawExtension lib (ProviderSpecValue (par_machine params)) = Inr (Some (providerSpec s)) \<and>
     ProviderStatusFromRawExtension lib (ProviderStatus (m_Status (par_machine params))) = Inr (providerStatus s) \<and>
     origProviderStatus s = providerStatus s \<and>
     providerID s = ''gce://'' @ projectID s @ ''/'' @ Zone (providerSpec s) @ ''/'' @ m_Name (par_machine params) \<and>
     (ps_ProjectID (providerSpec s) \<noteq> '''' \<longrightarrow> projectID s = ps_ProjectID (providerSpec s)) \<and>
     (ps_ProjectID (providerSpec s) = '''' \<longrightarrow>
        (\<exists>key. GetCredentialsSecret (par_coreClient params) (m_Namespace (par_machine params)) (providerSpec s) w
                = (Ok key, w') \<and> GetProjectIDFromJSONKey lib key = Inr (projectID s))) \<and>
     calls w' = calls w @ (case CredentialsSecret (providerSpec s) of
        None \<Rightarrow> [] | Some n \<Rightarrow> [CallGetSecret (m_Namespace (par_machine params)) n])"
proof -
  have secret: "calls u = calls w @ (case CredentialsSecret sp of None \<Rightarrow> [] | Some n \<Rightarrow> [CallGetSecret ns n])"
    if "GetCredentialsSecret client ns sp w = (Ok k, u)" for client ns sp k u
    using that by (auto simp: GetCredentialsSecret_def go_simps split: option.splits prod.splits sum.splits)
  from assms show ?thesis
    by (auto simp: newMachineScope_def Let_def run_Ok secret split: if_splits)
qed

text \<open>
  \<open>setMachineStatus\<close> touches the machine exactly when the provider status or the
  addresses differ from those the scope started with: then it stores the encoded provider
  status and sets \<open>LastUpdated\<close> to the current time, otherwise it writes nothing at all.
  Encoding is the only way it can fail, and then the machine is as before.
\<close>

theorem setMachineStatus_spec:
  assumes "setMachineStatus lib (s, w) = (r, (s', w'))"
  defines "unchanged \<equiv> providerStatus s = origProviderStatus s \<and>
     Addresses (m_Status (machine s)) = Addresses (m_Status (origMachine s))"
  shows "w' = w \<and>
    (unchanged \<longrightarrow> r = Ok () \<and> s' = s) \<and>
    (\<not> unchanged \<longrightarrow> (case marshalStatus lib (providerStatus s) of
       Inl err \<Rightarrow> r = Err (errorfV ''error marshalling providerStatus: '' err) \<and> s' = s
     | Inr raw \<Rightarrow> r = Ok () \<and>
         s' = s\<lparr>machine := (machine s)\<lparr>m_Status := (m_Status (machine s))\<lparr>
           ProviderStatus := Some raw, LastUpdated := Some (wallClock w (ext w))\<rparr>\<rparr>\<rparr>))"
  using assms(1) by (auto simp: setMachineStatus_run unchanged_def split: if_splits sum.splits)

lemma PatchMachine_calls:
  assumes "PatchMachine (s, w) = (Ok (), (s', w'))"
  shows "\<exists>m. calls w' = calls w @ [CallPatch (machine s) (machineToBePatched s),
                                 CallStatusPatch m (machineToBePatched s)] \<and>
             m_Status m = m_Status (machine s)"
proof -
  from assms obtain a e1 b e2 where
    "Patch (coreClient s) (machine s) (machineToBePatched s) (ext w) = (Inr a, e1)"
    "StatusPatch (coreClient s) (a\<lparr>m_Status := m_Status (machine s)\<rparr>) (machineToBePatched s) e1 = (Inr b, e2)"
    by (auto simp: PatchMachine_def go_simps Let_def split: prod.splits sum.splits)
  with assms show ?thesis
    by (auto simp: PatchMachine_def go_simps Let_def)
qed

text \<open>
  C19. When \<open>Close\<close> succeeds it has sent exactly two requests, a patch of the machine and then
  a patch of its status, both against the machine the scope started from.  The machine
  patched carries the encoding of the scope's provider spec; and the status sent second is
  the status the operation computed, whatever the API server answered to the first patch.
\<close>

theorem Close_patches:
  assumes "Close lib (s, w) = (Ok (), (s', w'))"
  shows "\<exists>m1 m2. calls w' = calls w @ [CallPatch m1 (machineToBePatched s), CallStatusPatch m2 (machineToBePatched s)] \<and>
     (\<exists>raw. marshalSpec lib (providerSpec s) = Inr raw \<and> ProviderSpecValue m1 = Some raw) \<and>
     m_Status m2 = m_Status m1 \<and>
     (if providerStatus s = origProviderStatus s \<and> Addresses (m_Status (machine s)) = Addresses (m_Status (origMachine s))
      then m_Status m1 = m_Status (machine s)
      else \<exists>raw. marshalStatus lib (providerStatus s) = Inr raw \<and>
             m_Status m1 = (m_Status (machine s))\<lparr>ProviderStatus := Some raw, LastUpdated := Some (wallClock w (ext w))\<rparr>)"
proof -
  from assms obtain s1 w1 s2 w2 where
    st: "setMachineStatus lib (s, w) = (Ok (), (s1, w1))" and
    sp: "setMachineSpec lib (s1, w1) = (Ok (), (s2, w2))" and
    pm: "PatchMachine (s2, w2) = (Ok (), (s', w'))"
    by (auto simp: Close_def seq_Ok_iff)
  from sp obtain raw where raw: "marshalSpec lib (providerSpec s1) = Inr raw" and
    s2: "s2 = s1\<lparr>machine := (machine s1)\<lparr>ProviderSpecValue := Some raw\<rparr>\<rparr>" "w2 = w1"
    by (auto simp: setMachineSpec_def go_simps RawExtensionFromProviderSpec_def split: sum.splits)
  from PatchMachine_calls [OF pm] st raw s2 show ?thesis
    by (auto simp: setMachineStatus_run split: if_splits sum.splits)
qed

end
