(* ===== verification/Compute_Service.thy ===== *)
theory Compute_Service
  imports World
begin

text \<open>
  The two implementations of \<open>GCPComputeService\<close> and of \<open>TagService\<close>: the pass-through
  wrappers over the generated clients (\<open>computeservice.go\<close>, \<open>tagservice.go\<close>), and the mocks
  (\<open>computeservice_mock.go\<close>, \<open>tagservice_mock.go\<close>), whose outside world is the instance they
  last received.
\<close>

section \<open>The wrappers over the compute client\<close>

text \<open>
  \<open>*compute.Service\<close>, the generated client: one function per request it sends.  A request
  that names instances takes the list of instance references; listing machine types
  delivers a list of pages and the error that ended the listing, if any.
\<close>

record 'w ComputeAPI =
  api_InstancesInsert :: "string \<Rightarrow> string \<Rightarrow> Instance \<Rightarrow> ('w, Operation ptr) extcall"
  api_ZoneOperationsGet :: "string \<Rightarrow> string \<Rightarrow> string \<Rightarrow> ('w, Operation ptr) extcall"
  api_InstancesGet :: "string \<Rightarrow> string \<Rightarrow> string \<Rightarrow> ('w, Instance ptr) extcall"
  api_InstancesDelete :: "string \<Rightarrow> string \<Rightarrow> string \<Rightarrow> string \<Rightarrow> ('w, Operation ptr) extcall"
  api_ZonesGet :: "string \<Rightarrow> string \<Rightarrow> ('w, string ptr) extcall"
  api_BasePath :: string
  api_TargetPoolsGet :: "string \<Rightarrow> string \<Rightarrow> string \<Rightarrow> ('w, TargetPool ptr) extcall"
  api_TargetPoolsAddInstance :: "string \<Rightarrow> string \<Rightarrow> string \<Rightarrow> string list \<Rightarrow> ('w, Operation ptr) extcall"
  api_TargetPoolsRemoveInstance :: "string \<Rightarrow> string \<Rightarrow> string \<Rightarrow> string list \<Rightarrow> ('w, Operation ptr) extcall"
  api_MachineTypesGet :: "string \<Rightarrow> string \<Rightarrow> string \<Rightarrow> ('w, MachineType ptr) extcall"
  api_MachineTypesPages :: "string \<Rightarrow> string \<Rightarrow> 'w \<Rightarrow> (MachineType list list \<times> error option) \<times> 'w"
  api_AcceleratorTypesGet :: "string \<Rightarrow> string \<Rightarrow> string \<Rightarrow> ('w, string ptr) extcall"
  api_RegionsGet :: "string \<Rightarrow> string \<Rightarrow> ('w, ComputeRegion ptr) extcall"
  api_InstanceGroupsAddInstances :: "string \<Rightarrow> string \<Rightarrow> string \<Rightarrow> string list \<Rightarrow> ('w, Operation ptr) extcall"
  api_InstanceGroupsRemoveInstances :: "string \<Rightarrow> string \<Rightarrow> string \<Rightarrow> string list \<Rightarrow> ('w, Operation ptr) extcall"
  api_InstanceGroupsListInstances :: "string \<Rightarrow> string \<Rightarrow> string \<Rightarrow> string \<Rightarrow> ('w, string list ptr) extcall"
  api_InstanceGroupsInsert :: "string \<Rightarrow> string \<Rightarrow> InstanceGroup \<Rightarrow> ('w, Operation ptr) extcall"
  api_InstanceGroupsGet :: "string \<Rightarrow> string \<Rightarrow> string \<Rightarrow> ('w, InstanceGroup ptr) extcall"
  api_RegionBackendServicesUpdate :: "string \<Rightarrow> string \<Rightarrow> string \<Rightarrow> BackendService \<Rightarrow> ('w, Operation ptr) extcall"
  api_RegionBackendServicesGet :: "string \<Rightarrow> string \<Rightarrow> string \<Rightarrow> ('w, BackendService ptr) extcall"
  api_ImagesGet :: "string \<Rightarrow> string \<Rightarrow> ('w, Image ptr) extcall"
  api_ImageFamilyViewsGet :: "string \<Rightarrow> string \<Rightarrow> string \<Rightarrow> ('w, ImageFamilyView ptr) extcall"

definition computeService_TargetPoolsAddInstance ::
    "'w ComputeAPI \<Rightarrow> string \<Rightarrow> string \<Rightarrow> string \<Rightarrow> string \<Rightarrow> ('w, Operation ptr) extcall" where
  "computeService_TargetPoolsAddInstance c project region name instanceLink =
     api_TargetPoolsAddInstance c project region name [instanceLink]"

definition computeService_TargetPoolsRemoveInstance ::
    "'w ComputeAPI \<Rightarrow> string \<Rightarrow> string \<Rightarrow> string \<Rightarrow> string \<Rightarrow> ('w, Operation ptr) extcall" where
  "computeService_TargetPoolsRemoveInstance c project region name instanceLink =
     api_TargetPoolsRemoveInstance c project region name [instanceLink]"

definition computeService_InstanceGroupsAddInstances ::
    "'w ComputeAPI \<Rightarrow> string \<Rightarrow> string \<Rightarrow> string \<Rightarrow> string \<Rightarrow> ('w, Operation ptr) extcall" where
  "computeService_InstanceGroupsAddInstances c project zone inst instanceGroup =
     api_InstanceGroupsAddInstances c project zone instanceGroup [inst]"

definition computeService_InstanceGroupsRemoveInstances ::
    "'w ComputeAPI \<Rightarrow> string \<Rightarrow> string \<Rightarrow> string \<Rightarrow> string \<Rightarrow> ('w, Operation ptr) extcall" where
  "computeService_InstanceGroupsRemoveInstances c project zone inst instanceGroup =
     api_InstanceGroupsRemoveInstances c project zone instanceGroup [inst]"

text \<open>The page callback of \<open>GPUCompatibleMachineTypesList\<close>, for one machine type.\<close>

definition gpuFamilyPrefix :: "string \<Rightarrow> bool" where
  "gpuFamilyPrefix name = (HasPrefix name ''a2'' \<or> HasPrefix name ''a3'')"

definition collectMachineType ::
    "(string, GpuInfo) fmap \<times> string list \<Rightarrow> MachineType \<Rightarrow> ('s, (string, GpuInfo) fmap \<times> string list) go" where
  "collectMachineType acc machineType = (case acc of (a2or3MachineFamily, n1MachineFamily) \<Rightarrow>
     if gpuFamilyPrefix (mt_Name machineType)
     then seq (firstElem (Accelerators machineType)) (\<lambda>a.
       ret (fmupd (mt_Name machineType)
              \<lparr>gi_Count = GuestAcceleratorCount a, gi_Type = GuestAcceleratorType a\<rparr> a2or3MachineFamily,
            n1MachineFamily))
     else if HasPrefix (mt_Name machineType) ''n1''
     then ret (a2or3MachineFamily, n1MachineFamily @ [mt_Name machineType])
     else ret acc)"

definition computeService_GPUCompatibleMachineTypesList ::
    "'w ComputeAPI \<Rightarrow> string \<Rightarrow> string \<Rightarrow> ('w, (string, GpuInfo) fmap \<times> string list) go" where
  "computeService_GPUCompatibleMachineTypesList c project zone = (\<lambda>w.
     case api_MachineTypesPages c project zone w of ((pages, err), w') \<Rightarrow>
       seq (foldG collectMachineType (fmempty, []) (concat pages))
         (\<lambda>acc. case err of None \<Rightarrow> ret acc | Some e \<Rightarrow> panic (LogFatal e)) w')"

definition computeService :: "'w ComputeAPI \<Rightarrow> 'w GCPComputeService" where
  "computeService c = \<lparr>
     InstancesDelete = (\<lambda>requestId project zone inst. api_InstancesDelete c project zone inst requestId),
     InstancesInsert = api_InstancesInsert c,
     InstancesGet = api_InstancesGet c,
     ZonesGet = api_ZonesGet c,
     ZoneOperationsGet = api_ZoneOperationsGet c,
     BasePath = api_BasePath c,
     TargetPoolsGet = api_TargetPoolsGet c,
     TargetPoolsAddInstance = computeService_TargetPoolsAddInstance c,
     TargetPoolsRemoveInstance = computeService_TargetPoolsRemoveInstance c,
     MachineTypesGet = api_MachineTypesGet c,
     RegionGet = api_RegionsGet c,
     GPUCompatibleMachineTypesList = computeService_GPUCompatibleMachineTypesList c,
     AcceleratorTypeGet = api_AcceleratorTypesGet c,
     ImageGet = api_ImagesGet c,
     ImageFamilyGet = api_ImageFamilyViewsGet c,
     InstanceGroupsListInstances = api_InstanceGroupsListInstances c,
     InstanceGroupsAddInstances = computeService_InstanceGroupsAddInstances c,
     InstanceGroupsRemoveInstances = computeService_InstanceGroupsRemoveInstances c,
     InstanceGroupInsert = api_InstanceGroupsInsert c,
     InstanceGroupGet = api_InstanceGroupsGet c,
     AddInstanceGroupToBackendService = api_RegionBackendServicesUpdate c,
     BackendServiceGet = api_RegionBackendServicesGet c\<rparr>"

text \<open>
  \<open>NewComputeService\<close> and \<open>NewTagService\<close>: the credentials and the client constructors of
  the vendored packages are parameters.
\<close>

definition NewComputeService ::
    "(string \<Rightarrow> error + 'c) \<Rightarrow> ('c \<Rightarrow> error + 'w ComputeAPI) \<Rightarrow> string \<Rightarrow> error + 'w GCPComputeService" where
  "NewComputeService credentialsFromJSON newService serviceAccountJSON =
     (case credentialsFromJSON serviceAccountJSON of
        Inl err \<Rightarrow> Inl err
      | Inr creds \<Rightarrow> (case newService creds of
            Inl err \<Rightarrow> Inl err
          | Inr service \<Rightarrow> Inr (computeService service)))"

definition NewTagService ::
    "(string \<Rightarrow> error + (string \<Rightarrow> ('w, TagValue ptr) extcall)) \<Rightarrow> string \<Rightarrow> error + 'w TagService" where
  "NewTagService newService serviceAccountJSON =
     (case newService serviceAccountJSON of
        Inl err \<Rightarrow> Inl (errorfW ''could not create new tag service: '' err)
      | Inr getNamespaced \<Rightarrow> Inr \<lparr>GetNamespacedName = getNamespaced\<rparr>)"

section \<open>The mocks\<close>

record 'w GCPComputeServiceMock =
  MockGPUCompatibleMachineTypesList :: "(string \<Rightarrow> string \<Rightarrow> (string, GpuInfo) fmap \<times> string list) ptr"
  MockInstancesInsert :: "(string \<Rightarrow> string \<Rightarrow> Instance \<Rightarrow> ('w, Operation ptr) extcall) ptr"
  MockMachineTypesGet :: "(string \<Rightarrow> string \<Rightarrow> string \<Rightarrow> ('w, MachineType ptr) extcall) ptr"
  MockRegionGet :: "(string \<Rightarrow> string \<Rightarrow> ('w, ComputeRegion ptr) extcall) ptr"
  mockZoneOperationsGet :: "(string \<Rightarrow> string \<Rightarrow> string \<Rightarrow> ('w, Operation ptr) extcall) ptr"
  mockInstancesGet :: "(string \<Rightarrow> string \<Rightarrow> string \<Rightarrow> ('w, Instance ptr) extcall) ptr"

definition opDone :: Operation where
  "opDone = \<lparr>op_Status = ''DONE''\<rparr>"

definition mock_InstancesInsert :: "'w GCPComputeServiceMock \<Rightarrow> string \<Rightarrow> string \<Rightarrow> Instance \<Rightarrow> ('w, Operation ptr) extcall" where
  "mock_InstancesInsert c project zone inst = (\<lambda>w.
     case MockInstancesInsert c of None \<Rightarrow> (Inr None, w) | Some f \<Rightarrow> f project zone inst w)"

definition mock_ZoneOperationsGet :: "'w GCPComputeServiceMock \<Rightarrow> string \<Rightarrow> string \<Rightarrow> string \<Rightarrow> ('w, Operation ptr) extcall" where
  "mock_ZoneOperationsGet c project zone op = (\<lambda>w.
     case mockZoneOperationsGet c of None \<Rightarrow> (Inr None, w) | Some f \<Rightarrow> f project zone op w)"

definition mock_InstancesGet :: "'w GCPComputeServiceMock \<Rightarrow> string \<Rightarrow> string \<Rightarrow> string \<Rightarrow> ('w, Instance ptr) extcall" where
  "mock_InstancesGet c project zone inst = (\<lambda>w.
     case mockInstancesGet c of
       None \<Rightarrow> (Inr (Some (zeroInstance\<lparr>
                 in_Name := inst, in_Zone := zone, in_MachineType := ''n1-standard-1'',
                 in_CanIpForward := True,
                 in_NetworkInterfaces := [\<lparr>cn_Network = '''', cn_Subnetwork = '''',
                   NetworkIP = ''10.0.0.15'', AccessConfigs = [\<lparr>NatIP = ''35.243.147.143''\<rparr>]\<rparr>],
                 in_Status := ''RUNNING''\<rparr>)), w)
     | Some f \<Rightarrow> f project zone inst w)"

definition mock_TargetPoolsGet :: "string \<Rightarrow> string \<Rightarrow> string \<Rightarrow> ('w, TargetPool ptr) extcall" where
  "mock_TargetPoolsGet project region name = (\<lambda>w.
     if region = ''NoMachinesInPool'' then (Inr (Some \<lparr>tp_Instances = []\<rparr>), w)
     else if region = ''WithMachineInPool'' then
       (Inr (Some \<lparr>tp_Instances =
          [''https://www.googleapis.com/compute/v1/projects/testProject/zones/zone1/instances/testInstance'']\<rparr>), w)
     else (Inr None, w))"

definition mock_MachineTypesGet :: "'w GCPComputeServiceMock \<Rightarrow> string \<Rightarrow> string \<Rightarrow> string \<Rightarrow> ('w, MachineType ptr) extcall" where
  "mock_MachineTypesGet c project zone machineType = (\<lambda>w.
     case MockMachineTypesGet c of None \<Rightarrow> (Inr None, w) | Some f \<Rightarrow> f project zone machineType w)"

definition mock_RegionGet :: "'w GCPComputeServiceMock \<Rightarrow> string \<Rightarrow> string \<Rightarrow> ('w, ComputeRegion ptr) extcall" where
  "mock_RegionGet c project region = (\<lambda>w.
     case MockRegionGet c of None \<Rightarrow> (Inr (Some \<lparr>Quotas = []\<rparr>), w) | Some f \<Rightarrow> f project region w)"

definition mock_GPUCompatibleMachineTypesList ::
    "'w GCPComputeServiceMock \<Rightarrow> string \<Rightarrow> string \<Rightarrow> ('w, (string, GpuInfo) fmap \<times> string list) go" where
  "mock_GPUCompatibleMachineTypesList c project zone =
     (case MockGPUCompatibleMachineTypesList c of
        None \<Rightarrow> ret (fmempty, [''n1-test-machineType''])
      | Some f \<Rightarrow> ret (f project zone))"

definition mock_InstanceGroupsListInstances :: "string \<Rightarrow> string \<Rightarrow> string \<Rightarrow> string \<Rightarrow> ('w, string list ptr) extcall" where
  "mock_InstanceGroupsListInstances projectID zone instanceGroup request = (\<lambda>w.
     if projectID = ''groupDoesNotExist'' then (Inl (GoogleError 404 '''' '''' '''' [] None), w)
     else if projectID = ''emptyInstanceList'' then (Inr (Some []), w)
     else if projectID = ''errUnregisteringInstance'' then
       (Inr (Some [''https://www.googleapis.com/compute/v1/projects/errUnregisteringInstance/zones/zone1/instances/testInstance'']), w)
     else
       (Inr (Some [''https://www.googleapis.com/compute/v1/projects/testProject/zones/zone1/instances/testInstance'']), w))"

definition mock_InstanceGroupsAddInstances :: "string \<Rightarrow> string \<Rightarrow> string \<Rightarrow> string \<Rightarrow> ('w, Operation ptr) extcall" where
  "mock_InstanceGroupsAddInstances project zone inst instanceGroup = (\<lambda>w.
     if project = ''errRegisteringInstance'' then (Inl (PlainError ''a GCP error''), w)
     else (Inr (Some opDone), w))"

definition mock_InstanceGroupsRemoveInstances :: "string \<Rightarrow> string \<Rightarrow> string \<Rightarrow> string \<Rightarrow> ('w, Operation ptr) extcall" where
  "mock_InstanceGroupsRemoveInstances project zone inst instanceGroup = (\<lambda>w.
     if project = ''errUnregisteringInstance'' then (Inl (PlainError ''a GCP error''), w)
     else (Inr (Some opDone), w))"

definition mock_InstanceGroupInsert :: "string \<Rightarrow> string \<Rightarrow> InstanceGroup \<Rightarrow> ('w, Operation ptr) extcall" where
  "mock_InstanceGroupInsert project zone instanceGroup = (\<lambda>w.
     if project = ''addGroupSuccessfully'' then (Inr (Some opDone), w)
     else if project = ''errRegisteringNewInstanceGroup'' then
       (Inl (PlainError ''failed to register new instanceGroup''), w)
     else (Inr None, w))"

definition mock_InstanceGroupGet :: "string \<Rightarrow> string \<Rightarrow> string \<Rightarrow> ('w, InstanceGroup ptr) extcall" where
  "mock_InstanceGroupGet project zone instanceGroupName = (\<lambda>w.
     if project = ''errFailGroupGet'' then (Inl (PlainError ''instanceGroupGet request failed''), w)
     else if project = ''errGroupNotFound'' then (Inl (PlainError ''instanceGroupGet request failed''), w)
     else (Inr None, w))"

definition mock_AddInstanceGroupToBackendService :: "string \<Rightarrow> string \<Rightarrow> string \<Rightarrow> BackendService \<Rightarrow> ('w, Operation ptr) extcall" where
  "mock_AddInstanceGroupToBackendService project region backendServiceName backendService = (\<lambda>w.
     if project = ''errPatchingBackendService'' then
       (Inl (PlainError ''failed to add new instanceGroup to backend service''), w)
     else (Inr (Some opDone), w))"

definition mock_BackendServiceGet :: "string \<Rightarrow> string \<Rightarrow> string \<Rightarrow> ('w, BackendService ptr) extcall" where
  "mock_BackendServiceGet project region backendServiceName = (\<lambda>w.
     if project = ''errGettingBackendService'' \<or> project = ''errPatchingBackendService'' then
       (Inl (PlainError ''failed to get the regional backend service''), w)
     else
       (Inr (Some \<lparr>Backends = [\<lparr>BalancingMode = '''',
          Group = ''https://www.googleapis.com/compute/v1/projects/'' @ project
                  @ ''/zones/zone1/instanceGroups/CLUSTERID-master-zone1''\<rparr>], bs_Rest = ''''\<rparr>), w))"

definition mock_ImageGet :: "string \<Rightarrow> string \<Rightarrow> ('w, Image ptr) extcall" where
  "mock_ImageGet project img = (\<lambda>w.
     if project = ''errImageNotFound'' then (Inl (PlainError ''imageGet request failed''), w)
     else if img = ''uefi-image'' then (Inr (Some \<lparr>GuestOsFeatures = [''UEFI_COMPATIBLE'']\<rparr>), w)
     else (Inr (Some \<lparr>GuestOsFeatures = []\<rparr>), w))"

definition mock_ImageFamilyGet :: "string \<Rightarrow> string \<Rightarrow> string \<Rightarrow> ('w, ImageFamilyView ptr) extcall" where
  "mock_ImageFamilyGet project zone family = (\<lambda>w.
     if project = ''errImageNotFound'' then (Inl (PlainError ''imageGet request failed''), w)
     else if family = ''uefi-image-family'' then
       (Inr (Some \<lparr>fv_Image = Some \<lparr>GuestOsFeatures = [''UEFI_COMPATIBLE'']\<rparr>\<rparr>), w)
     else (Inr (Some \<lparr>fv_Image = Some \<lparr>GuestOsFeatures = []\<rparr>\<rparr>), w))"

definition mockService :: "'w GCPComputeServiceMock \<Rightarrow> 'w GCPComputeService" where
  "mockService c = \<lparr>
     InstancesDelete = (\<lambda>requestId project zone inst w. (Inr (Some opDone), w)),
     InstancesInsert = mock_InstancesInsert c,
     InstancesGet = mock_InstancesGet c,
     ZonesGet = (\<lambda>project zone w. (Inr None, w)),
     ZoneOperationsGet = mock_ZoneOperationsGet c,
     BasePath = ''path/'',
     TargetPoolsGet = mock_TargetPoolsGet,
     TargetPoolsAddInstance = (\<lambda>project region name inst w. (Inr None, w)),
     TargetPoolsRemoveInstance = (\<lambda>project region name inst w. (Inr None, w)),
     MachineTypesGet = mock_MachineTypesGet c,
     RegionGet = mock_RegionGet c,
     GPUCompatibleMachineTypesList = mock_GPUCompatibleMachineTypesList c,
     AcceleratorTypeGet = (\<lambda>project zone acceleratorType w. (Inr None, w)),
     ImageGet = mock_ImageGet,
     ImageFamilyGet = mock_ImageFamilyGet,
     InstanceGroupsListInstances = mock_InstanceGroupsListInstances,
     InstanceGroupsAddInstances = mock_InstanceGroupsAddInstances,
     InstanceGroupsRemoveInstances = mock_InstanceGroupsRemoveInstances,
     InstanceGroupInsert = mock_InstanceGroupInsert,
     InstanceGroupGet = mock_InstanceGroupGet,
     AddInstanceGroupToBackendService = mock_AddInstanceGroupToBackendService,
     BackendServiceGet = mock_BackendServiceGet\<rparr>"

text \<open>\<open>NewComputeServiceMock\<close>: the captured instance is the outside world.\<close>

definition NewComputeServiceMock :: "Instance GCPComputeServiceMock" where
  "NewComputeServiceMock = \<lparr>
     MockGPUCompatibleMachineTypesList = None,
     MockInstancesInsert = Some (\<lambda>project zone inst w. (Inr (Some opDone), inst)),
     MockMachineTypesGet = None,
     MockRegionGet = None,
     mockZoneOperationsGet = Some (\<lambda>project zone op w. (Inr (Some opDone), w)),
     mockInstancesGet = None\<rparr>"

definition MockBuilderFuncType :: "string \<Rightarrow> error + Instance GCPComputeService" where
  "MockBuilderFuncType serviceAccountJSON = Inr (mockService NewComputeServiceMock)"

definition MockBuilderFuncTypeNotFound :: "string \<Rightarrow> error + Instance GCPComputeService" where
  "MockBuilderFuncTypeNotFound serviceAccountJSON =
     Inr (mockService (NewComputeServiceMock\<lparr>
       mockInstancesGet := Some (\<lambda>project zone inst w. (Inl (GoogleError 404 '''' '''' '''' [] None), w))\<rparr>))"

definition mock_GetNamespacedName ::
    "(string \<Rightarrow> ('w, TagValue ptr) extcall) ptr \<Rightarrow> string \<Rightarrow> ('w, TagValue ptr) extcall" where
  "mock_GetNamespacedName m name = (\<lambda>w. case m of None \<Rightarrow> (Inr None, w) | Some f \<Rightarrow> f name w)"

definition NewMockTagService :: "'w TagService" where
  "NewMockTagService = \<lparr>GetNamespacedName = mock_GetNamespacedName None\<rparr>"

definition NewMockTagServiceBuilder :: "string \<Rightarrow> error + 'w TagService" where
  "NewMockTagServiceBuilder serviceAccountJSON = Inr NewMockTagService"

section \<open>Listing the GPU machine types\<close>

text \<open>The last listed type of a name that passes a filter.\<close>

definition lastNamed :: "MachineType list \<Rightarrow> string \<Rightarrow> MachineType option" where
  "lastNamed ts n = (case filter (\<lambda>t. mt_Name t = n) ts of [] \<Rightarrow> None | us \<Rightarrow> Some (last us))"

definition gpuInfoOf :: "MachineType \<Rightarrow> GpuInfo" where
  "gpuInfoOf t = \<lparr>gi_Count = GuestAcceleratorCount (hd (Accelerators t)),
                  gi_Type = GuestAcceleratorType (hd (Accelerators t))\<rparr>"

definition gpuTypesListed :: "MachineType list \<Rightarrow> bool" where
  "gpuTypesListed ts = list_all (\<lambda>t. gpuFamilyPrefix (mt_Name t) \<longrightarrow> Accelerators t \<noteq> []) ts"

lemma lastNamed_snoc:
  "lastNamed (ts @ [t]) n = (if mt_Name t = n then Some t else lastNamed ts n)"
  by (auto simp: lastNamed_def split: list.splits) (metis last_ConsR last_snoc)+

lemma collect_step:
  "gpuFamilyPrefix (mt_Name t) \<Longrightarrow> Accelerators t = a # as \<Longrightarrow>
   collectMachineType (m, ns) t s = (Ok (fmupd (mt_Name t) (gpuInfoOf t) m, ns), s)"
  "\<not> gpuFamilyPrefix (mt_Name t) \<Longrightarrow>
   collectMachineType (m, ns) t s = (Ok (m, ns @ filter (\<lambda>n. HasPrefix n ''n1'') [mt_Name t]), s)"
  by (simp_all add: collectMachineType_def run_basic gpuInfoOf_def)

lemma collect_result:
  assumes "gpuTypesListed ts"
  shows "\<exists>m. foldG collectMachineType (fmempty, []) ts s =
             (Ok (m, filter (\<lambda>n. \<not> gpuFamilyPrefix n \<and> HasPrefix n ''n1'') (map mt_Name ts)), s) \<and>
             (\<forall>n. fmlookup m n =
                  (if gpuFamilyPrefix n then map_option gpuInfoOf (lastNamed ts n) else None))"
  using assms
proof (induction ts rule: rev_induct)
  case Nil
  then show ?case by (simp add: go_simps lastNamed_def)
next
  case (snoc t ts)
  then have "gpuTypesListed ts" by (simp add: gpuTypesListed_def)
  with snoc.IH obtain m where m:
    "foldG collectMachineType (fmempty, []) ts s =
       (Ok (m, filter (\<lambda>n. \<not> gpuFamilyPrefix n \<and> HasPrefix n ''n1'') (map mt_Name ts)), s)"
    "\<And>n. fmlookup m n = (if gpuFamilyPrefix n then map_option gpuInfoOf (lastNamed ts n) else None)"
    by blast
  show ?case
  proof (cases "gpuFamilyPrefix (mt_Name t)")
    case True
    with snoc.prems obtain a as where "Accelerators t = a # as"
      by (auto simp: gpuTypesListed_def neq_Nil_conv)
    with True m show ?thesis
      by (auto simp: foldG_snoc seq_run collect_step lastNamed_snoc)
  next
    case False
    with m show ?thesis
      by (auto simp: foldG_snoc seq_run collect_step lastNamed_snoc)
  qed
qed

text \<open>
  What the reconciler relies on when it looks a machine type up in the two collections: the
  map holds A2 and A3 names only, the slice N1 names only.
\<close>

locale gpu_catalog =
  fixes types :: "string \<Rightarrow> string \<Rightarrow> ('w, (string, GpuInfo) fmap \<times> string list) go"
  assumes n1_names: "types p z w = (Ok (m, ns), w') \<Longrightarrow> n \<in> set ns \<Longrightarrow> HasPrefix n ''n1''"
    and gpu_names: "types p z w = (Ok (m, ns), w') \<Longrightarrow> fmlookup m n = Some g \<Longrightarrow> gpuFamilyPrefix n"
begin

lemma n1_not_gpu:
  assumes "types p z w = (Ok (m, ns), w')" and "n \<in> set ns"
  shows "\<not> HasPrefix n ''a2-'' \<and> \<not> HasPrefix n ''a3-''"
  using n1_names [OF assms] by (auto simp: HasPrefix_def prefix_def)

lemma gpu_not_n1:
  assumes "types p z w = (Ok (m, ns), w')" and "fmlookup m n = Some g"
  shows "n \<notin> set ns"
  using gpu_names [OF assms] n1_names [OF assms(1)] by (auto simp: gpuFamilyPrefix_def HasPrefix_def prefix_def)

end

lemma collect_names:
  assumes "foldG collectMachineType (m0, ns0) ts s = (Ok (m, ns), s')"
    and "\<forall>n \<in> set ns0. HasPrefix n ''n1''" and "\<forall>n g. fmlookup m0 n = Some g \<longrightarrow> gpuFamilyPrefix n"
  shows "(\<forall>n \<in> set ns. HasPrefix n ''n1'') \<and> (\<forall>n g. fmlookup m n = Some g \<longrightarrow> gpuFamilyPrefix n)"
  using assms
proof (induction ts arbitrary: m0 ns0)
  case Nil
  then show ?case by (simp add: run_basic)
next
  case (Cons t ts)
  from Cons.prems(1) obtain m1 ns1 s1 where
    step: "collectMachineType (m0, ns0) t s = (Ok (m1, ns1), s1)" and
    rest: "foldG collectMachineType (m1, ns1) ts s1 = (Ok (m, ns), s')"
    by (auto simp: seq_Ok_iff)
  from step have "s1 = s \<and> (\<forall>n \<in> set ns1. HasPrefix n ''n1'') \<and> (\<forall>n g. fmlookup m1 n = Some g \<longrightarrow> gpuFamilyPrefix n)"
    using Cons.prems(2,3)
    by (cases "Accelerators t") (auto simp: collectMachineType_def run_basic split: if_splits)
  with rest Cons.IH show ?case by blast
qed

interpretation catalog: gpu_catalog "computeService_GPUCompatibleMachineTypesList c"
proof -
  have "(\<forall>n \<in> set ns. HasPrefix n ''n1'') \<and> (\<forall>n g. fmlookup m n = Some g \<longrightarrow> gpuFamilyPrefix n)"
    if "computeService_GPUCompatibleMachineTypesList c p z w = (Ok (m, ns), w')" for p z w m ns w'
    using that
    by (auto simp: computeService_GPUCompatibleMachineTypesList_def seq_Ok_iff run_basic
        split: prod.splits option.splits dest!: collect_names)
  then show "gpu_catalog (computeService_GPUCompatibleMachineTypesList c)"
    by unfold_locales blast+
qed

text \<open>
  \<open>GPUCompatibleMachineTypesList\<close> over the pages a successful listing delivers, when every
  listed A2 or A3 type declares an accelerator: the call returns, the map holds exactly the
  names that start with a2 or a3, each with count and type of the first accelerator of the
  last listed type of that name, and the slice holds the names that start with n1 in the
  order listed.
\<close>

theorem GPUCompatibleMachineTypesList_spec:
  assumes "api_MachineTypesPages c project zone w = ((pages, None), w')"
    and "gpuTypesListed (concat pages)"
  shows "\<exists>m. computeService_GPUCompatibleMachineTypesList c project zone w =
             (Ok (m, filter (\<lambda>n. \<not> gpuFamilyPrefix n \<and> HasPrefix n ''n1'') (map mt_Name (concat pages))), w')
           \<and> (\<forall>n. fmlookup m n =
                 (if gpuFamilyPrefix n then map_option gpuInfoOf (lastNamed (concat pages) n) else None))"
  using collect_result [OF assms(2), of w'] assms(1)
  by (auto simp: computeService_GPUCompatibleMachineTypesList_def seq_run run_basic)

end
