(* ===== verification/Reconciler_Checks.thy ===== *)
theory Reconciler_Checks
  imports Machine_Scope Compute_Service
begin

text \<open>
  The checks of \<open>machine/reconciler.go\<close>: provisioning model and restart policy, the
  validation of a machine, the accelerator and quota checks, the user data and the disk
  encryption key.
\<close>

section \<open>Definitions\<close>

definition GCPSpotInstance :: string where
  "GCPSpotInstance = ''Spot''"

definition supportedGpuTypes :: "string \<Rightarrow> string option" where
  "supportedGpuTypes =
     [''nvidia-tesla-k80'' \<mapsto> ''NVIDIA_K80_GPUS'',
      ''nvidia-tesla-p100'' \<mapsto> ''NVIDIA_P100_GPUS'',
      ''nvidia-tesla-v100'' \<mapsto> ''NVIDIA_V100_GPUS'',
      ''nvidia-tesla-a100'' \<mapsto> ''NVIDIA_A100_GPUS'',
      ''nvidia-tesla-p4'' \<mapsto> ''NVIDIA_P4_GPUS'',
      ''nvidia-tesla-t4'' \<mapsto> ''NVIDIA_T4_GPUS'',
      ''nvidia-a100-80gb'' \<mapsto> ''NVIDIA_A100_80GB_GPUS'',
      ''nvidia-h100-mega-80gb'' \<mapsto> ''NVIDIA_H100_GPUS'',
      ''nvidia-h100-80gb'' \<mapsto> ''NVIDIA_H100_GPUS'']"

fun containsString :: "string list \<Rightarrow> string \<Rightarrow> bool" where
  "containsString [] str = False"
| "containsString (elem # sli) str = (if elem = str then True else containsString sli str)"

definition toComputeProvisioningModel :: "string ptr \<Rightarrow> error + string" where
  "toComputeProvisioningModel model =
     (let modelValue = (case model of None \<Rightarrow> '''' | Some v \<Rightarrow> v) in
      if modelValue = '''' then Inr ''''
      else if modelValue = GCPSpotInstance then Inr ''SPOT''
      else Inl (PlainError (''unsupported provisioning model value '' @ modelValue)))"

definition restartPolicyToBool :: "string \<Rightarrow> bool \<Rightarrow> string ptr \<Rightarrow> error + bool ptr" where
  "restartPolicyToBool policy preemptible provisioningModel =
     (if policy = '''' then Inr None
      else if policy = ''Always'' then
        (if preemptible \<or> provisioningModel = Some GCPSpotInstance
         then Inl (PlainError ''preemptible/spot instances cannot be automatically restarted'')
         else Inr (Some True))
      else if policy = ''Never'' then Inr (Some False)
      else Inl (PlainError (''unrecognized restart policy: '' @ policy)))"

text \<open>The conversion \<open>int32(x)\<close> of a float: truncation towards zero, where it fits.\<close>

definition truncateFloat :: "rat \<Rightarrow> int" where
  "truncateFloat x = (if 0 \<le> x then \<lfloor>x\<rfloor> else \<lceil>x\<rceil>)"

definition int32OfFloat :: "golib \<Rightarrow> rat \<Rightarrow> int32" where
  "int32OfFloat lib x =
     (let i = truncateFloat x in
      if - (2 ^ 31) \<le> i \<and> i < 2 ^ 31 then word_of_int i else int32OfFloatOutOfRange lib x)"

text \<open>\<open>int32(q.Usage)+accelerator.Count > int32(q.Limit)\<close>, in 32-bit arithmetic.\<close>

definition quotaExceeded :: "golib \<Rightarrow> Quota \<Rightarrow> int32 \<Rightarrow> bool" where
  "quotaExceeded lib q count = (sint (int32OfFloat lib (Usage q) + count) > sint (int32OfFloat lib (Limit q)))"

definition isSpot :: "GCPMachineProviderSpec \<Rightarrow> bool" where
  "isSpot spec = (ProvisioningModel spec = Some GCPSpotInstance)"

text \<open>The loop over the quotas stops at the first quota of the metric.\<close>

fun quotaLoop :: "golib \<Rightarrow> string \<Rightarrow> int32 \<Rightarrow> Quota list \<Rightarrow> error option" where
  "quotaLoop lib metric count [] = None"
| "quotaLoop lib metric count (q # quotas) =
     (if Metric q = metric
      then (if quotaExceeded lib q count
            then Some (InvalidMachineConfiguration
              (''Quota exceeded. Metric: '' @ metric @ ''. Usage: '' @ showFloat lib (Usage q) @ ''. Limit: ''
               @ showFloat lib (Limit q) @ ''.''))
            else None)
      else quotaLoop lib metric count quotas)"

definition checkQuota :: "golib \<Rightarrow> GCPGPUConfig list \<Rightarrow> ('w, unit) rec" where
  "checkQuota lib guestAccelerators =
     seq (getScope (\<lambda>r. r)) (\<lambda>r.
     let spec = providerSpec r in
     seq (onErr (\<lambda>err. InvalidMachineConfiguration
                  (''Failed to get region '' @ Region spec @ '' via compute service: '' @ Error err))
            (onSnd (invoke (CallRegionGet (projectID r) (Region spec))
                      (RegionGet (computeSvc r) (projectID r) (Region spec))))) (\<lambda>regionPtr.
     seq (deref regionPtr) (\<lambda>region.
     seq (firstElem guestAccelerators) (\<lambda>accelerator.
     seq (onErr (\<lambda>err. InvalidMachineConfiguration
                  (''AcceleratorType '' @ gpu_Type accelerator @ '' not available in the zone '' @ Zone spec
                   @ '' : '' @ Error err))
            (onSnd (invoke (CallAcceleratorTypeGet (projectID r) (Zone spec) (gpu_Type accelerator))
                      (AcceleratorTypeGet (computeSvc r) (projectID r) (Zone spec) (gpu_Type accelerator))))) (\<lambda>_.
     case supportedGpuTypes (gpu_Type accelerator) of
       None \<Rightarrow> raise (InvalidMachineConfiguration (''Unsupported accelerator type '' @ gpu_Type accelerator))
     | Some gpuMetric \<Rightarrow>
         let metric = (if Preemptible spec \<or> isSpot spec then ''PREEMPTIBLE_'' @ gpuMetric else gpuMetric) in
         (case quotaLoop lib metric (gpu_Count accelerator) (Quotas region) of
            Some err \<Rightarrow> raise err
          | None \<Rightarrow> ret ()))))))"

definition noAcceleratorCheck :: "GCPMachineProviderSpec \<Rightarrow> bool" where
  "noAcceleratorCheck spec \<longleftrightarrow>
     GPUs spec = [] \<and> \<not> HasPrefix (ps_MachineType spec) ''a2-'' \<and> \<not> HasPrefix (ps_MachineType spec) ''a3-''
     \<or> HasPrefix (ps_MachineType spec) ''a3-ultragpu-''"

definition validateGuestAccelerators :: "golib \<Rightarrow> ('w, unit) rec" where
  "validateGuestAccelerators lib =
     seq (getScope (\<lambda>r. r)) (\<lambda>r.
     let spec = providerSpec r; mt = ps_MachineType spec in
     if noAcceleratorCheck spec then ret ()
     else if GPUs spec \<noteq> [] \<and> (HasPrefix mt ''a2-'' \<or> HasPrefix mt ''a3-'')
     then raise (InvalidMachineConfiguration
       ''A2 and A3 Machine types have pre-attached guest accelerators. Adding additional guest accelerators is not supported'')
     else if \<not> HasPrefix mt ''n1-'' \<and> \<not> HasPrefix mt ''a2-'' \<and> \<not> HasPrefix mt ''a3-''
     then raise (InvalidMachineConfiguration
       (''MachineType '' @ mt @ '' does not support accelerators. Only A2, A3 and N1 machine type families support guest accelerators.''))
     else
       seq (onSnd (invokeGo (CallGPUCompatibleMachineTypesList (ps_ProjectID spec) (Zone spec))
                     (GPUCompatibleMachineTypesList (computeSvc r) (ps_ProjectID spec) (Zone spec))))
         (\<lambda>(a2or3MachineFamily, n1MachineFamily).
            case fmlookup a2or3MachineFamily mt of
              Some gpuInfo \<Rightarrow> checkQuota lib [\<lparr>gpu_Count = ucast (gi_Count gpuInfo), gpu_Type = gi_Type gpuInfo\<rparr>]
            | None \<Rightarrow>
                if containsString n1MachineFamily mt then checkQuota lib (GPUs spec)
                else raise (InvalidMachineConfiguration
                  (''MachineType '' @ mt @ '' is not available in the zone '' @ Zone spec @ ''.''))))"

definition userDataSecretKey :: string where
  "userDataSecretKey = ''userData''"

definition getCustomUserData :: "('w, string) rec" where
  "getCustomUserData =
     seq (getScope (\<lambda>r. r)) (\<lambda>r.
     case UserDataSecret (providerSpec r) of
       None \<Rightarrow> ret ''''
     | Some name \<Rightarrow>
         let namespace = m_Namespace (machine r) in
         seq (onErr (\<lambda>err.
                if IsNotFound err
                then InvalidMachineConfiguration (''user data secret '' @ Quote name @ '' in namespace ''
                       @ Quote namespace @ '' not found: '' @ Error err)
                else errorfV (''error getting user data secret '' @ Quote name @ '' in namespace ''
                       @ Quote namespace @ '': '') err)
                (onSnd (invoke (CallGetSecret namespace name) (GetSecret (coreClient r) namespace name))))
           (\<lambda>userDataSecret.
              case fmlookup userDataSecret userDataSecretKey of
                None \<Rightarrow> raise (InvalidMachineConfiguration
                  (''secret '' @ namespace @ ''/'' @ name @ '' does not have '' @ Quote userDataSecretKey
                   @ '' field set. Thus, no user data applied when creating an instance''))
              | Some data \<Rightarrow> ret data))"

definition MachineClusterIDLabel :: string where
  "MachineClusterIDLabel = ''machine.openshift.io/cluster-api-cluster''"

definition validateMachine :: "Machine \<Rightarrow> GCPMachineProviderSpec \<Rightarrow> error option" where
  "validateMachine mach spec =
     (if list_ex (\<lambda>pool. pool = '''') (TargetPools spec)
      then Some (InvalidMachineConfiguration ''all target pools must have valid name'')
      else if mapIndex (m_Labels mach) MachineClusterIDLabel = ''''
      then Some (InvalidMachineConfiguration (''machine is missing '' @ Quote MachineClusterIDLabel @ '' label''))
      else if ProvisioningModel spec \<noteq> None \<and> ProvisioningModel spec \<noteq> Some GCPSpotInstance
      then Some (InvalidMachineConfiguration
        (''Unsupported provisioning model '' @ Quote (the (ProvisioningModel spec)) @ '', Valid value is ''
         @ Quote GCPSpotInstance @ ''. Omit provisioningModel for standard.''))
      else if Preemptible spec \<and> ProvisioningModel spec \<noteq> None \<and> ProvisioningModel spec = Some GCPSpotInstance
      then Some (InvalidMachineConfiguration
        (''preemptible cannot be used together with '' @ sq @ ''Spot'' @ sq @ '' provisioning model''))
      else None)"

text \<open>The guard that \<open>create\<close> and \<open>update\<close> start with.\<close>

definition validateOrFail :: "('w, unit) rec" where
  "validateOrFail =
     seq (getScope (\<lambda>r. validateMachine (machine r) (providerSpec r))) (\<lambda>v.
     case v of
       None \<Rightarrow> ret ()
     | Some err \<Rightarrow> raise (InvalidMachineConfiguration (''failed validating machine provider spec: '' @ Error err)))"

definition generateDiskEncryptionKey :: "GCPEncryptionKeyReference ptr \<Rightarrow> string \<Rightarrow> CustomerEncryptionKey ptr" where
  "generateDiskEncryptionKey keyRef project =
     (case keyRef of None \<Rightarrow> None
      | Some ref \<Rightarrow> (case KMSKey ref of None \<Rightarrow> None
          | Some key \<Rightarrow>
              let pid = (if kms_ProjectID key \<noteq> '''' then kms_ProjectID key else project) in
              Some \<lparr>KmsKeyName = ''projects/'' @ pid @ ''/locations/'' @ kms_Location key @ ''/keyRings/''
                                 @ kms_KeyRing key @ ''/cryptoKeys/'' @ kms_Name key,
                    KmsKeyServiceAccount = KMSKeyServiceAccount ref\<rparr>))"

section \<open>Validation\<close>

lemma validateMachine_invalid:
  "validateMachine m spec = Some e \<Longrightarrow> isInvalidMachineConfigurationError (Some e)"
  by (auto simp: validateMachine_def split: if_splits)

text \<open>
  \<open>validateMachine\<close> accepts a machine exactly when no target pool has an empty name, the
  machine carries a cluster id, the provisioning model is absent or \<open>Spot\<close>, and a spot
  machine is not preemptible as well; it rejects with an invalid-configuration error.  For
  an accepted machine the conversion of the provisioning model cannot fail.
\<close>

theorem validateMachine_spec:
  "(validateMachine m spec = None \<longleftrightarrow>
      '''' \<notin> set (TargetPools spec) \<and> mapIndex (m_Labels m) MachineClusterIDLabel \<noteq> '''' \<and>
      ProvisioningModel spec \<in> {None, Some ''Spot''} \<and>
      \<not> (Preemptible spec \<and> ProvisioningModel spec = Some ''Spot'')) \<and>
   (\<forall>e. validateMachine m spec = Some e \<longrightarrow> isInvalidMachineConfigurationError (Some e)) \<and>
   (validateMachine m spec = None \<longrightarrow>
      toComputeProvisioningModel (ProvisioningModel spec) = Inr (if isSpot spec then ''SPOT'' else ''''))"
  by (auto simp: validateMachine_def list_ex_iff GCPSpotInstance_def toComputeProvisioningModel_def isSpot_def
      split: if_splits)

section \<open>Quota\<close>

lemma sint_int32OfFloat:
  assumes "- (2 ^ 31) \<le> truncateFloat x" and "truncateFloat x < 2 ^ 31"
  shows "sint (int32OfFloat lib x) = truncateFloat x"
  using assms by (simp add: int32OfFloat_def Let_def sint_sbintrunc' signed_take_bit_int_eq_self)

lemma sint_plus_exact:
  fixes a b :: int32
  assumes "- (2 ^ 31) \<le> sint a + sint b" and "sint a + sint b < 2 ^ 31"
  shows "sint (a + b) = sint a + sint b"
  using assms by (simp add: sint_word_ariths(1) signed_take_bit_int_eq_self)

text \<open>
  C39. The quota test is the test in exact arithmetic whenever no value leaves the range of
  \<open>int32\<close>: if the truncated usage, the truncated limit and the sum of usage and count all
  fit, the quota counts as exceeded exactly when truncated usage plus count is greater
  than the truncated limit.
\<close>

theorem quotaExceeded_exact:
  assumes "- (2 ^ 31) \<le> truncateFloat (Usage q)" and "truncateFloat (Usage q) < 2 ^ 31"
    and "- (2 ^ 31) \<le> truncateFloat (Limit q)" and "truncateFloat (Limit q) < 2 ^ 31"
    and "- (2 ^ 31) \<le> truncateFloat (Usage q) + sint count" and "truncateFloat (Usage q) + sint count < 2 ^ 31"
  shows "quotaExceeded lib q count \<longleftrightarrow> truncateFloat (Usage q) + sint count > truncateFloat (Limit q)"
  using assms by (simp add: quotaExceeded_def sint_plus_exact sint_int32OfFloat)

theorem quotaExceeded_exact_witness:
  "\<forall>lib. quotaExceeded lib \<lparr>Metric = ''NVIDIA_T4_GPUS'', Usage = 3, Limit = 4\<rparr> 2 \<and>
   \<not> quotaExceeded lib \<lparr>Metric = ''NVIDIA_T4_GPUS'', Usage = 3, Limit = 4\<rparr> 1"
  using quotaExceeded_exact [of "\<lparr>Metric = ''NVIDIA_T4_GPUS'', Usage = 3, Limit = 4\<rparr>" 2]
    quotaExceeded_exact [of "\<lparr>Metric = ''NVIDIA_T4_GPUS'', Usage = 3, Limit = 4\<rparr>" 1]
  by (simp add: truncateFloat_def)

text \<open>
  At the edge of the range the sum wraps around: with usage and limit both at the
  largest \<open>int32\<close> every request passes the quota test, although a request for one more
  accelerator exceeds the quota.
\<close>

theorem quotaExceeded_wraps:
  assumes "Usage q = 2147483647" and "Limit q = 2147483647"
  shows "\<not> quotaExceeded lib q count"
proof -
  have "sint (int32OfFloat lib 2147483647) = 2147483647"
    using sint_int32OfFloat [of 2147483647 lib] by (simp add: truncateFloat_def)
  moreover have "sint (x :: int32) \<le> 2147483647" for x
    using sint_lt [of x] by simp
  ultimately show ?thesis using assms by (simp add: quotaExceeded_def not_less)
qed

theorem quotaExceeded_wraps_witness:
  "\<forall>lib. \<not> quotaExceeded lib \<lparr>Metric = ''NVIDIA_T4_GPUS'', Usage = 2147483647, Limit = 2147483647\<rparr> 1"
  using quotaExceeded_wraps [of "\<lparr>Metric = ''NVIDIA_T4_GPUS'', Usage = 2147483647, Limit = 2147483647\<rparr>"] by simp

section \<open>Accelerators\<close>

lemma containsString_iff: "containsString xs x \<longleftrightarrow> x \<in> set xs"
  by (induction xs) auto

context scope_frame
begin

lemma obeys_checkQuota [obeys_intros]:
  "(\<And>p x. P (CallRegionGet p x)) \<Longrightarrow> (\<And>p z a. P (CallAcceleratorTypeGet p z a)) \<Longrightarrow>
   obeys (onScope K R) (checkQuota lib gs)"
  by (simp add: checkQuota_def Let_def) (intro obeys_intros; simp)

lemma obeys_validateGuestAccelerators [obeys_intros]:
  "(\<And>p x. P (CallRegionGet p x)) \<Longrightarrow> (\<And>p z a. P (CallAcceleratorTypeGet p z a)) \<Longrightarrow>
   (\<And>p z. P (CallGPUCompatibleMachineTypesList p z)) \<Longrightarrow>
   obeys (onScope K R) (validateGuestAccelerators lib)"
  by (simp add: validateGuestAccelerators_def Let_def) (intro obeys_intros; simp)

lemma obeys_getCustomUserData [obeys_intros]:
  "(\<And>n s. P (CallGetSecret n s)) \<Longrightarrow> obeys (onScope K R) getCustomUserData"
  unfolding getCustomUserData_def Let_def by (intro obeys_intros; simp)

lemma obeys_validateOrFail [obeys_intros, simp]: "obeys (onScope K R) validateOrFail"
  unfolding validateOrFail_def by (intro obeys_intros; simp)

end

lemma checkQuota_crash:
  assumes "checkQuota lib gs st = (Crash c, st')" and "gs \<noteq> []"
  shows "c = NilDereference"
  using assms
  by (cases st; cases gs)
    (auto simp: checkQuota_def Let_def go_simps deref_def
      split: prod.splits sum.splits option.splits outcome.splits if_splits)

text \<open>
  With the real compute service behind it, \<open>validateGuestAccelerators\<close> never indexes an
  empty accelerator list: if it panics, either listing the machine types panicked or a
  service returned a nil region without an error.  (The N1 branch, which indexes the GPUs
  of the spec, cannot be reached with an empty list, because the catalogue's N1 names are
  disjoint from the A2 and A3 names.)
\<close>

theorem validateGuestAccelerators_no_index_panic:
  assumes "computeSvc s = computeService api"
    and "validateGuestAccelerators lib (s, w) = (Crash c, st)"
  shows "c = NilDereference \<or>
    fst (computeService_GPUCompatibleMachineTypesList api (ps_ProjectID (providerSpec s)) (Zone (providerSpec s)) (ext w)) = Crash c"
proof -
  let ?spec = "providerSpec s"
  obtain r e where l: "computeService_GPUCompatibleMachineTypesList api (ps_ProjectID ?spec) (Zone ?spec) (ext w) = (r, e)"
    by force
  have g: "GPUCompatibleMachineTypesList (computeSvc s) = computeService_GPUCompatibleMachineTypesList api"
    using assms(1) by (simp add: computeService_def)
  show ?thesis
  proof (cases r)
    case (Ok mn)
    obtain m ns where mn: "mn = (m, ns)" by force
    have n1: "GPUs ?spec \<noteq> []" if "ps_MachineType ?spec \<in> set ns" "\<not> noAcceleratorCheck ?spec"
      using that catalog.n1_not_gpu [OF l [unfolded Ok mn]] by (auto simp: noAcceleratorCheck_def)
    have "c = NilDereference"
      using assms(2) n1 l Ok mn
      by (auto simp: validateGuestAccelerators_def Let_def go_simps g containsString_iff
          split: if_splits option.splits dest: checkQuota_crash)
    then show ?thesis ..
  next
    case (Err err)
    with assms(2) l show ?thesis
      by (auto simp: validateGuestAccelerators_def Let_def go_simps g split: if_splits)
  next
    case (Crash x)
    with assms(2) l show ?thesis
      by (auto simp: validateGuestAccelerators_def Let_def go_simps g split: if_splits)
  qed
qed

text \<open>
  A machine type that starts with \<open>a3-ultragpu-\<close> passes \<open>validateGuestAccelerators\<close> at
  once and without any request, whatever GPUs the provider spec adds; every other A2 or A3
  type with GPUs added is rejected, as an invalid configuration and without any request.
\<close>

theorem validateGuestAccelerators_added_gpus:
  assumes "GPUs (providerSpec s) \<noteq> []"
    and "HasPrefix (ps_MachineType (providerSpec s)) ''a2-'' \<or> HasPrefix (ps_MachineType (providerSpec s)) ''a3-''"
  shows "validateGuestAccelerators lib (s, w) =
    (if HasPrefix (ps_MachineType (providerSpec s)) ''a3-ultragpu-'' then Ok ()
     else Err (InvalidMachineConfiguration
       ''A2 and A3 Machine types have pre-attached guest accelerators. Adding additional guest accelerators is not supported''),
     (s, w))"
  using assms by (auto simp: validateGuestAccelerators_def Let_def go_simps noAcceleratorCheck_def)

end
