(* ===== verification/Conditions.thy ===== *)
theory Conditions
  imports World
begin

text \<open>
  \<open>machine/conditions.go\<close>: the conditions of a machine's provider status, and the contract
  that this code shares with the node conditions of the termination handler, stated as the
  interface \<open>condition_updater\<close>.
\<close>

section \<open>The contract of a condition update\<close>

text \<open>
  An update at a time \<open>t\<close> settles the condition of one type, leaves the conditions of other
  types alone and in order, and does nothing to a list that is settled already, whatever
  the time.
\<close>

locale condition_updater =
  fixes upd :: "nat \<Rightarrow> 'c list \<Rightarrow> 'c list"
    and settled :: "'c list \<Rightarrow> bool"
    and ctype :: "'c \<Rightarrow> string"
    and key :: string
  assumes settles: "settled (upd t cs)"
    and keeps: "settled cs \<Longrightarrow> upd t cs = cs"
    and others: "filter (\<lambda>c. ctype c \<noteq> key) (upd t cs) = filter (\<lambda>c. ctype c \<noteq> key) cs"
begin

lemma update_again: "upd t' (upd t cs) = upd t cs"
  by (rule keeps) (rule settles)

lemma updates_later: "fold upd ts (upd t cs) = upd t cs"
  by (induction ts) (simp_all add: update_again)

lemma other_member: "ctype c \<noteq> key \<Longrightarrow> c \<in> set (upd t cs) \<longleftrightarrow> c \<in> set cs"
  using arg_cong [OF others [of t cs], of set] by auto

end

section \<open>Definitions\<close>

definition shouldUpdateCondition :: "Condition \<Rightarrow> Condition \<Rightarrow> bool" where
  "shouldUpdateCondition oldCondition newCondition \<longleftrightarrow>
     co_Status oldCondition \<noteq> co_Status newCondition \<or>
     co_Reason oldCondition \<noteq> co_Reason newCondition \<or>
     co_Message oldCondition \<noteq> co_Message newCondition"

text \<open>\<open>findCondition\<close> returns a pointer into the slice: the index of the first match.\<close>

fun findCondition :: "Condition list \<Rightarrow> string \<Rightarrow> nat ptr" where
  "findCondition [] conditionType = None"
| "findCondition (c # cs) conditionType =
     (if co_Type c = conditionType then Some 0 else map_option Suc (findCondition cs conditionType))"

definition reconcileConditions :: "nat \<Rightarrow> Condition list \<Rightarrow> Condition \<Rightarrow> Condition list" where
  "reconcileConditions now conditions newCondition =
     (case findCondition conditions (co_Type newCondition) of
        None \<Rightarrow> conditions @ [\<lparr>co_Type = co_Type newCondition, co_Status = co_Status newCondition,
                 co_ObservedGeneration = 0, co_LastTransitionTime = now,
                 co_Reason = co_Reason newCondition, co_Message = co_Message newCondition\<rparr>]
      | Some i \<Rightarrow>
          let currentCondition = conditions ! i in
          if shouldUpdateCondition currentCondition newCondition
          then let cur = (if co_Status currentCondition \<noteq> co_Status newCondition
                          then currentCondition\<lparr>co_LastTransitionTime := now\<rparr> else currentCondition)
               in conditions[i := cur\<lparr>co_Status := co_Status newCondition,
                    co_Reason := co_Reason newCondition, co_Message := co_Message newCondition\<rparr>]
          else conditions)"

section \<open>Lemmas\<close>

lemma findCondition_None_iff: "findCondition cs k = None \<longleftrightarrow> k \<notin> co_Type ` set cs"
  by (induction cs) auto

lemma findCondition_Some:
  "findCondition cs k = Some i \<Longrightarrow>
   i < length cs \<and> co_Type (cs ! i) = k \<and> (\<forall>j < i. co_Type (cs ! j) \<noteq> k)"
proof (induction cs arbitrary: i)
  case (Cons c cs)
  then show ?case
    by (cases i) (auto split: if_splits simp: less_Suc_eq_0_disj)
qed simp

lemma findCondition_append_new:
  "findCondition cs k = None \<Longrightarrow> co_Type c = k \<Longrightarrow> findCondition (cs @ [c]) k = Some (length cs)"
  by (induction cs) (auto split: if_splits)

lemma findCondition_update:
  "co_Type c = co_Type (cs ! i) \<Longrightarrow> findCondition (cs[i := c]) k = findCondition cs k"
proof (induction cs arbitrary: i)
  case (Cons a cs)
  then show ?case by (cases i) auto
qed simp

lemma filter_update_same:
  "\<not> P c \<Longrightarrow> i < length cs \<Longrightarrow> \<not> P (cs ! i) \<Longrightarrow> filter P (cs[i := c]) = filter P cs"
proof (induction cs arbitrary: i)
  case (Cons a cs)
  then show ?case by (cases i) auto
qed simp

text \<open>A list is settled for a condition: the first condition of the type says the same.\<close>

definition saysCondition :: "Condition \<Rightarrow> Condition list \<Rightarrow> bool" where
  "saysCondition new cs =
     (case findCondition cs (co_Type new) of None \<Rightarrow> False
      | Some i \<Rightarrow> \<not> shouldUpdateCondition (cs ! i) new)"

lemma reconcileConditions_settles: "saysCondition new (reconcileConditions now cs new)"
  by (auto simp: saysCondition_def reconcileConditions_def Let_def shouldUpdateCondition_def
      findCondition_append_new findCondition_update nth_append
      dest: findCondition_Some split: option.splits)

lemma reconcileConditions_keeps: "saysCondition new cs \<Longrightarrow> reconcileConditions now cs new = cs"
  by (auto simp: saysCondition_def reconcileConditions_def split: option.splits)

lemma reconcileConditions_others:
  "filter (\<lambda>c. co_Type c \<noteq> co_Type new) (reconcileConditions now cs new) =
   filter (\<lambda>c. co_Type c \<noteq> co_Type new) cs"
  by (auto simp: reconcileConditions_def Let_def dest!: findCondition_Some
      intro!: filter_update_same split: option.splits)

interpretation machine_conditions:
  condition_updater "\<lambda>now cs. reconcileConditions now cs new" "saysCondition new" co_Type "co_Type new"
  by unfold_locales
    (simp_all add: reconcileConditions_settles reconcileConditions_keeps reconcileConditions_others)

section \<open>Properties\<close>

text \<open>The condition of a type, as its readers find it.\<close>

definition conditionOf :: "Condition list \<Rightarrow> string \<Rightarrow> Condition option" where
  "conditionOf cs k = map_option (\<lambda>i. cs ! i) (findCondition cs k)"

text \<open>
  C33. After \<open>reconcileConditions\<close> the condition of the requested type has the requested
  status, reason and message; its transition time is the old one exactly when the type was
  there with the same status and is the current time otherwise; the types of the slice
  stay distinct if they were, and its length grows by one exactly when the type is new.
\<close>

theorem reconcileConditions_spec:
  "(\<exists>c. conditionOf (reconcileConditions now cs new) (co_Type new) = Some c \<and>
        co_Status c = co_Status new \<and> co_Reason c = co_Reason new \<and> co_Message c = co_Message new \<and>
        co_LastTransitionTime c =
          (case conditionOf cs (co_Type new) of
             None \<Rightarrow> now
           | Some old \<Rightarrow> if co_Status old = co_Status new then co_LastTransitionTime old else now)) \<and>
   map co_Type (reconcileConditions now cs new) =
     map co_Type cs @ (if co_Type new \<in> set (map co_Type cs) then [] else [co_Type new])"
proof (cases "findCondition cs (co_Type new)")
  case None
  then show ?thesis
    using findCondition_None_iff [of cs "co_Type new"]
    by (auto simp: conditionOf_def reconcileConditions_def findCondition_append_new nth_append)
next
  case (Some i)
  note i = findCondition_Some [OF Some]
  have "map co_Type (cs[i := c]) = map co_Type cs" if "co_Type c = co_Type (cs ! i)" for c
    using that i by (simp add: map_update list_update_same_conv)
  moreover have "co_Type new \<in> co_Type ` set cs" using i by (metis image_eqI nth_mem)
  ultimately show ?thesis
    using Some i
    by (auto simp: conditionOf_def reconcileConditions_def Let_def findCondition_update
        shouldUpdateCondition_def)
qed

text \<open>
  Repeating a condition is a no-op at any later time: reconciling the same condition
  again, any number of times, changes neither the slice nor a transition time, so that a
  periodic resync does not make the machine status look changed.  Conditions of other
  types are never touched.
\<close>

theorem reconcileConditions_idempotent:
  "fold (\<lambda>now cs. reconcileConditions now cs new) later (reconcileConditions now cs new) =
     reconcileConditions now cs new \<and>
   filter (\<lambda>c. co_Type c \<noteq> co_Type new) (reconcileConditions now cs new) =
     filter (\<lambda>c. co_Type c \<noteq> co_Type new) cs"
  using machine_conditions.updates_later machine_conditions.others by blast

end
