(* ===== verification/Reconciler_State.thy ===== *)
theory Reconciler_State
  imports Reconciler_Checks Conditions
begin

text \<open>
  \<open>reconcileMachineWithCloudState\<close> and \<open>setMachineCloudProviderSpecifics\<close> of
  \<open>machine/reconciler.go\<close>: what the reconciler writes into a machine from the state of its
  cloud instance.
\<close>

section \<open>Definitions\<close>

definition requeueAfterSeconds :: nat where
  "requeueAfterSeconds = 20"

definition MachineRegionLabelName :: string where
  "MachineRegionLabelName = ''machine.openshift.io/region''"

definition MachineAZLabelName :: string where
  "MachineAZLabelName = ''machine.openshift.io/zone''"

definition MachineInstanceStateAnnotationName :: string where
  "MachineInstanceStateAnnotationName = ''machine.openshift.io/instance-state''"

definition MachineInstanceTypeLabelName :: string where
  "MachineInstanceTypeLabelName = ''machine.openshift.io/instance-type''"

definition MachineInterruptibleInstanceLabelName :: string where
  "MachineInterruptibleInstanceLabelName = ''machine.openshift.io/interruptible-instance''"

text \<open>Assigning to a map entry: a nil map panics; \<open>make\<close> where the code checks for nil.\<close>

definition mapAssign :: "gomap ptr \<Rightarrow> string \<Rightarrow> string \<Rightarrow> ('s, gomap ptr) go" where
  "mapAssign m k v = (case m of None \<Rightarrow> panic NilMapWrite | Some f \<Rightarrow> ret (Some (fmupd k v f)))"

definition ensureMap :: "gomap ptr \<Rightarrow> gomap ptr" where
  "ensureMap m = (case m of None \<Rightarrow> Some fmempty | Some f \<Rightarrow> Some f)"

definition updMachine :: "(Machine \<Rightarrow> Machine) \<Rightarrow> ('w, unit) rec" where
  "updMachine f = updScope (\<lambda>s. s\<lparr>machine := f (machine s)\<rparr>)"

definition setLabel :: "string \<Rightarrow> string \<Rightarrow> ('w, unit) rec" where
  "setLabel k v = seq (getScope (\<lambda>s. m_Labels (machine s))) (\<lambda>m.
     seq (mapAssign m k v) (\<lambda>m'. updMachine (\<lambda>x. x\<lparr>m_Labels := m'\<rparr>)))"

definition setAnnotation :: "string \<Rightarrow> string \<Rightarrow> ('w, unit) rec" where
  "setAnnotation k v = seq (getScope (\<lambda>s. m_Annotations (machine s))) (\<lambda>m.
     seq (mapAssign m k v) (\<lambda>m'. updMachine (\<lambda>x. x\<lparr>m_Annotations := m'\<rparr>)))"

definition setSpecLabel :: "string \<Rightarrow> string \<Rightarrow> ('w, unit) rec" where
  "setSpecLabel k v = seq (getScope (\<lambda>s. SpecLabels (machine s))) (\<lambda>m.
     seq (mapAssign m k v) (\<lambda>m'. updMachine (\<lambda>x. x\<lparr>SpecLabels := m'\<rparr>)))"

definition setMachineCloudProviderSpecifics :: "Instance \<Rightarrow> ('w, unit) rec" where
  "setMachineCloudProviderSpecifics inst =
     seq (updMachine (\<lambda>m. m\<lparr>m_Labels := ensureMap (m_Labels m)\<rparr>)) (\<lambda>_.
     seq (updMachine (\<lambda>m. m\<lparr>m_Annotations := ensureMap (m_Annotations m)\<rparr>)) (\<lambda>_.
     seq (getScope providerSpec) (\<lambda>spec.
     seq (setAnnotation MachineInstanceStateAnnotationName (in_Status inst)) (\<lambda>_.
     seq (setLabel MachineInstanceTypeLabelName (ps_MachineType spec)) (\<lambda>_.
     seq (setLabel MachineRegionLabelName (Region spec)) (\<lambda>_.
     seq (setLabel MachineAZLabelName (Zone spec)) (\<lambda>_.
     case toComputeProvisioningModel (Some GCPSpotInstance) of
       Inl err \<Rightarrow> panic (PanicError err)
     | Inr spotProvisioningModel \<Rightarrow>
         if Preemptible spec \<or>
            (case in_Scheduling inst of None \<Rightarrow> False | Some sch \<Rightarrow> sc_ProvisioningModel sch = spotProvisioningModel)
         then seq (setLabel MachineInterruptibleInstanceLabelName '''') (\<lambda>_.
              seq (updMachine (\<lambda>m. m\<lparr>SpecLabels := ensureMap (SpecLabels m)\<rparr>)) (\<lambda>_.
              setSpecLabel MachineInterruptibleInstanceLabelName ''''))
         else ret ())))))))"

definition nodeAddresses :: "string \<Rightarrow> string \<Rightarrow> string \<Rightarrow> ComputeNetworkInterface \<Rightarrow> NodeAddress list" where
  "nodeAddresses name zone project networkInterface =
     [\<lparr>na_Type = NodeInternalIP, na_Address = NetworkIP networkInterface\<rparr>]
     @ map (\<lambda>config. \<lparr>na_Type = NodeExternalIP, na_Address = NatIP config\<rparr>) (AccessConfigs networkInterface)
     @ [\<lparr>na_Type = NodeInternalDNS, na_Address = name @ ''.'' @ zone @ ''.c.'' @ project @ ''.internal''\<rparr>,
        \<lparr>na_Type = NodeInternalDNS, na_Address = name @ ''.c.'' @ project @ ''.internal''\<rparr>,
        \<lparr>na_Type = NodeInternalDNS, na_Address = name\<rparr>]"

definition succeedCondition :: Condition where
  "succeedCondition = \<lparr>co_Type = ''MachineCreated'', co_Status = ''True'', co_ObservedGeneration = 0,
     co_LastTransitionTime = 0, co_Reason = ''MachineCreationSucceeded'', co_Message = ''machine successfully created''\<rparr>"

definition applyCondition :: "Condition \<Rightarrow> ('w, unit) rec" where
  "applyCondition c =
     seq (onSnd Now) (\<lambda>now.
     updScope (\<lambda>s. s\<lparr>providerStatus := (providerStatus s)\<lparr>
        Conditions := reconcileConditions now (Conditions (providerStatus s)) c\<rparr>\<rparr>))"

definition reconcileMachineWithCloudState :: "Condition ptr \<Rightarrow> ('w, unit) rec" where
  "reconcileMachineWithCloudState failedCondition =
     (case failedCondition of
        Some c \<Rightarrow> applyCondition c
      | None \<Rightarrow>
          seq (getScope (\<lambda>s. s)) (\<lambda>r.
          let name = m_Name (machine r); zone = Zone (providerSpec r) in
          seq (onErr (errorfV ''failed to get instance via compute service: '')
                 (onSnd (invoke (CallInstancesGet (projectID r) zone name)
                           (InstancesGet (computeSvc r) (projectID r) zone name)))) (\<lambda>p.
          seq (deref p) (\<lambda>freshInstance.
          case in_NetworkInterfaces freshInstance of
            [] \<Rightarrow> raise (PlainError (''could not find network interfaces for instance '' @ Quote (in_Name freshInstance)))
          | networkInterface # _ \<Rightarrow>
              seq (updScope (\<lambda>s. s\<lparr>
                     machine := (machine s)\<lparr>ProviderID := Some (providerID s),
                       m_Status := (m_Status (machine s))\<lparr>
                         Addresses := nodeAddresses name zone (projectID s) networkInterface\<rparr>\<rparr>,
                     providerStatus := (providerStatus s)\<lparr>
                       InstanceState := Some (in_Status freshInstance),
                       InstanceID := Some (in_Name freshInstance)\<rparr>\<rparr>)) (\<lambda>_.
              seq (applyCondition succeedCondition) (\<lambda>_.
              seq (setMachineCloudProviderSpecifics freshInstance) (\<lambda>_.
              if in_Status freshInstance \<noteq> ''RUNNING''
              then raise (RequeueAfterError requeueAfterSeconds)
              else ret ())))))))"

section \<open>Lemmas\<close>

lemma mapAssign_simps [simp]:
  "mapAssign None k v = panic NilMapWrite"
  "mapAssign (Some f) k v = ret (Some (fmupd k v f))"
  by (simp_all add: mapAssign_def)

lemma updMachine_run [go_simps]: "updMachine f (s, w) = (Ok (), (s\<lparr>machine := f (machine s)\<rparr>, w))"
  by (simp add: updMachine_def scope_run)

text \<open>The machine after \<open>setMachineCloudProviderSpecifics\<close>.\<close>

definition theMap :: "gomap ptr \<Rightarrow> gomap" where
  "theMap m = (case m of None \<Rightarrow> fmempty | Some f \<Rightarrow> f)"

lemma ensureMap_theMap: "ensureMap m = Some (theMap m)"
  by (simp add: ensureMap_def theMap_def split: option.splits)

definition interruptible :: "GCPMachineProviderSpec \<Rightarrow> Instance \<Rightarrow> bool" where
  "interruptible spec inst \<longleftrightarrow> Preemptible spec \<or>
     (\<exists>sch. in_Scheduling inst = Some sch \<and> sc_ProvisioningModel sch = ''SPOT'')"

definition specificsMachine :: "GCPMachineProviderSpec \<Rightarrow> Instance \<Rightarrow> Machine \<Rightarrow> Machine" where
  "specificsMachine spec inst m =
     (let labels = fmupd MachineAZLabelName (Zone spec)
                    (fmupd MachineRegionLabelName (Region spec)
                      (fmupd MachineInstanceTypeLabelName (ps_MachineType spec) (theMap (m_Labels m))));
          m' = m\<lparr>m_Annotations := Some (fmupd MachineInstanceStateAnnotationName (in_Status inst) (theMap (m_Annotations m)))\<rparr>
      in if interruptible spec inst
         then m'\<lparr>m_Labels := Some (fmupd MachineInterruptibleInstanceLabelName '''' labels),
                 SpecLabels := Some (fmupd MachineInterruptibleInstanceLabelName '''' (theMap (SpecLabels m)))\<rparr>
         else m'\<lparr>m_Labels := Some labels\<rparr>)"

lemma setMachineCloudProviderSpecifics_run:
  "setMachineCloudProviderSpecifics inst (s, w) =
     (Ok (), (s\<lparr>machine := specificsMachine (providerSpec s) inst (machine s)\<rparr>, w))"
  by (simp add: setMachineCloudProviderSpecifics_def setLabel_def setAnnotation_def setSpecLabel_def go_simps
      ensureMap_theMap toComputeProvisioningModel_def GCPSpotInstance_def specificsMachine_def Let_def
      interruptible_def split: option.splits)

lemma applyCondition_run [go_simps]:
  "applyCondition c (s, w) = (Ok (), (s\<lparr>providerStatus := (providerStatus s)\<lparr>
      Conditions := reconcileConditions (wallClock w (ext w)) (Conditions (providerStatus s)) c\<rparr>\<rparr>, w))"
  by (simp add: applyCondition_def go_simps)

text \<open>The scope after a successful look at the cloud.\<close>

definition reportedScope :: "nat \<Rightarrow> Instance \<Rightarrow> ComputeNetworkInterface \<Rightarrow> 'w machineScope \<Rightarrow> 'w machineScope" where
  "reportedScope now inst nic s = s\<lparr>
     machine := specificsMachine (providerSpec s) inst ((machine s)\<lparr>ProviderID := Some (providerID s),
       m_Status := (m_Status (machine s))\<lparr>
         Addresses := nodeAddresses (m_Name (machine s)) (Zone (providerSpec s)) (projectID s) nic\<rparr>\<rparr>),
     providerStatus := (providerStatus s)\<lparr>
       InstanceState := Some (in_Status inst), InstanceID := Some (in_Name inst),
       Conditions := reconcileConditions now (Conditions (providerStatus s)) succeedCondition\<rparr>\<rparr>"

lemma reconcile_run:
  assumes "InstancesGet (computeSvc s) (projectID s) (Zone (providerSpec s)) (m_Name (machine s)) (ext w) = (r, e)"
  defines "w1 \<equiv> w\<lparr>ext := e, calls := calls w @ [CallInstancesGet (projectID s) (Zone (providerSpec s)) (m_Name (machine s))]\<rparr>"
  shows "reconcileMachineWithCloudState None (s, w) =
    (case r of
       Inl err \<Rightarrow> (Err (errorfV ''failed to get instance via compute service: '' err), (s, w1))
     | Inr None \<Rightarrow> (Crash NilDereference, (s, w1))
     | Inr (Some inst) \<Rightarrow>
         (case in_NetworkInterfaces inst of
            [] \<Rightarrow> (Err (PlainError (''could not find network interfaces for instance '' @ Quote (in_Name inst))), (s, w1))
          | nic # nics \<Rightarrow>
              (if in_Status inst = ''RUNNING'' then Ok () else Err (RequeueAfterError 20),
               (reportedScope (wallClock w e) inst nic s, w1))))"
  using assms(1)
  by (auto simp: reconcileMachineWithCloudState_def Let_def go_simps w1_def reportedScope_def
      setMachineCloudProviderSpecifics_run requeueAfterSeconds_def split: sum.splits option.splits list.splits)

lemma fixedScope_specifics [simp]:
  "fixedScope (s\<lparr>machine := specificsMachine sp inst m\<rparr>) = fixedScope (s\<lparr>machine := m\<rparr>)"
  by (simp add: fixedScope_def specificsMachine_def Let_def)

lemma fixedScope_reported [simp]: "fixedScope (reportedScope now inst nic s) = fixedScope s"
  by (simp add: fixedScope_def reportedScope_def specificsMachine_def Let_def)

lemma frame_reconcile [obeys_intros]:
  assumes "\<And>p z n. P (CallInstancesGet p z n)"
  shows "obeys (scopeFrame P) (reconcileMachineWithCloudState c)"
proof (rule obeysI)
  fix x r y assume eq: "reconcileMachineWithCloudState c x = (r, y)"
  obtain s w where x: "x = (s, w)" by force
  show "scopeFrame P x y"
  proof (cases c)
    case None
    obtain q e where g: "InstancesGet (computeSvc s) (projectID s) (Zone (providerSpec s)) (m_Name (machine s)) (ext w) = (q, e)"
      by force
    show ?thesis
      using eq assms unfolding x None reconcile_run [OF g]
      by (auto simp: onScope_def logGrows_def split: sum.splits option.splits list.splits)
  next
    case (Some cond)
    with eq x show ?thesis
      by (auto simp: reconcileMachineWithCloudState_def go_simps onScope_def fixedScope_def logGrows_refl)
  qed
qed

section \<open>Properties\<close>

text \<open>
  C17. \<open>setMachineCloudProviderSpecifics\<close> cannot panic, neither on nil maps nor on the constant
  spot model: it always returns, makes no request, and leaves a machine whose labels read
  the machine type, region and zone of the provider spec and whose annotation reads the
  state of the instance.  The interruptible label is set on the machine and on its node
  labels exactly when the machine is preemptible or the instance is a spot instance, or was
  there before; all other labels, node labels and annotations are kept.
\<close>

theorem setMachineCloudProviderSpecifics_spec:
  "\<exists>m. setMachineCloudProviderSpecifics inst (s, w) = (Ok (), (s\<lparr>machine := m\<rparr>, w)) \<and>
     (\<forall>k. fmlookup (theMap (m_Labels m)) k =
       (if k = ''machine.openshift.io/interruptible-instance'' \<and> interruptible (providerSpec s) inst then Some ''''
        else if k = ''machine.openshift.io/zone'' then Some (Zone (providerSpec s))
        else if k = ''machine.openshift.io/region'' then Some (Region (providerSpec s))
        else if k = ''machine.openshift.io/instance-type'' then Some (ps_MachineType (providerSpec s))
        else fmlookup (theMap (m_Labels (machine s))) k)) \<and>
     (\<forall>k. fmlookup (theMap (SpecLabels m)) k =
       (if k = ''machine.openshift.io/interruptible-instance'' \<and> interruptible (providerSpec s) inst then Some ''''
        else fmlookup (theMap (SpecLabels (machine s))) k)) \<and>
     (\<forall>k. fmlookup (theMap (m_Annotations m)) k =
       (if k = ''machine.openshift.io/instance-state'' then Some (in_Status inst)
        else fmlookup (theMap (m_Annotations (machine s))) k))"
  unfolding setMachineCloudProviderSpecifics_run
  by (rule exI, rule conjI, rule refl)
    (auto simp: specificsMachine_def Let_def theMap_def MachineAZLabelName_def MachineRegionLabelName_def
      MachineInstanceTypeLabelName_def MachineInterruptibleInstanceLabelName_def
      MachineInstanceStateAnnotationName_def split: option.splits)

text \<open>
  C16. \<open>reconcileMachineWithCloudState\<close> without a failed condition, when the cloud returns an
  instance with a network interface: it makes that one request, records the provider id,
  the state and name of the instance and a true \<open>MachineCreated\<close> condition, replaces the
  addresses by the internal address, the external ones in order and the three DNS names,
  and asks to be called again after 20 seconds exactly when the instance is not running.
\<close>

theorem reconcileMachineWithCloudState_spec:
  assumes "InstancesGet (computeSvc s) (projectID s) (Zone (providerSpec s)) (m_Name (machine s)) (ext w) = (Inr (Some inst), e)"
    and "in_NetworkInterfaces inst = nic # nics"
    and "reconcileMachineWithCloudState None (s, w) = (r, (s', w'))"
  shows "r = (if in_Status inst = ''RUNNING'' then Ok () else Err (RequeueAfterError 20)) \<and>
    calls w' = calls w @ [CallInstancesGet (projectID s) (Zone (providerSpec s)) (m_Name (machine s))] \<and>
    ProviderID (machine s') = Some (providerID s) \<and>
    InstanceState (providerStatus s') = Some (in_Status inst) \<and> InstanceID (providerStatus s') = Some (in_Name inst) \<and>
    saysCondition succeedCondition (Conditions (providerStatus s')) \<and>
    map na_Address (Addresses (m_Status (machine s'))) =
      NetworkIP nic # map NatIP (AccessConfigs nic) @
      [m_Name (machine s) @ ''.'' @ Zone (providerSpec s) @ ''.c.'' @ projectID s @ ''.internal'',
       m_Name (machine s) @ ''.c.'' @ projectID s @ ''.internal'', m_Name (machine s)] \<and>
    providerSpec s' = providerSpec s \<and> fixedScope s' = fixedScope s"
  using assms(2,3) unfolding reconcile_run [OF assms(1)]
  by (auto simp: reportedScope_def specificsMachine_def Let_def nodeAddresses_def reconcileConditions_settles
      fixedScope_def)

end
