(* ===== verification/Labels_Tags.thy ===== *)
theory Labels_Tags
  imports World
begin

text \<open>
  \<open>util/gcp_tags_labels.go\<close>: the labels and resource manager tags of the compute resources
  the program creates, merged from the infrastructure object, the provider spec and the
  labels OpenShift reserves.
\<close>

section \<open>Definitions\<close>

definition maxUserTagLimit :: nat where
  "maxUserTagLimit = 50"

definition globalInfrastructureName :: string where
  "globalInfrastructureName = ''cluster''"

definition GetInfrastructure :: "'w Client \<Rightarrow> ('w world, Infrastructure) go" where
  "GetInfrastructure client =
     onErr (errorfW ''failed to get infrastructure: '')
       (invoke (CallGetInfrastructure globalInfrastructureName)
          (GetInfrastructureObject client globalInfrastructureName))"

definition getInfraResourceLabels :: "PlatformStatus ptr \<Rightarrow> gomap ptr" where
  "getInfraResourceLabels platformStatus =
     (case platformStatus of None \<Rightarrow> None
      | Some p \<Rightarrow> (case GCP p of None \<Rightarrow> None
          | Some g \<Rightarrow> (case ResourceLabels g of None \<Rightarrow> None
              | Some ls \<Rightarrow> Some (fold (\<lambda>(k, v) labels. fmupd k v labels) ls fmempty))))"

definition ocpLabelKey :: "string \<Rightarrow> string" where
  "ocpLabelKey clusterID = ''kubernetes-io-cluster-'' @ clusterID"

definition getOCPLabels :: "string \<Rightarrow> gomap" where
  "getOCPLabels clusterID = fmupd (ocpLabelKey clusterID) ''owned'' fmempty"

text \<open>A range over a map that assigns every entry is the right-biased union of maps.\<close>

definition mergeLabels :: "gomap ptr \<Rightarrow> gomap ptr \<Rightarrow> gomap ptr \<Rightarrow> gomap" where
  "mergeLabels ocpLabels providerSpecLabels infraLabels =
     (let labels = fmempty;
          labels = (case infraLabels of None \<Rightarrow> labels | Some m \<Rightarrow> labels ++\<^sub>f m);
          labels = (case providerSpecLabels of None \<Rightarrow> labels | Some m \<Rightarrow> labels ++\<^sub>f m);
          labels = (case ocpLabels of None \<Rightarrow> labels | Some m \<Rightarrow> labels ++\<^sub>f m)
      in labels)"

definition GetLabelsList :: "'w Client \<Rightarrow> string \<Rightarrow> gomap ptr \<Rightarrow> ('w world, gomap) go" where
  "GetLabelsList client machineClusterID providerSpecLabels =
     (let ocpLabels = getOCPLabels machineClusterID in
      seq (onErr (errorfW ''failed to get cluster infrastructure: '') (GetInfrastructure client)) (\<lambda>infra.
        let infraLabels = getInfraResourceLabels (infra_PlatformStatus infra);
            labels = mergeLabels (Some ocpLabels) providerSpecLabels infraLabels
        in if mapLen ocpLabels > 32 \<or> int (mapLen labels) - int (mapLen ocpLabels) > 32
           then raise (PlainError
             (''ocp can define upto 32 labels and user can define upto 32 labels,''
              @ ''infrstructure.status.resourceLabels and Machine.Spec.ProviderSpec.Labels put together configured label count is ''
              @ Itoa (int (mapLen labels))))
           else ret labels))"

definition getInfraResourceTagsList :: "PlatformStatus ptr \<Rightarrow> ResourceManagerTag list" where
  "getInfraResourceTagsList platformStatus =
     (case platformStatus of None \<Rightarrow> []
      | Some p \<Rightarrow> (case GCP p of None \<Rightarrow> []
          | Some g \<Rightarrow> (case ResourceTags g of None \<Rightarrow> []
              | Some ts \<Rightarrow> map (\<lambda>t. \<lparr>tag_ParentID = tag_ParentID t, tag_Key = tag_Key t, tag_Value = tag_Value t\<rparr>) ts)))"

definition tagName :: "ResourceManagerTag \<Rightarrow> string" where
  "tagName t = tag_ParentID t @ ''/'' @ tag_Key t @ ''/'' @ tag_Value t"

text \<open>404 and 403: the tag does not exist or may not be read.\<close>

definition inaccessibleError :: "error \<Rightarrow> bool" where
  "inaccessibleError err = (case asAPIError (chain err) of None \<Rightarrow> False | Some code \<Rightarrow> code = 404 \<or> code = 403)"

definition tagStep ::
    "'w TagService \<Rightarrow> string list \<times> gomap \<Rightarrow> ResourceManagerTag \<Rightarrow> ('w world, string list \<times> gomap) go" where
  "tagStep tagService acc tag =
     (let name = tagName tag in
      seq (attempt (invoke (CallGetNamespacedName name) (GetNamespacedName tagService name))) (\<lambda>r.
        case r of
          Inl err \<Rightarrow>
            if inaccessibleError err then ret (fst acc @ [name], snd acc)
            else raise (errorfW (''failed to fetch '' @ name @ '' tag details: '') err)
        | Inr p \<Rightarrow> seq (deref p) (\<lambda>value. ret (fst acc, fmupd (tv_Parent value) (tv_Name value) (snd acc)))))"

definition getTagValuesNames :: "'w TagService \<Rightarrow> ResourceManagerTag list \<Rightarrow> ('w world, gomap) go" where
  "getTagValuesNames tagService tagList =
     seq (foldG (tagStep tagService) ([], fmempty) tagList) (\<lambda>(inaccessibleTags, tagValueList).
       if inaccessibleTags \<noteq> []
       then raise (InvalidMachineConfiguration
         (showStrings inaccessibleTags @ '' tag(s) do not exist or does not have required permission to access''))
       else ret tagValueList)"

definition sameTag :: "ResourceManagerTag \<Rightarrow> ResourceManagerTag \<Rightarrow> bool" where
  "sameTag a b \<longleftrightarrow> tag_ParentID a = tag_ParentID b \<and> tag_Key a = tag_Key b"

definition mergeInfraProviderSpecTags ::
    "ResourceManagerTag list \<Rightarrow> ResourceManagerTag list \<Rightarrow> ResourceManagerTag list" where
  "mergeInfraProviderSpecTags infraTags providerSpecTags =
     providerSpecTags @ filter (\<lambda>iTag. \<not> list_ex (\<lambda>pTag. sameTag iTag pTag) providerSpecTags) infraTags"

definition GetResourceManagerTags ::
    "'w Client \<Rightarrow> 'w TagService \<Rightarrow> ResourceManagerTag list \<Rightarrow> ('w world, gomap ptr) go" where
  "GetResourceManagerTags client tagService providerSpecTags =
     seq (onErr (errorfW ''failed to get cluster infrastructure: '') (GetInfrastructure client)) (\<lambda>infra.
       let userTags = getInfraResourceTagsList (infra_PlatformStatus infra) in
       if userTags = [] \<and> providerSpecTags = [] then ret None
       else let mergedTags = mergeInfraProviderSpecTags userTags providerSpecTags in
         if length mergedTags > maxUserTagLimit
         then raise (PlainError
           (''maximum of '' @ Itoa (int maxUserTagLimit) @ '' tags can be added to a compute instance, ''
            @ ''infrastructure.status.resourceTags and machines.spec.providerSpec.resourceManagerTags ''
            @ ''combined tag count is '' @ Itoa (int (length mergedTags))))
         else seq (getTagValuesNames tagService mergedTags) (\<lambda>m. ret (Some m)))"

section \<open>Labels\<close>

context call_frame
begin

lemma obeys_GetInfrastructure [obeys_intros]:
  "P (CallGetInfrastructure globalInfrastructureName) \<Longrightarrow> obeys R (GetInfrastructure client)"
  unfolding GetInfrastructure_def by (intro obeys_intros)

lemma obeys_GetLabelsList [obeys_intros]:
  "P (CallGetInfrastructure globalInfrastructureName) \<Longrightarrow> obeys R (GetLabelsList client cid ls)"
  unfolding GetLabelsList_def by (intro obeys_intros)

lemma obeys_GetResourceManagerTags [obeys_intros]:
  "P (CallGetInfrastructure globalInfrastructureName) \<Longrightarrow> (\<And>n. P (CallGetNamespacedName n)) \<Longrightarrow>
   obeys R (GetResourceManagerTags client tags ts)"
  unfolding GetResourceManagerTags_def getTagValuesNames_def tagStep_def by (intro obeys_intros)

end

definition layer :: "gomap ptr \<Rightarrow> string \<Rightarrow> string option" where
  "layer m k = (case m of None \<Rightarrow> None | Some f \<Rightarrow> fmlookup f k)"

lemma fmlookup_mergeLabels:
  "fmlookup (mergeLabels ocp spec infra) k =
     (case layer ocp k of Some v \<Rightarrow> Some v
      | None \<Rightarrow> (case layer spec k of Some v \<Rightarrow> Some v | None \<Rightarrow> layer infra k))"
  by (simp add: mergeLabels_def layer_def Let_def fmlookup_dom_iff split: option.splits)

lemma fmdom_mergeLabels:
  "fset (fmdom (mergeLabels ocp spec infra)) = {k. layer ocp k \<noteq> None \<or> layer spec k \<noteq> None \<or> layer infra k \<noteq> None}"
  by (auto simp: fmlookup_dom_iff fmlookup_mergeLabels split: option.splits)

lemma layer_OCP: "layer (Some (getOCPLabels c)) k = (if k = ocpLabelKey c then Some ''owned'' else None)"
  by (simp add: layer_def getOCPLabels_def)

lemma mapLen_OCP [simp]: "mapLen (getOCPLabels c) = 1"
  by (simp add: mapLen_def getOCPLabels_def fcard_finsert_disjoint)

text \<open>The user's labels that survive: every key but the reserved one.\<close>

definition userKeys :: "string \<Rightarrow> gomap ptr \<Rightarrow> gomap ptr \<Rightarrow> string set" where
  "userKeys c spec infra = {k. k \<noteq> ocpLabelKey c \<and> (layer spec k \<noteq> None \<or> layer infra k \<noteq> None)}"

lemma finite_layer: "finite {k. layer m k \<noteq> None}"
proof (cases m)
  case (Some f)
  have "{k. fmlookup f k \<noteq> None} = fset (fmdom f)" by (auto simp: fmlookup_dom_iff)
  with Some show ?thesis by (simp add: layer_def)
qed (simp add: layer_def)

lemma finite_userKeys: "finite (userKeys c spec infra)"
  by (rule finite_subset [OF _ finite_UnI [OF finite_layer [of spec] finite_layer [of infra]]])
    (auto simp: userKeys_def)

lemma mapLen_mergeLabels:
  "mapLen (mergeLabels (Some (getOCPLabels c)) spec infra) = Suc (card (userKeys c spec infra))"
proof -
  have "fset (fmdom (mergeLabels (Some (getOCPLabels c)) spec infra)) = insert (ocpLabelKey c) (userKeys c spec infra)"
    by (auto simp: fmdom_mergeLabels layer_OCP userKeys_def)
  moreover have "ocpLabelKey c \<notin> userKeys c spec infra" by (simp add: userKeys_def)
  ultimately show ?thesis by (simp add: mapLen_def fcard.rep_eq finite_userKeys)
qed

text \<open>
  \<open>mergeLabels\<close> refines the layered lookup its comment promises: a key reads from the
  OpenShift labels first, then from the provider spec, then from the infrastructure object.
\<close>

theorem mergeLabels_precedence:
  "fmlookup (mergeLabels ocpLabels providerSpecLabels infraLabels) =
     layer infraLabels ++ layer providerSpecLabels ++ layer ocpLabels"
  by (rule ext) (simp add: fmlookup_mergeLabels map_add_def split: option.splits)

text \<open>
  C35. Once the infrastructure object is read, \<open>GetLabelsList\<close> succeeds exactly when the
  user's labels (those of provider spec and infrastructure together, the reserved key not
  counted) are at most 32; the result then marks the resource as owned by the cluster and
  otherwise reads the provider spec before the infrastructure.  With more labels it
  returns an error that is not an invalid-configuration error.
\<close>

theorem GetLabelsList_spec:
  assumes "GetInfrastructureObject client ''cluster'' (ext w) = (Inr infra, e)"
  defines "il \<equiv> getInfraResourceLabels (infra_PlatformStatus infra)"
  shows "if card (userKeys cid spec il) \<le> 32
         then \<exists>labels. fst (GetLabelsList client cid spec w) = Ok labels \<and>
                fmlookup labels = (layer il ++ layer spec)(ocpLabelKey cid \<mapsto> ''owned'')
         else \<exists>err. fst (GetLabelsList client cid spec w) = Err err \<and>
                \<not> isInvalidMachineConfigurationError (Some err)"
proof -
  let ?m = "mergeLabels (Some (getOCPLabels cid)) spec il"
  have lookup: "fmlookup ?m = (layer il ++ layer spec)(ocpLabelKey cid \<mapsto> ''owned'')"
    by (rule ext) (simp add: fmlookup_mergeLabels layer_OCP map_add_def split: option.splits)
  have infra: "GetInfrastructure client w = (Ok infra, w\<lparr>ext := e, calls := calls w @ [CallGetInfrastructure ''cluster'']\<rparr>)"
    using assms(1) by (simp add: GetInfrastructure_def go_simps globalInfrastructureName_def)
  have len: "int (mapLen ?m) - int (mapLen (getOCPLabels cid)) > 32 \<longleftrightarrow> \<not> card (userKeys cid spec il) \<le> 32"
    by (simp add: mapLen_mergeLabels not_le)
  show ?thesis
    using lookup
    by (simp add: GetLabelsList_def go_simps infra len il_def [symmetric] Let_def
        del: mapLen_OCP) simp
qed

section \<open>Tags\<close>

text \<open>The tag a list holds for a parent and a key: its first entry.\<close>

definition tagFor :: "ResourceManagerTag list \<Rightarrow> string \<Rightarrow> string \<Rightarrow> ResourceManagerTag option" where
  "tagFor ts p k = List.find (\<lambda>t. tag_ParentID t = p \<and> tag_Key t = k) ts"

lemma find_append: "List.find P (xs @ ys) = (case List.find P xs of None \<Rightarrow> List.find P ys | r \<Rightarrow> r)"
  by (induction xs) auto

lemma find_filter_irrelevant:
  "(\<And>x. x \<in> set xs \<Longrightarrow> P x \<Longrightarrow> Q x) \<Longrightarrow> List.find P (filter Q xs) = List.find P xs"
  by (induction xs) auto

text \<open>
  \<open>mergeInfraProviderSpecTags\<close>: for every parent and key the merged list yields the
  provider spec's tag if there is one and the infrastructure's otherwise; it keeps the
  provider spec's tags as a prefix and never holds more tags than the two lists together.
\<close>

theorem mergeInfraProviderSpecTags_precedence:
  "tagFor (mergeInfraProviderSpecTags infraTags specTags) p k =
     (case tagFor specTags p k of Some t \<Rightarrow> Some t | None \<Rightarrow> tagFor infraTags p k) \<and>
   prefix specTags (mergeInfraProviderSpecTags infraTags specTags) \<and>
   length (mergeInfraProviderSpecTags infraTags specTags) \<le> length specTags + length infraTags"
proof (intro conjI)
  show "tagFor (mergeInfraProviderSpecTags infraTags specTags) p k =
     (case tagFor specTags p k of Some t \<Rightarrow> Some t | None \<Rightarrow> tagFor infraTags p k)"
  proof (cases "tagFor specTags p k")
    case None
    then have "\<And>t. t \<in> set infraTags \<Longrightarrow> tag_ParentID t = p \<and> tag_Key t = k \<Longrightarrow>
        \<not> list_ex (\<lambda>q. sameTag t q) specTags"
      by (auto simp: tagFor_def find_None_iff list_ex_iff sameTag_def)
    with None show ?thesis
      by (simp add: tagFor_def mergeInfraProviderSpecTags_def find_append find_filter_irrelevant)
  next
    case (Some t)
    then show ?thesis by (simp add: tagFor_def mergeInfraProviderSpecTags_def find_append)
  qed
qed (simp_all add: mergeInfraProviderSpecTags_def)

text \<open>The calls of the tag loop: one lookup per tag, in order, as far as the loop gets.\<close>

lemma tagStep_calls:
  "tagStep svc acc t w = (r, w') \<Longrightarrow> calls w' = calls w @ [CallGetNamespacedName (tagName t)]"
  by (auto simp: tagStep_def Let_def go_simps deref_def
      split: prod.splits sum.splits outcome.splits option.splits if_splits)

lemma tagLoop_calls:
  "foldG (tagStep svc) acc ts w = (r, w') \<Longrightarrow>
   \<exists>n \<le> length ts. calls w' = calls w @ map (CallGetNamespacedName \<circ> tagName) (take n ts)"
proof (induction ts arbitrary: acc w)
  case Nil
  then show ?case by (simp add: go_simps)
next
  case (Cons t ts)
  obtain r1 w1 where s1: "tagStep svc acc t w = (r1, w1)" by force
  note c1 = tagStep_calls [OF s1]
  show ?case
  proof (cases r1)
    case (Ok acc')
    with Cons.prems s1 have "foldG (tagStep svc) acc' ts w1 = (r, w')" by (simp add: seq_run)
    then obtain n where "n \<le> length ts"
      "calls w' = calls w1 @ map (CallGetNamespacedName \<circ> tagName) (take n ts)"
      using Cons.IH by blast
    with c1 show ?thesis by (intro exI [of _ "Suc n"]) simp
  qed (use Cons.prems s1 c1 in \<open>auto simp: seq_run intro!: exI [of _ "Suc 0"]\<close>)
qed

lemma getTagValuesNames_calls:
  assumes "getTagValuesNames svc ts w = (r, w')"
  shows "\<exists>n \<le> length ts. calls w' = calls w @ map (CallGetNamespacedName \<circ> tagName) (take n ts)"
proof -
  obtain r1 w1 where l: "foldG (tagStep svc) ([], fmempty) ts w = (r1, w1)" by force
  with assms have "w' = w1"
    by (auto simp: getTagValuesNames_def go_simps split: outcome.splits prod.splits if_splits)
  with tagLoop_calls [OF l] show ?thesis by simp
qed

text \<open>
  Whatever the services answer, \<open>GetResourceManagerTags\<close> reads the infrastructure once
  and then looks up at most 50 tags, each of them one of the merged tags: the limit of
  tags on an instance also bounds the requests it sends.
\<close>

theorem GetResourceManagerTags_calls_bounded:
  assumes "GetResourceManagerTags client svc specTags w = (r, w')"
  shows "\<exists>names. calls w' = calls w @ CallGetInfrastructure ''cluster'' # map CallGetNamespacedName names
           \<and> length names \<le> 50"
proof -
  obtain r1 w1 where i: "GetInfrastructure client w = (r1, w1)" by force
  then have c1: "calls w1 = calls w @ [CallGetInfrastructure ''cluster'']"
    by (auto simp: GetInfrastructure_def go_simps globalInfrastructureName_def
        split: prod.splits sum.splits outcome.splits)
  show ?thesis
  proof (cases r1)
    case (Ok infra)
    define ts where "ts = mergeInfraProviderSpecTags (getInfraResourceTagsList (infra_PlatformStatus infra)) specTags"
    have "w' = w1 \<or> (length ts \<le> 50 \<and> (\<exists>q. getTagValuesNames svc ts w1 = (q, w')))"
      using assms Ok i
      by (auto simp: GetResourceManagerTags_def go_simps Let_def ts_def [symmetric] maxUserTagLimit_def
          split: if_splits outcome.splits prod.splits)
    then consider "w' = w1" | q where "length ts \<le> 50" "getTagValuesNames svc ts w1 = (q, w')" by blast
    then show ?thesis
    proof cases
      case 1
      with c1 show ?thesis by (intro exI [of _ "[]"]) simp
    next
      case 2
      from getTagValuesNames_calls [OF 2(2)] obtain n where
        "n \<le> length ts" "calls w' = calls w1 @ map (CallGetNamespacedName \<circ> tagName) (take n ts)" by blast
      with c1 2(1) show ?thesis by (intro exI [of _ "map tagName (take n ts)"]) simp
    qed
  qed (use assms i c1 in \<open>auto simp: GetResourceManagerTags_def go_simps intro!: exI [of _ "[]"]\<close>)
qed

text \<open>
  The tag lookup against a service that answers every name the same way each time it is
  asked: the tags that fail for another reason than being inaccessible, the inaccessible
  ones, and the map of the resolved ones.
\<close>

definition hardFailure :: "(string \<Rightarrow> error + TagValue ptr) \<Rightarrow> ResourceManagerTag \<Rightarrow> bool" where
  "hardFailure f t = (case f (tagName t) of Inl err \<Rightarrow> \<not> inaccessibleError err | Inr _ \<Rightarrow> False)"

definition inaccessible :: "(string \<Rightarrow> error + TagValue ptr) \<Rightarrow> ResourceManagerTag \<Rightarrow> bool" where
  "inaccessible f t = (case f (tagName t) of Inl err \<Rightarrow> inaccessibleError err | Inr _ \<Rightarrow> False)"

definition resolve :: "(string \<Rightarrow> error + TagValue ptr) \<Rightarrow> ResourceManagerTag \<Rightarrow> gomap \<Rightarrow> gomap" where
  "resolve f t m = (case f (tagName t) of Inr (Some v) \<Rightarrow> fmupd (tv_Parent v) (tv_Name v) m | _ \<Rightarrow> m)"

lemma tagLoop_result:
  assumes "\<And>name e. GetNamespacedName svc name e = (f name, e)"
    and "\<forall>t \<in> set ts. f (tagName t) \<noteq> Inr None"
  shows "fst (foldG (tagStep svc) acc ts w) =
    (case List.find (hardFailure f) ts of
       Some t \<Rightarrow> Err (errorfW (''failed to fetch '' @ tagName t @ '' tag details: '') (projl (f (tagName t))))
     | None \<Rightarrow> Ok (fst acc @ map tagName (filter (inaccessible f) ts), fold (resolve f) ts (snd acc)))"
  using assms(2)
proof (induction ts arbitrary: acc w)
  case Nil
  then show ?case by (simp add: go_simps)
next
  case (Cons t ts)
  note step = tagStep_def [of svc acc t] Let_def go_simps assms(1)
    hardFailure_def [of f t] inaccessible_def [of f t] resolve_def [of f t]
  show ?case
  proof (cases "f (tagName t)")
    case (Inl err)
    then show ?thesis using Cons by (auto simp: step split: option.splits)
  next
    case (Inr p)
    with Cons.prems obtain v where "p = Some v" by (cases p) auto
    with Inr Cons show ?thesis by (auto simp: step split: option.splits)
  qed
qed

text \<open>
  C36. \<open>getTagValuesNames\<close> against a tag service whose answers do not change while it runs and
  which returns a value with every success: the first tag that fails other than with 403
  or 404 ends the call with that error wrapped; otherwise, if tags were inaccessible, the
  call ends with one invalid-configuration error that lists all of them in order; and
  otherwise it returns the map from tag key ids to tag value ids, later tags of a key
  overwriting earlier ones.
\<close>

theorem getTagValuesNames_spec:
  assumes "\<And>name e. GetNamespacedName svc name e = (f name, e)"
    and "\<forall>t \<in> set ts. f (tagName t) \<noteq> Inr None"
  shows "fst (getTagValuesNames svc ts w) =
    (case List.find (hardFailure f) ts of
       Some t \<Rightarrow> Err (errorfW (''failed to fetch '' @ tagName t @ '' tag details: '') (projl (f (tagName t))))
     | None \<Rightarrow>
         if filter (inaccessible f) ts = [] then Ok (fold (resolve f) ts fmempty)
         else Err (InvalidMachineConfiguration
           (showStrings (map tagName (filter (inaccessible f) ts))
            @ '' tag(s) do not exist or does not have required permission to access'')))"
  using tagLoop_result [OF assms, of "([], fmempty)" w]
  by (auto simp: getTagValuesNames_def seq_run run_basic split: prod.splits option.splits outcome.splits)

end
