(* ===== verification/Images.thy ===== *)
theory Images
  imports World
begin

text \<open>
  \<open>util/gcp_uefi_disk_check.go\<close> (is the boot image UEFI compatible?) and
  \<open>util/gcp_machine_architecture.go\<close> (the CPU architecture of a machine type).
\<close>

section \<open>Definitions\<close>

definition UEFICompatible :: string where
  "UEFICompatible = ''UEFI_COMPATIBLE''"

record imageReference =
  ir_Project :: string
  ir_Image :: string
  ir_IsFamily :: bool

definition parseImageReference :: "string \<Rightarrow> string \<Rightarrow> error + imageReference" where
  "parseImageReference imageStr providerProject =
     (if \<not> Contains imageStr ''/''
      then Inr \<lparr>ir_Project = providerProject, ir_Image = imageStr, ir_IsFamily = False\<rparr>
      else if \<not> Contains imageStr ''projects/''
      then Inl (PlainError (''image string '' @ Quote imageStr @ '' does not contain expected '' @ sq @ ''projects/'' @ sq @ '' segment''))
      else let parts = SplitN2 imageStr ''projects/'' in
        if length parts < 2 then Inl (PlainError (''unexpected format for image string: '' @ Quote imageStr))
        else let subParts = Split (CHR ''/'') (parts ! 1) in
          if length subParts < 4 then Inl (PlainError (''unexpected image path format in '' @ Quote imageStr))
          else if length subParts \<ge> 5 \<and> subParts ! 2 = ''images'' \<and> subParts ! 3 = ''family''
          then Inr \<lparr>ir_Project = subParts ! 0, ir_Image = subParts ! 4, ir_IsFamily = True\<rparr>
          else if subParts ! 1 = ''global'' \<and> subParts ! 2 = ''images''
          then Inr \<lparr>ir_Project = subParts ! 0, ir_Image = subParts ! 3, ir_IsFamily = False\<rparr>
          else Inl (PlainError (''unrecognized image path format in '' @ Quote imageStr)))"

definition hasUEFIFeature :: "string list \<Rightarrow> bool" where
  "hasUEFIFeature feats = list_ex (\<lambda>feat. EqualFold feat UEFICompatible) feats"

definition checkImageUEFICompatible :: "'w GCPComputeService \<Rightarrow> string \<Rightarrow> string \<Rightarrow> ('w world, bool) go" where
  "checkImageUEFICompatible gceService project img =
     seq (onErr (errorfW (''unable to retrieve image '' @ Quote img @ '' in project '' @ Quote project @ '': ''))
            (invoke (CallImageGet project img) (ImageGet gceService project img)))
       (\<lambda>p. seq (deref p) (\<lambda>im. ret (hasUEFIFeature (GuestOsFeatures im))))"

definition checkImageFamilyImageUEFICompatible ::
    "'w GCPComputeService \<Rightarrow> string \<Rightarrow> string \<Rightarrow> string \<Rightarrow> ('w world, bool) go" where
  "checkImageFamilyImageUEFICompatible gceService project zone imageFamily =
     seq (onErr (errorfW (''unable to retrieve image family '' @ Quote imageFamily @ '' in project '' @ Quote project @ '': ''))
            (invoke (CallImageFamilyGet project zone imageFamily) (ImageFamilyGet gceService project zone imageFamily)))
       (\<lambda>p. seq (deref p) (\<lambda>family. seq (deref (fv_Image family)) (\<lambda>im. ret (hasUEFIFeature (GuestOsFeatures im)))))"

text \<open>The loop over the disks: non-boot disks are skipped, the first boot disk decides.\<close>

fun uefiLoop :: "'w GCPComputeService \<Rightarrow> GCPMachineProviderSpec \<Rightarrow> GCPDisk ptr list \<Rightarrow> ('w world, bool) go" where
  "uefiLoop gceService providerConfig [] = raise (PlainError ''no boot disk found'')"
| "uefiLoop gceService providerConfig (p # disks) =
     seq (deref p) (\<lambda>disk.
       if \<not> dk_Boot disk then uefiLoop gceService providerConfig disks
       else seq (onErr (errorfW ''failed to parse disk image reference: '')
                   (pureCall (parseImageReference (dk_Image disk) (ps_ProjectID providerConfig))))
              (\<lambda>imageRef.
                 if ir_IsFamily imageRef
                 then checkImageFamilyImageUEFICompatible gceService (ir_Project imageRef) (Zone providerConfig) (ir_Image imageRef)
                 else checkImageUEFICompatible gceService (ir_Project imageRef) (ir_Image imageRef)))"

definition IsUEFICompatible :: "'w GCPComputeService \<Rightarrow> GCPMachineProviderSpec \<Rightarrow> ('w world, bool) go" where
  "IsUEFICompatible gceService providerConfig = uefiLoop gceService providerConfig (Disks providerConfig)"

datatype NormalizedArch = ArchitectureAmd64 | ArchitectureArm64

fun archString :: "NormalizedArch \<Rightarrow> string" where
  "archString ArchitectureAmd64 = ''amd64''"
| "archString ArchitectureArm64 = ''arm64''"

definition machineTypePrefixArchitectureMap :: "string \<Rightarrow> NormalizedArch option" where
  "machineTypePrefixArchitectureMap =
     [''c4a'' \<mapsto> ArchitectureArm64, ''n4a'' \<mapsto> ArchitectureArm64, ''t2a'' \<mapsto> ArchitectureArm64]"

definition CPUArchitecture :: "string \<Rightarrow> NormalizedArch" where
  "CPUArchitecture machineType =
     (case Cut machineType ''-'' of (pre, _, _) \<Rightarrow>
        (case machineTypePrefixArchitectureMap pre of Some arch \<Rightarrow> arch | None \<Rightarrow> ArchitectureAmd64))"

section \<open>Image references\<close>

lemma cutAt_first:
  assumes "c \<notin> set ds" and "\<not> Contains w (c # ds)"
  shows "cutAt (c # ds) (w @ c # ds @ t) = Some (w, t)"
  using assms(2)
proof (induction w)
  case Nil
  then show ?case by simp
next
  case (Cons x w)
  have "\<not> prefix (c # ds) (x # w @ c # ds @ t)"
  proof
    assume p: "prefix (c # ds) (x # w @ c # ds @ t)"
    then have xc: "x = c" and ds: "prefix ds (w @ c # ds @ t)" by auto
    show False
    proof (cases "length ds \<le> length w")
      case True
      with ds have "prefix ds w"
        by (metis prefixI prefix_length_prefix)
      with xc Cons.prems show False by auto
    next
      case False
      then have "length (w @ [c]) \<le> length ds" by simp
      moreover have "prefix (w @ [c]) (w @ c # ds @ t)" by (simp add: prefix_def)
      ultimately have "prefix (w @ [c]) ds" using ds by (blast intro: prefix_length_prefix)
      then have "c \<in> set ds" by (auto dest: set_mono_prefix)
      with assms(1) show False ..
    qed
  qed
  moreover have "cutAt (c # ds) (w @ c # ds @ t) = Some (w, t)" using Cons by simp
  ultimately show ?case by simp
qed

lemma SplitN2_projects:
  assumes "\<not> Contains pre ''projects/''"
  shows "SplitN2 (pre @ ''projects/'' @ t) ''projects/'' = [pre, t]"
  using cutAt_first [of "CHR ''p''" "''rojects/''" pre t] assms by (simp add: SplitN2_def)

lemma Contains_projects: "Contains (pre @ ''projects/'' @ t) ''projects/''" "Contains (pre @ ''projects/'' @ t) ''/''"
  unfolding Contains_iff by (blast, metis append.assoc append_Cons append_Nil)

text \<open>
  C37. \<open>parseImageReference\<close> reads back every reference format its comment lists, for projects
  and images without a slash: a path or URL to an image, a path or URL to an image family
  (any text before the first \<open>projects/\<close> is allowed), and a bare image name, which is
  looked up in the provider's project.
\<close>

theorem parseImageReference_roundtrip:
  assumes "CHR ''/'' \<notin> set project" and "CHR ''/'' \<notin> set img"
    and "\<not> Contains pre ''projects/''"
  shows "parseImageReference (pre @ ''projects/'' @ project @ ''/global/images/'' @ img) pp =
           Inr \<lparr>ir_Project = project, ir_Image = img, ir_IsFamily = False\<rparr>
       \<and> parseImageReference (pre @ ''projects/'' @ project @ ''/global/images/family/'' @ img) pp =
           Inr \<lparr>ir_Project = project, ir_Image = img, ir_IsFamily = True\<rparr>
       \<and> parseImageReference img pp = Inr \<lparr>ir_Project = pp, ir_Image = img, ir_IsFamily = False\<rparr>"
proof -
  have s1: "Split (CHR ''/'') (project @ ''/global/images/'' @ img) = [project, ''global'', ''images'', img]"
    using assms(1,2) Split_append [of "CHR ''/''" project "''global/images/'' @ img"] by simp
  have s2: "Split (CHR ''/'') (project @ ''/global/images/family/'' @ img) = [project, ''global'', ''images'', ''family'', img]"
    using assms(1,2) Split_append [of "CHR ''/''" project "''global/images/family/'' @ img"] by simp
  have bare: "\<not> Contains img ''/''" using assms(2) by (auto simp: Contains_iff)
  show ?thesis
    using SplitN2_projects [OF assms(3)] Contains_projects [of pre] s1 s2 bare
    by (simp add: parseImageReference_def Let_def)
qed

section \<open>UEFI compatibility\<close>

text \<open>The disk at which the loop ends: the first one that is a nil pointer or a boot disk.\<close>

definition decides :: "GCPDisk ptr \<Rightarrow> bool" where
  "decides p = (case p of None \<Rightarrow> True | Some d \<Rightarrow> dk_Boot d)"

lemma uefiLoop_find:
  "uefiLoop svc spec ds =
     (case List.find decides ds of
        None \<Rightarrow> raise (PlainError ''no boot disk found'')
      | Some p \<Rightarrow> uefiLoop svc spec [p])"
proof (induction ds)
  case (Cons p ds)
  then show ?case by (cases p) (simp_all add: decides_def deref_def)
qed simp

lemma find_decides: "List.find decides ds = Some (Some d) \<Longrightarrow> dk_Boot d"
  by (induction ds) (auto simp: decides_def split: if_splits)

text \<open>What the features of an image say, in any letter case.\<close>

definition isUEFI :: "Image \<Rightarrow> bool" where
  "isUEFI im \<longleftrightarrow> (\<exists>f. f \<in> set (GuestOsFeatures im) \<and> EqualFold f ''UEFI_COMPATIBLE'')"

lemma hasUEFIFeature_isUEFI: "hasUEFIFeature (GuestOsFeatures im) = isUEFI im"
  by (auto simp: hasUEFIFeature_def isUEFI_def list_ex_iff UEFICompatible_def)

text \<open>What the answer to a request for an image becomes: an error keeps its cause.\<close>

definition uefiAnswer :: "error + Image ptr \<Rightarrow> bool outcome \<Rightarrow> bool" where
  "uefiAnswer q r \<longleftrightarrow>
     (case q of
        Inl err \<Rightarrow> \<exists>pre. r = Err (errorfW pre err)
      | Inr None \<Rightarrow> r = Crash NilDereference
      | Inr (Some im) \<Rightarrow> r = Ok (isUEFI im))"

lemma checkImage_run:
  assumes "ImageGet svc project img (ext w) = (q, e)"
  shows "snd (checkImageUEFICompatible svc project img w) = w\<lparr>ext := e, calls := calls w @ [CallImageGet project img]\<rparr> \<and>
    uefiAnswer q (fst (checkImageUEFICompatible svc project img w))"
  using assms
  by (auto simp: checkImageUEFICompatible_def go_simps uefiAnswer_def hasUEFIFeature_isUEFI split: sum.splits option.splits)

lemma checkFamily_run:
  assumes "ImageFamilyGet svc project zone family (ext w) = (q, e)"
  shows "snd (checkImageFamilyImageUEFICompatible svc project zone family w) =
      w\<lparr>ext := e, calls := calls w @ [CallImageFamilyGet project zone family]\<rparr> \<and>
    uefiAnswer (case q of Inl err \<Rightarrow> Inl err | Inr None \<Rightarrow> Inr None | Inr (Some view) \<Rightarrow> Inr (fv_Image view))
      (fst (checkImageFamilyImageUEFICompatible svc project zone family w))"
  using assms
  by (auto simp: checkImageFamilyImageUEFICompatible_def go_simps uefiAnswer_def hasUEFIFeature_isUEFI
      split: sum.splits option.splits)

context call_frame
begin

lemma obeys_IsUEFICompatible [obeys_intros]:
  assumes "\<And>p i. P (CallImageGet p i)" and "\<And>p z f. P (CallImageFamilyGet p z f)"
  shows "obeys R (IsUEFICompatible svc spec)"
proof -
  have "obeys R (uefiLoop svc spec ds)" for ds
    by (induction ds)
      (auto simp: checkImageUEFICompatible_def checkImageFamilyImageUEFICompatible_def
        intro!: obeys_intros assms)
  then show ?thesis by (simp add: IsUEFICompatible_def)
qed

end

text \<open>
  C38. \<open>IsUEFICompatible\<close> is decided by the first boot disk alone.  Without one it fails, a nil disk
  before it panics, and an image reference that cannot be parsed is an error; in all three cases
  the cloud is asked nothing.  Otherwise there is exactly one request, with the project and the name the
  reference stands for (the provider spec's project for a plain name, the project of the path
  otherwise): for the image, or for the image of the family in the zone of the spec.  An error
  of that request is returned with its cause, and an image that is returned is compatible exactly if
  one of its features is the UEFI feature in any letter case.
\<close>

theorem IsUEFICompatible_spec:
  "case List.find (\<lambda>p. case p of None \<Rightarrow> True | Some d \<Rightarrow> dk_Boot d) (Disks spec) of
     None \<Rightarrow> IsUEFICompatible svc spec w = (Err (PlainError ''no boot disk found''), w)
   | Some None \<Rightarrow> IsUEFICompatible svc spec w = (Crash NilDereference, w)
   | Some (Some d) \<Rightarrow>
      (case parseImageReference (dk_Image d) (ps_ProjectID spec) of
         Inl err \<Rightarrow> IsUEFICompatible svc spec w = (Err (errorfW ''failed to parse disk image reference: '' err), w)
       | Inr ref \<Rightarrow>
          if ir_IsFamily ref
          then (case ImageFamilyGet svc (ir_Project ref) (Zone spec) (ir_Image ref) (ext w) of (q, e) \<Rightarrow>
             snd (IsUEFICompatible svc spec w) =
               w\<lparr>ext := e, calls := calls w @ [CallImageFamilyGet (ir_Project ref) (Zone spec) (ir_Image ref)]\<rparr> \<and>
             uefiAnswer (case q of Inl err \<Rightarrow> Inl err | Inr None \<Rightarrow> Inr None | Inr (Some view) \<Rightarrow> Inr (fv_Image view))
               (fst (IsUEFICompatible svc spec w)))
          else (case ImageGet svc (ir_Project ref) (ir_Image ref) (ext w) of (q, e) \<Rightarrow>
             snd (IsUEFICompatible svc spec w) =
               w\<lparr>ext := e, calls := calls w @ [CallImageGet (ir_Project ref) (ir_Image ref)]\<rparr> \<and>
             uefiAnswer q (fst (IsUEFICompatible svc spec w))))"
proof (cases "List.find decides (Disks spec)")
  case None
  then show ?thesis by (simp add: IsUEFICompatible_def uefiLoop_find [of svc spec "Disks spec"] run_basic flip: decides_def)
next
  case (Some p)
  show ?thesis
  proof (cases p)
    case None
    with Some show ?thesis
      by (simp add: IsUEFICompatible_def uefiLoop_find [of svc spec "Disks spec"] go_simps flip: decides_def)
  next
    case (Some d)
    have find: "List.find decides (Disks spec) = Some (Some d)" using \<open>List.find decides (Disks spec) = Some p\<close> Some by simp
    let ?ref = "parseImageReference (dk_Image d) (ps_ProjectID spec)"
    have run: "IsUEFICompatible svc spec w =
        (case ?ref of
           Inl err \<Rightarrow> (Err (errorfW ''failed to parse disk image reference: '' err), w)
         | Inr ref \<Rightarrow> (if ir_IsFamily ref
             then checkImageFamilyImageUEFICompatible svc (ir_Project ref) (Zone spec) (ir_Image ref) w
             else checkImageUEFICompatible svc (ir_Project ref) (ir_Image ref) w))"
      using find_decides [OF find]
      by (simp add: IsUEFICompatible_def uefiLoop_find [of svc spec "Disks spec"] find go_simps split: sum.splits)
    show ?thesis using find unfolding run
      by (simp add: checkImage_run checkFamily_run flip: decides_def split: sum.split prod.split)
  qed
qed

section \<open>Architecture\<close>

text \<open>
  \<open>CPUArchitecture\<close>: a machine type is arm64 exactly when the part of its name before
  the first hyphen (the whole name if there is none) is one of the three ARM families, and
  amd64 in every other case.
\<close>

theorem CPUArchitecture_spec:
  assumes "CHR ''-'' \<notin> set family"
  shows "CPUArchitecture (family @ ''-'' @ rest) = CPUArchitecture family \<and>
    CPUArchitecture family =
      (if family \<in> {''c4a'', ''n4a'', ''t2a''} then ArchitectureArm64 else ArchitectureAmd64)"
  using cutAt_char [OF assms, of rest] cutAt_char_None [OF assms]
  by (auto simp: CPUArchitecture_def Cut_def machineTypePrefixArchitectureMap_def split: if_splits)

end
