(* ===== verification/Sample.thy ===== *)
theory Sample
  imports Machine_Scope "HOL-Library.List_Lexorder" "HOL-Library.Char_ord"
begin

text \<open>
  A small cluster for concrete runs: a machine with a cluster label, a valid provider spec
  with one boot disk and one network interface, services that answer every request, and a
  client that returns the objects it is given.
\<close>

definition sampleMachine :: Machine where
  "sampleMachine = \<lparr>m_Name = ''worker-0'', m_Namespace = ''openshift-machine-api'', m_UID = ''uid-0'',
     ResourceVersion = ''1'', m_Labels = Some (fmap_of_list [(''machine.openshift.io/cluster-api-cluster'', ''cl'')]),
     m_Annotations = None, SpecLabels = None, ProviderID = None, ProviderSpecValue = Some ''{}'',
     m_Status = \<lparr>Addresses = [], ProviderStatus = None, LastUpdated = None, Phase = None\<rparr>\<rparr>"

definition sampleDisk :: GCPDisk where
  "sampleDisk = \<lparr>dk_AutoDelete = True, dk_Boot = True, dk_SizeGB = 128, dk_Type = ''pd-ssd'',
     dk_Image = ''projects/rhcos/global/images/i'', dk_Labels = None, dk_EncryptionKey = None\<rparr>"

definition sampleSpec :: GCPMachineProviderSpec where
  "sampleSpec = zeroProviderSpec\<lparr>
     ps_MachineType := ''n1-standard-4'', Region := ''r1'', Zone := ''r1-a'', ps_ProjectID := ''p1'',
     Disks := [Some sampleDisk],
     NetworkInterfaces := [Some \<lparr>ni_PublicIP = True, ni_Network = ''net'', ni_ProjectID = '''', ni_Subnetwork = ''sub''\<rparr>],
     TargetPools := [''pool-1''],
     ShieldedInstanceConfig := \<lparr>SecureBoot = ''Enabled'', VirtualizedTrustedPlatformModule = '''', IntegrityMonitoring = ''''\<rparr>\<rparr>"

definition runningInstance :: Instance where
  "runningInstance = zeroInstance\<lparr>in_Name := ''worker-0'', in_Status := ''RUNNING'',
     in_NetworkInterfaces := [\<lparr>cn_Network = ''net'', cn_Subnetwork = ''sub'', NetworkIP = ''10.0.0.1'',
       AccessConfigs = [\<lparr>NatIP = ''35.1.2.3''\<rparr>]\<rparr>]\<rparr>"

definition sampleOperation :: Operation where
  "sampleOperation = \<lparr>op_Status = ''DONE''\<rparr>"

definition sampleService :: "'w GCPComputeService" where
  "sampleService = \<lparr>
     InstancesDelete = (\<lambda>_ _ _ _ e. (Inr (Some sampleOperation), e)),
     InstancesInsert = (\<lambda>_ _ _ e. (Inr (Some sampleOperation), e)),
     InstancesGet = (\<lambda>_ _ _ e. (Inr (Some runningInstance), e)),
     ZonesGet = (\<lambda>_ _ e. (Inr (Some ''r1-a''), e)),
     ZoneOperationsGet = (\<lambda>_ _ _ e. (Inr (Some sampleOperation), e)),
     BasePath = ''https://compute.googleapis.com/compute/v1/'',
     TargetPoolsGet = (\<lambda>_ _ _ e. (Inr (Some \<lparr>tp_Instances = []\<rparr>), e)),
     TargetPoolsAddInstance = (\<lambda>_ _ _ _ e. (Inr (Some sampleOperation), e)),
     TargetPoolsRemoveInstance = (\<lambda>_ _ _ _ e. (Inr (Some sampleOperation), e)),
     MachineTypesGet = (\<lambda>_ _ mt e. (Inr (Some \<lparr>mt_Name = mt, GuestCpus = 4, MemoryMb = 15360, Accelerators = []\<rparr>), e)),
     RegionGet = (\<lambda>_ _ e. (Inr (Some \<lparr>Quotas = []\<rparr>), e)),
     GPUCompatibleMachineTypesList = (\<lambda>_ _. ret (fmempty, [])),
     AcceleratorTypeGet = (\<lambda>_ _ a e. (Inr (Some a), e)),
     ImageGet = (\<lambda>_ _ e. (Inr (Some \<lparr>GuestOsFeatures = [''UEFI_COMPATIBLE'']\<rparr>), e)),
     ImageFamilyGet = (\<lambda>_ _ _ e. (Inr (Some \<lparr>fv_Image = Some \<lparr>GuestOsFeatures = [''UEFI_COMPATIBLE'']\<rparr>\<rparr>), e)),
     InstanceGroupsListInstances = (\<lambda>_ _ _ _ e. (Inr (Some []), e)),
     InstanceGroupsAddInstances = (\<lambda>_ _ _ _ e. (Inr (Some sampleOperation), e)),
     InstanceGroupsRemoveInstances = (\<lambda>_ _ _ _ e. (Inr (Some sampleOperation), e)),
     InstanceGroupInsert = (\<lambda>_ _ _ e. (Inr (Some sampleOperation), e)),
     InstanceGroupGet = (\<lambda>_ _ _ e. (Inr None, e)),
     AddInstanceGroupToBackendService = (\<lambda>_ _ _ _ e. (Inr (Some sampleOperation), e)),
     BackendServiceGet = (\<lambda>_ _ _ e. (Inr (Some \<lparr>Backends = [], bs_Rest = ''''\<rparr>), e))\<rparr>"

definition sampleClient :: "'w Client" where
  "sampleClient = \<lparr>
     GetSecret = (\<lambda>_ _ e. (Inr fmempty, e)),
     GetInfrastructureObject = (\<lambda>_ e. (Inr \<lparr>infra_PlatformStatus = None\<rparr>, e)),
     GetNode = (\<lambda>n e. (Inr \<lparr>node_Name = n, node_Conditions = []\<rparr>, e)),
     UpdateNodeStatus = (\<lambda>_ e. (Inr (), e)),
     GetMachineSet = (\<lambda>ns n e. (Inr \<lparr>set_Name = n, set_Namespace = ns, DeletionTimestamp = None,
        set_Annotations = None, TemplateProviderSpec = Some ''{}''\<rparr>, e)),
     PatchMachineSet = (\<lambda>ms _ e. (Inr ms, e)),
     Patch = (\<lambda>m _ e. (Inr m, e)),
     StatusPatch = (\<lambda>m _ e. (Inr m, e))\<rparr>"

definition sampleTags :: "'w TagService" where
  "sampleTags = \<lparr>GetNamespacedName = (\<lambda>n e. (Inr (Some \<lparr>tv_Parent = ''tagKeys/1'', tv_Name = ''tagValues/1''\<rparr>), e))\<rparr>"

definition sampleLib :: golib where
  "sampleLib = \<lparr>
     marshalSpec = (\<lambda>_. Inr ''{}''), marshalStatus = (\<lambda>_. Inr ''{}''),
     unmarshalSpec = (\<lambda>_. Inr (Some sampleSpec)), unmarshalStatus = (\<lambda>_. Inr zeroProviderStatus),
     unmarshalProjectID = (\<lambda>_. Inr ''p1''), resolveRelative = (\<lambda>b r. Some (b @ r)),
     int32OfFloatOutOfRange = (\<lambda>_. 0), showFloat = (\<lambda>_. ''0''), rangeMap = sorted_list_of_fmap\<rparr>"

definition sampleScope :: "'w machineScope" where
  "sampleScope = \<lparr>coreClient = sampleClient, projectID = ''p1'', providerID = ''gce://p1/r1-a/worker-0'',
     computeSvc = sampleService, machine = sampleMachine, providerSpec = sampleSpec,
     providerStatus = zeroProviderStatus, origMachine = sampleMachine, origProviderStatus = zeroProviderStatus,
     machineToBePatched = sampleMachine, tagSvc = sampleTags\<rparr>"

definition sampleWorld :: "unit world" where
  "sampleWorld = \<lparr>ext = (), calls = [], events = [], metrics = [], wallClock = (\<lambda>_. 7)\<rparr>"

lemmas sample_defs = sampleMachine_def sampleDisk_def sampleSpec_def runningInstance_def sampleOperation_def
  sampleService_def sampleClient_def sampleTags_def sampleLib_def sampleScope_def sampleWorld_def
  zeroProviderSpec_def zeroProviderStatus_def zeroInstance_def zeroShielded_def

end
