(* ===== verification/Reconciler_Create.thy ===== *)
theory Reconciler_Create
  imports Reconciler_State Labels_Tags Images Sample
begin

text \<open>
  \<open>create\<close> of \<open>machine/reconciler.go\<close>: a validated provider spec becomes a compute instance,
  which is inserted once, and the machine then reports what the cloud made of it.  The
  stages below follow the body of the function from top to bottom.
\<close>

section \<open>Windows user data\<close>

definition powershellOpenTag :: string where
  "powershellOpenTag = ''<powershell>''"

definition powershellCloseTag :: string where
  "powershellCloseTag = ''</powershell>'' @ nl @ ''<persist>true</persist>''"

definition HasPowershellTags :: "string \<Rightarrow> bool" where
  "HasPowershellTags target \<longleftrightarrow> HasPrefix target powershellOpenTag \<and> HasSuffix target powershellCloseTag"

definition RemovePowershellTags :: "string \<Rightarrow> string" where
  "RemovePowershellTags target =
     (if \<not> HasPowershellTags target then target
      else TrimSuffix (TrimPrefix target powershellOpenTag) powershellCloseTag)"

definition IsMachineOSWindows :: "Machine \<Rightarrow> bool" where
  "IsMachineOSWindows m =
     (case m_Labels m of None \<Rightarrow> False | Some ls \<Rightarrow> fmlookup ls ''machine.openshift.io/os-id'' = Some ''Windows'')"

section \<open>Building the instance\<close>

definition baseInstance :: "'w machineScope \<Rightarrow> gomap \<Rightarrow> string \<Rightarrow> Instance" where
  "baseInstance r labels provisioningModel =
     (let spec = providerSpec r in
      zeroInstance\<lparr>
        in_CanIpForward := CanIPForward spec,
        in_DeletionProtection := DeletionProtection spec,
        in_Labels := Some labels,
        in_MachineType := ''zones/'' @ Zone spec @ ''/machineTypes/'' @ ps_MachineType spec,
        in_Name := m_Name (machine r),
        in_Tags := Some (ps_Tags spec),
        in_Scheduling := Some \<lparr>sc_Preemptible = Preemptible spec, sc_OnHostMaintenance = OnHostMaintenance spec,
           sc_ProvisioningModel = provisioningModel, AutomaticRestart = None\<rparr>,
        in_ShieldedInstanceConfig := Some \<lparr>EnableSecureBoot = False, EnableVtpm = True,
           EnableIntegrityMonitoring = True, ForceSendFields = []\<rparr>\<rparr>)"

definition startInstance :: "('w, Instance) rec" where
  "startInstance =
     seq (getScope (\<lambda>r. r)) (\<lambda>r.
     seq (onErr (errorfW (''error getting user-defined labels for machine '' @ m_Name (machine r) @ '': ''))
            (onSnd (GetLabelsList (coreClient r) (mapIndex (m_Labels (machine r)) MachineClusterIDLabel)
                      (ps_Labels (providerSpec r))))) (\<lambda>labels.
     seq (onErr (errorfW ''failed to convert provisioning model: '')
            (pureCall (toComputeProvisioningModel (ProvisioningModel (providerSpec r))))) (\<lambda>provisioningModel.
     ret (baseInstance r labels provisioningModel))))"

definition fetchTags :: "('w, gomap ptr) rec" where
  "fetchTags =
     seq (getScope (\<lambda>r. r)) (\<lambda>r.
     onErr (errorfW (''failed to fetch user-defined tags for '' @ m_Name (machine r) @ '': ''))
       (onSnd (GetResourceManagerTags (coreClient r) (tagSvc r) (ResourceManagerTags (providerSpec r)))))"

definition setRestart :: "Instance \<Rightarrow> ('w, Instance) rec" where
  "setRestart inst =
     seq (getScope providerSpec) (\<lambda>spec.
     case restartPolicyToBool (RestartPolicy spec) (Preemptible spec) (ProvisioningModel spec) of
       Inl err \<Rightarrow> raise (InvalidMachineConfiguration (''failed to determine restart policy: '' @ Error err))
     | Inr automaticRestart \<Rightarrow>
         seq (deref (in_Scheduling inst)) (\<lambda>sch.
         ret (inst\<lparr>in_Scheduling := Some (sch\<lparr>AutomaticRestart := automaticRestart\<rparr>)\<rparr>)))"

definition disabledShielded :: GCPShieldedInstanceConfig where
  "disabledShielded = \<lparr>SecureBoot = ''Disabled'', VirtualizedTrustedPlatformModule = ''Disabled'',
     IntegrityMonitoring = ''Disabled''\<rparr>"

definition defaultShielded :: "('w, unit) rec" where
  "defaultShielded =
     seq (getScope (\<lambda>r. r)) (\<lambda>r.
     if ShieldedInstanceConfig (providerSpec r) = zeroShielded
     then seq (onErr (errorfW ''error fetching disk information: '')
                 (onSnd (IsUEFICompatible (computeSvc r) (providerSpec r)))) (\<lambda>uefiCompatible.
          if \<not> uefiCompatible
          then updScope (\<lambda>s. s\<lparr>providerSpec := (providerSpec s)\<lparr>ShieldedInstanceConfig := disabledShielded\<rparr>\<rparr>)
          else ret ())
     else ret ())"

definition applyShielded ::
    "GCPShieldedInstanceConfig \<Rightarrow> ComputeShieldedInstanceConfig \<Rightarrow> ComputeShieldedInstanceConfig" where
  "applyShielded cfg c =
     (let c = (if SecureBoot cfg = ''Enabled'' then c\<lparr>EnableSecureBoot := True\<rparr> else c);
          c = (if VirtualizedTrustedPlatformModule cfg = ''Disabled''
               then c\<lparr>EnableVtpm := False, ForceSendFields := ForceSendFields c @ [''EnableVtpm'']\<rparr> else c);
          c = (if IntegrityMonitoring cfg = ''Disabled''
               then c\<lparr>EnableIntegrityMonitoring := False,
                      ForceSendFields := ForceSendFields c @ [''EnableIntegrityMonitoring'']\<rparr> else c)
      in c)"

definition setShielded :: "Instance \<Rightarrow> ('w, Instance) rec" where
  "setShielded inst =
     seq defaultShielded (\<lambda>_.
     seq (getScope providerSpec) (\<lambda>spec.
     seq (deref (in_ShieldedInstanceConfig inst)) (\<lambda>c.
     ret (inst\<lparr>in_ShieldedInstanceConfig := Some (applyShielded (ShieldedInstanceConfig spec) c)\<rparr>))))"

definition confidentialConfig :: "string \<Rightarrow> error + ConfidentialInstanceConfig ptr" where
  "confidentialConfig policy =
     (if policy \<noteq> '''' \<and> policy \<noteq> ''Disabled''
      then let on = \<lparr>EnableConfidentialCompute = True, ConfidentialInstanceType = ''''\<rparr> in
        if policy = ''Enabled'' then Inr (Some on)
        else if policy = ''AMDEncryptedVirtualization'' then Inr (Some (on\<lparr>ConfidentialInstanceType := ''SEV''\<rparr>))
        else if policy = ''AMDEncryptedVirtualizationNestedPaging''
        then Inr (Some (on\<lparr>ConfidentialInstanceType := ''SEV_SNP''\<rparr>))
        else if policy = ''IntelTrustedDomainExtensions'' then Inr (Some (on\<lparr>ConfidentialInstanceType := ''TDX''\<rparr>))
        else Inl (InvalidMachineConfiguration (''unknown confidentialCompute value '' @ policy))
      else Inr None)"

definition guestAcceleratorConfig :: "string \<Rightarrow> GCPGPUConfig list \<Rightarrow> error + AcceleratorConfig list" where
  "guestAcceleratorConfig zone gpus =
     (case gpus of
        [] \<Rightarrow> Inr []
      | [g] \<Rightarrow> Inr [\<lparr>AcceleratorType = ''zones/'' @ zone @ ''/acceleratorTypes/'' @ gpu_Type g,
                     AcceleratorCount = scast (gpu_Count g)\<rparr>]
      | _ \<Rightarrow> Inl (InvalidMachineConfiguration
              ''More than one type of accelerator provided. Instances support only one accelerator type at a time.''))"

definition sourceImage :: "golib \<Rightarrow> 'w machineScope \<Rightarrow> GCPDisk \<Rightarrow> ('s, string) go" where
  "sourceImage lib r disk =
     (if dk_Image disk \<noteq> ''''
      then if \<not> Contains (dk_Image disk) ''/''
           then (case resolveRelative lib (BasePath (computeSvc r))
                        (''projects/'' @ projectID r @ ''/global/images/'' @ dk_Image disk) of
                   None \<Rightarrow> panic (PanicText ''googleapi: failed to parse'')
                 | Some url \<Rightarrow> ret url)
           else ret (dk_Image disk)
      else if dk_Boot disk then raise (InvalidMachineConfiguration ''boot disk must specify an image'')
      else ret '''')"

definition diskStep ::
    "golib \<Rightarrow> string \<Rightarrow> gomap ptr \<Rightarrow> AttachedDisk list \<Rightarrow> GCPDisk ptr \<Rightarrow> ('w, AttachedDisk list) rec" where
  "diskStep lib zone userTags disks p =
     seq (getScope (\<lambda>r. r)) (\<lambda>r.
     seq (deref p) (\<lambda>disk.
     seq (sourceImage lib r disk) (\<lambda>srcImage.
     seq (onErr (errorfW (''error getting user-defined labels for machine disk '' @ m_Name (machine r) @ '': ''))
            (onSnd (GetLabelsList (coreClient r) (mapIndex (m_Labels (machine r)) MachineClusterIDLabel)
                      (dk_Labels disk)))) (\<lambda>labels.
     ret (disks @ [\<lparr>ad_AutoDelete = dk_AutoDelete disk, ad_Boot = dk_Boot disk,
        InitializeParams = \<lparr>DiskSizeGb = dk_SizeGB disk, DiskType = ''zones/'' @ zone @ ''/diskTypes/'' @ dk_Type disk,
          ip_Labels = labels, ip_ResourceManagerTags = userTags, SourceImage = srcImage\<rparr>,
        DiskEncryptionKey = generateDiskEncryptionKey (dk_EncryptionKey disk) (projectID r)\<rparr>])))))"

definition computeNIC :: "'w machineScope \<Rightarrow> GCPNetworkInterface \<Rightarrow> ComputeNetworkInterface" where
  "computeNIC r nic =
     (let project = (if ni_ProjectID nic = '''' then projectID r else ni_ProjectID nic) in
      \<lparr>cn_Network = (if ni_Network nic \<noteq> '''' then ''projects/'' @ project @ ''/global/networks/'' @ ni_Network nic else ''''),
       cn_Subnetwork = (if ni_Subnetwork nic \<noteq> ''''
         then ''projects/'' @ project @ ''/regions/'' @ Region (providerSpec r) @ ''/subnetworks/'' @ ni_Subnetwork nic
         else ''''),
       NetworkIP = '''',
       AccessConfigs = (if ni_PublicIP nic then [\<lparr>NatIP = ''''\<rparr>] else [])\<rparr>)"

definition nicStep ::
    "ComputeNetworkInterface list \<Rightarrow> GCPNetworkInterface ptr \<Rightarrow> ('w, ComputeNetworkInterface list) rec" where
  "nicStep networkInterfaces p =
     seq (getScope (\<lambda>r. r)) (\<lambda>r.
     seq (deref p) (\<lambda>nic. ret (networkInterfaces @ [computeNIC r nic])))"

definition windowsScriptMetadataKey :: string where
  "windowsScriptMetadataKey = ''sysprep-specialize-script-ps1''"

definition metadataStep :: "string \<Rightarrow> MetadataItem list \<Rightarrow> GCPMetadata ptr \<Rightarrow> ('s, MetadataItem list) go" where
  "metadataStep userdataKey metadataItems p =
     seq (deref p) (\<lambda>metadata.
     if md_Key metadata = userdataKey
     then seq (firstElem metadataItems) (\<lambda>first. ret (first\<lparr>mi_Value := md_Value metadata\<rparr> # tl metadataItems))
     else ret (metadataItems @ [\<lparr>mi_Key = md_Key metadata, mi_Value = md_Value metadata\<rparr>]))"

definition instanceMetadata :: "('w, MetadataItem list) rec" where
  "instanceMetadata =
     seq (onErr (errorfV ''error getting custom user data: '') getCustomUserData) (\<lambda>userData.
     seq (getScope (\<lambda>r. r)) (\<lambda>r.
     let win = IsMachineOSWindows (machine r);
         userdataKey = (if win then windowsScriptMetadataKey else ''user-data'');
         userData = (if win then RemovePowershellTags userData else userData) in
     foldG (metadataStep userdataKey) [\<lparr>mi_Key = userdataKey, mi_Value = Some userData\<rparr>] (Metadata (providerSpec r))))"

definition instanceHead :: "('w, Instance \<times> gomap ptr) rec" where
  "instanceHead =
     seq startInstance (\<lambda>inst.
     seq fetchTags (\<lambda>userTags.
     seq (setRestart (inst\<lparr>in_Params := Some userTags\<rparr>)) (\<lambda>inst.
     seq (setShielded inst) (\<lambda>inst.
     ret (inst, userTags)))))"

definition finishInstance ::
    "Instance \<Rightarrow> ConfidentialInstanceConfig ptr \<Rightarrow> AcceleratorConfig list \<Rightarrow> AttachedDisk list \<Rightarrow>
     ComputeNetworkInterface list \<Rightarrow> GCPServiceAccount list \<Rightarrow> MetadataItem list \<Rightarrow> Instance" where
  "finishInstance inst conf guestAccelerators disks networkInterfaces sas metadataItems =
     inst\<lparr>in_ConfidentialInstanceConfig := conf,
          in_GuestAccelerators := guestAccelerators,
          in_Disks := disks,
          in_NetworkInterfaces := networkInterfaces,
          in_ServiceAccounts := map (\<lambda>sa. \<lparr>sa_Email = sa_Email sa, sa_Scopes = sa_Scopes sa\<rparr>) sas,
          in_Metadata := Some metadataItems\<rparr>"

definition instanceBody :: "golib \<Rightarrow> string \<Rightarrow> gomap ptr \<Rightarrow> Instance \<Rightarrow> ('w, Instance) rec" where
  "instanceBody lib zone userTags inst =
     seq (getScope providerSpec) (\<lambda>spec.
     seq (pureCall (confidentialConfig (ConfidentialCompute spec))) (\<lambda>conf.
     seq (pureCall (guestAcceleratorConfig zone (GPUs spec))) (\<lambda>guestAccelerators.
     seq (validateGuestAccelerators lib) (\<lambda>_.
     seq (foldG (diskStep lib zone userTags) [] (Disks spec)) (\<lambda>disks.
     seq (foldG nicStep [] (NetworkInterfaces spec)) (\<lambda>networkInterfaces.
     seq instanceMetadata (\<lambda>metadataItems.
     ret (finishInstance inst conf guestAccelerators disks networkInterfaces (ServiceAccounts spec) metadataItems))))))))"

definition buildInstance :: "golib \<Rightarrow> string \<Rightarrow> ('w, Instance) rec" where
  "buildInstance lib zone = seq instanceHead (\<lambda>(inst, userTags). instanceBody lib zone userTags inst)"

section \<open>Inserting it\<close>

definition failedCondition :: "error \<Rightarrow> Condition" where
  "failedCondition err = \<lparr>co_Type = ''MachineCreated'', co_Status = ''False'', co_ObservedGeneration = 0,
     co_LastTransitionTime = 0, co_Reason = ''MachineCreationFailed'', co_Message = Error err\<rparr>"

text \<open>The class of error that a failed insert returns.\<close>

definition insertError :: "error \<Rightarrow> error" where
  "insertError err =
     (let other = errorfV ''failed to create instance via compute service: '' err in
      case err of
        GoogleError code msg body details items w \<Rightarrow>
          if HasPrefix (Itoa code) ''4''
          then InvalidMachineConfiguration (''error launching instance: '' @ Error err)
          else other
      | _ \<Rightarrow> other)"

definition insertInstance :: "string \<Rightarrow> Instance \<Rightarrow> ('w, unit) rec" where
  "insertInstance zone inst =
     seq (getScope (\<lambda>r. r)) (\<lambda>r.
     seq (attempt (onSnd (invoke (CallInstancesInsert (projectID r) zone inst)
                            (InstancesInsert (computeSvc r) (projectID r) zone inst)))) (\<lambda>res.
     case res of
       Inl err \<Rightarrow>
         seq (onSnd (registerMetric (FailedInstanceCreate (m_Name (machine r)) (m_Namespace (machine r))
                ''failed to create instance via compute service''))) (\<lambda>_.
         seq (attempt (reconcileMachineWithCloudState (Some (failedCondition err)))) (\<lambda>_.
         raise (insertError err)))
     | Inr _ \<Rightarrow> reconcileMachineWithCloudState None))"

definition create :: "golib \<Rightarrow> ('w, unit) rec" where
  "create lib =
     seq validateOrFail (\<lambda>_.
     seq (getScope (\<lambda>r. Zone (providerSpec r))) (\<lambda>zone.
     seq (buildInstance lib zone) (\<lambda>inst.
     insertInstance zone inst)))"

section \<open>What building the instance may touch\<close>

text \<open>
  All of the stages before the insert read only, register no metric, and keep the scope but
  for the shielded instance config of the provider spec, which \<open>sameButShielded\<close> blanks out.
\<close>

definition sameButShielded :: "'w machineScope \<Rightarrow> 'w machineScope" where
  "sameButShielded s = s\<lparr>providerSpec := (providerSpec s)\<lparr>ShieldedInstanceConfig := zeroShielded\<rparr>\<rparr>"

interpretation building: scope_frame "callsOnly readOnly" readOnly sameButShielded
  by unfold_locales

lemma sameButShieldedD:
  assumes "sameButShielded s' = sameButShielded s"
  obtains c where "s' = s\<lparr>providerSpec := (providerSpec s)\<lparr>ShieldedInstanceConfig := c\<rparr>\<rparr>"
proof -
  have "s' = s\<lparr>providerSpec := (providerSpec s)\<lparr>ShieldedInstanceConfig := ShieldedInstanceConfig (providerSpec s')\<rparr>\<rparr>"
    using assms unfolding sameButShielded_def
    by (cases s; cases s'; cases "providerSpec s"; cases "providerSpec s'") simp
  then show ?thesis by (rule that)
qed

abbreviation buildFrame :: "'w machineScope \<times> 'w world \<Rightarrow> 'w machineScope \<times> 'w world \<Rightarrow> bool" where
  "buildFrame \<equiv> onScope sameButShielded (callsOnly readOnly)"

lemma build_startInstance [obeys_intros, simp]: "obeys buildFrame startInstance"
  unfolding startInstance_def by (intro obeys_intros; simp)

lemma build_fetchTags [obeys_intros, simp]: "obeys buildFrame fetchTags"
  unfolding fetchTags_def by (intro obeys_intros; simp)

lemma build_setRestart [obeys_intros, simp]: "obeys buildFrame (setRestart inst)"
  unfolding setRestart_def by (intro obeys_intros; simp)

lemma build_setShielded [obeys_intros, simp]: "obeys buildFrame (setShielded inst)"
  unfolding setShielded_def defaultShielded_def
  by (intro obeys_intros; simp add: sameButShielded_def)

lemma build_sourceImage [obeys_intros, simp]: "obeys buildFrame (sourceImage lib r disk)"
  unfolding sourceImage_def by (intro obeys_intros)

lemma build_diskStep [obeys_intros, simp]: "obeys buildFrame (diskStep lib zone tags ds p)"
  unfolding diskStep_def by (intro obeys_intros; simp)

lemma build_nicStep [obeys_intros, simp]: "obeys buildFrame (nicStep ns p)"
  unfolding nicStep_def by (intro obeys_intros; simp)

lemma build_metadataStep [obeys_intros, simp]: "obeys buildFrame (metadataStep k items p)"
  unfolding metadataStep_def by (intro obeys_intros; simp)

lemma build_instanceMetadata [obeys_intros, simp]: "obeys buildFrame instanceMetadata"
  unfolding instanceMetadata_def Let_def by (intro obeys_intros; simp)

lemma build_buildInstance [obeys_intros, simp]: "obeys buildFrame (buildInstance lib zone)"
  unfolding buildInstance_def instanceHead_def instanceBody_def by (intro obeys_intros; simp)

section \<open>The insert\<close>

lemma insertInstance_run:
  assumes "InstancesInsert (computeSvc s) (projectID s) zone inst (ext w) = (q, e)"
  defines "w1 \<equiv> w\<lparr>ext := e, calls := calls w @ [CallInstancesInsert (projectID s) zone inst]\<rparr>"
  shows "insertInstance zone inst (s, w) =
    (case q of
       Inl err \<Rightarrow> (Err (insertError err),
         (s\<lparr>providerStatus := (providerStatus s)\<lparr>
              Conditions := reconcileConditions (wallClock w e) (Conditions (providerStatus s)) (failedCondition err)\<rparr>\<rparr>,
          w1\<lparr>metrics := metrics w @ [FailedInstanceCreate (m_Name (machine s)) (m_Namespace (machine s))
               ''failed to create instance via compute service'']\<rparr>))
     | Inr _ \<Rightarrow> reconcileMachineWithCloudState None (s, w1))"
  using assms(1)
  by (auto simp: insertInstance_def go_simps w1_def registerMetric_def reconcileMachineWithCloudState_def
      split: sum.splits)

lemma digitChar_4: "d < 10 \<Longrightarrow> CHR ''4'' = digitChar d \<longleftrightarrow> d = 4"
  unfolding of_char_eq_iff [symmetric, where 'a = nat] digitChar_def by (auto simp: of_char_of)

lemma Itoa_hundreds:
  assumes "100 \<le> code" and "code \<le> 999"
  shows "HasPrefix (Itoa code) ''4'' \<longleftrightarrow> code div 100 = 4"
proof -
  define n where "n = nat code"
  then have n: "code = int n" "100 \<le> n" "n \<le> 999" using assms by simp_all
  then have "showNat n = [digitChar (n div 10 div 10), digitChar (n div 10 mod 10), digitChar (n mod 10)]"
  proof -
    have "\<not> n < 10" "\<not> n div 10 < 10" "n div 10 div 10 < 10" using n by auto
    then show ?thesis
      by (simp add: showNat.simps [of n] showNat.simps [of "n div 10"] showNat.simps [of "n div 10 div 10"])
  qed
  moreover have "n div 10 div 10 = n div 100" by (simp flip: div_mult2_eq)
  moreover have "n div 100 < 10" using n(3) by simp
  moreover have "code div 100 = int (n div 100)" using n(1) by (simp add: zdiv_int)
  ultimately show ?thesis using n(1) by (simp add: Itoa_def HasPrefix_def digitChar_4)
qed

lemma insertError_cases:
  "insertError err = errorfV ''failed to create instance via compute service: '' err \<or>
   insertError err = InvalidMachineConfiguration (''error launching instance: '' @ Error err)"
  by (cases err) (auto simp: insertError_def Let_def)

text \<open>
  For an HTTP status, the textual test of \<open>create\<close> is the test for the class of client
  errors: an insert that fails with status \<open>code\<close> is reported as an invalid configuration
  exactly when \<open>400 \<le> code \<le> 499\<close>.  An error that is not a \<open>googleapi.Error\<close>, wrapped ones
  included, never is.
\<close>

theorem insertError_class:
  assumes "100 \<le> code" and "code \<le> 999"
  shows "(isInvalidMachineConfigurationError (Some (insertError (GoogleError code msg body details items inner)))
            \<longleftrightarrow> 400 \<le> code \<and> code \<le> 499) \<and>
         \<not> isInvalidMachineConfigurationError (Some (insertError (WrapError txt err)))"
proof -
  have "code div 100 = 4 \<longleftrightarrow> 400 \<le> code \<and> code \<le> 499" by presburger
  with Itoa_hundreds [OF assms] show ?thesis by (simp add: insertError_def Let_def)
qed

theorem insertError_class_witness:
  "isInvalidMachineConfigurationError (Some (insertError (GoogleError 403 [] [] [] [] None))) \<and>
   \<not> isInvalidMachineConfigurationError (Some (insertError (GoogleError 500 [] [] [] [] None)))"
  using insertError_class [of 403] insertError_class [of 500] by simp

section \<open>The metadata\<close>

definition toItem :: "GCPMetadata \<Rightarrow> MetadataItem" where
  "toItem m = \<lparr>mi_Key = md_Key m, mi_Value = md_Value m\<rparr>"

definition lastOverride :: "string \<Rightarrow> string ptr \<Rightarrow> GCPMetadata list \<Rightarrow> string ptr" where
  "lastOverride k v ms = (case rev (filter (\<lambda>m. md_Key m = k) ms) of [] \<Rightarrow> v | m # _ \<Rightarrow> md_Value m)"

lemma lastOverride_simps [simp]:
  "lastOverride k v [] = v"
  "lastOverride k v (m # ms) = lastOverride k (if md_Key m = k then md_Value m else v) ms"
  by (simp_all add: lastOverride_def split: list.splits)

lemma metadata_run:
  "foldG (metadataStep k) (\<lparr>mi_Key = k, mi_Value = v\<rparr> # its) (map Some ms) st =
     (Ok (\<lparr>mi_Key = k, mi_Value = lastOverride k v ms\<rparr> # its @ map toItem (filter (\<lambda>m. md_Key m \<noteq> k) ms)), st)"
  by (induction ms arbitrary: v its) (simp_all add: metadataStep_def toItem_def go_simps)

lemma metadata_not_nil:
  "foldG (metadataStep k) its ps st = (Ok r, st') \<Longrightarrow> \<exists>ms. ps = map Some ms"
proof (induction ps arbitrary: its st)
  case (Cons p ps)
  then obtain m its' u where "p = Some m" and "foldG (metadataStep k) its' ps u = (Ok r, st')"
    by (cases p) (auto simp: metadataStep_def [of k its None] seq_Ok_iff run_basic)
  with Cons.IH [of its' u] obtain ms where "p # ps = map Some (m # ms)" by auto
  then show ?case by (rule exI)
qed simp

text \<open>
  C34. The metadata of the instance has exactly one item under the user data key, and it comes
  first: it holds the user's last metadata entry under that key if there is one and the user
  data of the secret otherwise (for a Windows machine without its powershell tags, under
  the key of the boot script).  All other metadata entries follow unchanged in the order
  of the provider spec.
\<close>

theorem instanceMetadata_spec:
  assumes "instanceMetadata (s, w) = (Ok items, (s', w'))"
  defines "k \<equiv> (if IsMachineOSWindows (machine s) then ''sysprep-specialize-script-ps1'' else ''user-data'')"
  shows "\<exists>userData ms. getCustomUserData (s, w) = (Ok userData, (s, w')) \<and>
     Metadata (providerSpec s) = map Some ms \<and>
     items = \<lparr>mi_Key = k, mi_Value = lastOverride k
                (Some (if IsMachineOSWindows (machine s) then RemovePowershellTags userData else userData)) ms\<rparr>
             # map toItem (filter (\<lambda>m. md_Key m \<noteq> k) ms) \<and>
     length (filter (\<lambda>i. mi_Key i = k) items) = 1"
proof -
  obtain ud t v where ud: "getCustomUserData (s, w) = (Ok ud, (t, v))"
    and fold: "foldG (metadataStep k) [\<lparr>mi_Key = k, mi_Value =
        Some (if IsMachineOSWindows (machine t) then RemovePowershellTags ud else ud)\<rparr>]
        (Metadata (providerSpec t)) (t, v) = (Ok items, (s', w'))" and t: "t = s"
    using assms(1) unfolding instanceMetadata_def k_def windowsScriptMetadataKey_def Let_def
    by (auto simp: seq_Ok_iff scope_run getCustomUserData_def Let_def run_basic onSnd_run onErr_run
        split: option.splits prod.splits outcome.splits)
  obtain ms where ms: "Metadata (providerSpec t) = map Some ms" using metadata_not_nil [OF fold] by blast
  have "filter (\<lambda>i. mi_Key i = k) (map toItem (filter (\<lambda>m. md_Key m \<noteq> k) ms)) = []"
    by (auto simp: filter_empty_conv toItem_def)
  with fold ud ms t show ?thesis
    by (intro exI [of _ ud] exI [of _ ms]) (auto simp: metadata_run)
qed

section \<open>The instance\<close>

lemma GetLabelsList_owned:
  "GetLabelsList client cid ls w = (Ok labels, w') \<Longrightarrow> fmlookup labels (ocpLabelKey cid) = Some ''owned''"
  by (auto simp: GetLabelsList_def Let_def seq_Ok_iff run_basic fmlookup_mergeLabels layer_OCP split: if_splits)

lemma startInstance_Ok:
  assumes "startInstance (s, w) = (Ok inst, st)"
  obtains labels model w' where "st = (s, w')" "inst = baseInstance s labels model"
    "toComputeProvisioningModel (ProvisioningModel (providerSpec s)) = Inr model"
    "fmlookup labels (ocpLabelKey (mapIndex (m_Labels (machine s)) MachineClusterIDLabel)) = Some ''owned''"
  using assms by (auto simp: startInstance_def run_Ok dest: GetLabelsList_owned)

lemma fetchTags_Ok: "fetchTags (s, w) = (Ok tags, st) \<Longrightarrow> \<exists>w'. st = (s, w')"
  by (auto simp: fetchTags_def run_Ok)

lemma setRestart_Ok:
  assumes "setRestart inst (s, w) = (Ok inst', st)"
  obtains sch restart where "st = (s, w)" "in_Scheduling inst = Some sch"
    "inst' = inst\<lparr>in_Scheduling := Some (sch\<lparr>AutomaticRestart := restart\<rparr>)\<rparr>"
    "restartPolicyToBool (RestartPolicy (providerSpec s)) (Preemptible (providerSpec s))
       (ProvisioningModel (providerSpec s)) = Inr restart"
  using assms by (auto simp: setRestart_def run_Ok split: sum.splits)

lemma setShielded_Ok:
  assumes "setShielded inst (s, w) = (Ok inst', st)"
  obtains c cfg w' where "st = (s\<lparr>providerSpec := (providerSpec s)\<lparr>ShieldedInstanceConfig := cfg\<rparr>\<rparr>, w')"
    "in_ShieldedInstanceConfig inst = Some c" "inst' = inst\<lparr>in_ShieldedInstanceConfig := Some (applyShielded cfg c)\<rparr>"
    "cfg = ShieldedInstanceConfig (providerSpec s) \<or>
     ShieldedInstanceConfig (providerSpec s) = zeroShielded \<and> cfg = disabledShielded \<and>
     fst (IsUEFICompatible (computeSvc s) (providerSpec s) w) = Ok False"
proof -
  obtain t v c where d: "defaultShielded (s, w) = (Ok (), (t, v))" and c: "in_ShieldedInstanceConfig inst = Some c"
    and st: "st = (t, v)" "inst' = inst\<lparr>in_ShieldedInstanceConfig := Some (applyShielded (ShieldedInstanceConfig (providerSpec t)) c)\<rparr>"
    using assms by (auto simp: setShielded_def run_Ok)
  have "t = s \<or> ShieldedInstanceConfig (providerSpec s) = zeroShielded \<and>
      t = s\<lparr>providerSpec := (providerSpec s)\<lparr>ShieldedInstanceConfig := disabledShielded\<rparr>\<rparr> \<and>
      fst (IsUEFICompatible (computeSvc s) (providerSpec s) w) = Ok False"
    using d by (auto simp: defaultShielded_def run_Ok updScope_def split: if_splits)
  then show ?thesis
  proof
    assume "t = s"
    with c st show ?thesis by (intro that [of "ShieldedInstanceConfig (providerSpec s)" v c]) simp_all
  next
    assume "ShieldedInstanceConfig (providerSpec s) = zeroShielded \<and>
      t = s\<lparr>providerSpec := (providerSpec s)\<lparr>ShieldedInstanceConfig := disabledShielded\<rparr>\<rparr> \<and>
      fst (IsUEFICompatible (computeSvc s) (providerSpec s) w) = Ok False"
    with c st show ?thesis by (intro that [of disabledShielded v c]) simp_all
  qed
qed

text \<open>What a disk of the provider spec becomes.\<close>

definition attached :: "golib \<Rightarrow> 'w machineScope \<Rightarrow> string \<Rightarrow> gomap ptr \<Rightarrow> GCPDisk ptr \<Rightarrow> AttachedDisk \<Rightarrow> bool" where
  "attached lib s zone tags p d \<longleftrightarrow> (\<exists>disk labels.
     p = Some disk \<and> (dk_Boot disk \<longrightarrow> dk_Image disk \<noteq> '''') \<and>
     fmlookup labels (ocpLabelKey (mapIndex (m_Labels (machine s)) MachineClusterIDLabel)) = Some ''owned'' \<and>
     ad_Boot d = dk_Boot disk \<and> ad_AutoDelete d = dk_AutoDelete disk \<and>
     DiskEncryptionKey d = generateDiskEncryptionKey (dk_EncryptionKey disk) (projectID s) \<and>
     InitializeParams d = \<lparr>DiskSizeGb = dk_SizeGB disk, DiskType = ''zones/'' @ zone @ ''/diskTypes/'' @ dk_Type disk,
       ip_Labels = labels, ip_ResourceManagerTags = tags,
       SourceImage = (if Contains (dk_Image disk) ''/'' \<or> dk_Image disk = '''' then dk_Image disk
         else the (resolveRelative lib (BasePath (computeSvc s))
                     (''projects/'' @ projectID s @ ''/global/images/'' @ dk_Image disk)))\<rparr>)"

lemma sourceImage_Ok:
  "sourceImage lib s disk st = (Ok img, st') \<Longrightarrow>
   st' = st \<and> (dk_Boot disk \<longrightarrow> dk_Image disk \<noteq> '''') \<and>
   img = (if Contains (dk_Image disk) ''/'' \<or> dk_Image disk = '''' then dk_Image disk
          else the (resolveRelative lib (BasePath (computeSvc s))
                     (''projects/'' @ projectID s @ ''/global/images/'' @ dk_Image disk)))"
  by (auto simp: sourceImage_def run_basic split: if_splits option.splits)

lemma diskStep_Ok:
  assumes "diskStep lib zone tags ds p (s, w) = (Ok ds', st)"
  obtains d w' where "st = (s, w')" "ds' = ds @ [d]" "attached lib s zone tags p d"
  using assms unfolding diskStep_def
  by (auto simp: run_Ok attached_def dest!: sourceImage_Ok GetLabelsList_owned split: if_splits)

lemma disks_Ok:
  assumes "foldG (diskStep lib zone tags) ds ps (s, w) = (Ok ds', st)"
  shows "\<exists>new w'. st = (s, w') \<and> ds' = ds @ new \<and> list_all2 (attached lib s zone tags) ps new"
  using assms
proof (induction ps arbitrary: ds w)
  case (Cons p ps)
  then obtain d u where d: "attached lib s zone tags p d"
    and rest: "foldG (diskStep lib zone tags) (ds @ [d]) ps (s, u) = (Ok ds', st)"
    by (auto simp: seq_Ok_iff elim: diskStep_Ok)
  from Cons.IH [OF rest] obtain new w' where "st = (s, w')" "ds' = ds @ d # new"
    "list_all2 (attached lib s zone tags) ps new" by auto
  with d show ?case by (intro exI [of _ "d # new"] exI [of _ w']) simp
qed (auto simp: run_basic)

lemma nics_Ok:
  assumes "foldG nicStep ns ps (s, w) = (Ok ns', st)"
  shows "st = (s, w) \<and> (\<exists>nics. ps = map Some nics \<and> ns' = ns @ map (computeNIC s) nics)"
  using assms
proof (induction ps arbitrary: ns)
  case (Cons p ps)
  then obtain nic where p: "p = Some nic" and rest: "foldG nicStep (ns @ [computeNIC s nic]) ps (s, w) = (Ok ns', st)"
    by (auto simp: nicStep_def [of ns p] run_Ok)
  from Cons.IH [OF rest] obtain nics where "st = (s, w)" "ps = map Some nics" "ns' = ns @ computeNIC s nic # map (computeNIC s) nics"
    by auto
  with p show ?case by (intro conjI exI [of _ "nic # nics"]) simp_all
qed (simp add: run_basic)

text \<open>The shielded config an instance starts from.\<close>

definition defaultComputeShielded :: ComputeShieldedInstanceConfig where
  "defaultComputeShielded = \<lparr>EnableSecureBoot = False, EnableVtpm = True,
     EnableIntegrityMonitoring = True, ForceSendFields = []\<rparr>"

text \<open>What the instance must say about the machine: the part made first, then the rest.\<close>

definition describesHead :: "'w machineScope \<Rightarrow> Instance \<Rightarrow> bool" where
  "describesHead s inst \<longleftrightarrow>
     (let spec = providerSpec s in
      in_Name inst = m_Name (machine s) \<and>
      in_MachineType inst = ''zones/'' @ Zone spec @ ''/machineTypes/'' @ ps_MachineType spec \<and>
      (\<exists>labels. in_Labels inst = Some labels \<and>
         fmlookup labels (ocpLabelKey (mapIndex (m_Labels (machine s)) MachineClusterIDLabel)) = Some ''owned'') \<and>
      (\<exists>model restart. toComputeProvisioningModel (ProvisioningModel spec) = Inr model \<and>
         restartPolicyToBool (RestartPolicy spec) (Preemptible spec) (ProvisioningModel spec) = Inr restart \<and>
         in_Scheduling inst = Some \<lparr>sc_Preemptible = Preemptible spec, sc_OnHostMaintenance = OnHostMaintenance spec,
           sc_ProvisioningModel = model, AutomaticRestart = restart\<rparr>) \<and>
      (\<exists>cfg. in_ShieldedInstanceConfig inst = Some (applyShielded cfg defaultComputeShielded) \<and>
         (cfg = ShieldedInstanceConfig spec \<or> ShieldedInstanceConfig spec = zeroShielded \<and> cfg = disabledShielded)))"

definition describesBody :: "golib \<Rightarrow> 'w machineScope \<Rightarrow> gomap ptr \<Rightarrow> Instance \<Rightarrow> bool" where
  "describesBody lib s tags inst \<longleftrightarrow>
     (let spec = providerSpec s; zone = Zone spec in
      in_Params inst = Some tags \<and>
      confidentialConfig (ConfidentialCompute spec) = Inr (in_ConfidentialInstanceConfig inst) \<and>
      guestAcceleratorConfig zone (GPUs spec) = Inr (in_GuestAccelerators inst) \<and>
      list_all2 (attached lib s zone tags) (Disks spec) (in_Disks inst) \<and>
      (\<exists>nics. NetworkInterfaces spec = map Some nics \<and> in_NetworkInterfaces inst = map (computeNIC s) nics) \<and>
      in_ServiceAccounts inst = ServiceAccounts spec)"

lemma instanceHead_Ok:
  assumes "instanceHead (s, w) = (Ok (inst, tags), st)"
  obtains cfg w' where "st = (s\<lparr>providerSpec := (providerSpec s)\<lparr>ShieldedInstanceConfig := cfg\<rparr>\<rparr>, w')"
    "in_Params inst = Some tags" "describesHead s inst"
proof -
  obtain i1 i2 x1 x2 x3 where run:
    "startInstance (s, w) = (Ok i1, x1)" "fetchTags x1 = (Ok tags, x2)"
    "setRestart (i1\<lparr>in_Params := Some tags\<rparr>) x2 = (Ok i2, x3)" "setShielded i2 x3 = (Ok inst, st)"
    using assms unfolding instanceHead_def by (auto simp: seq_Ok_iff run_basic)
  obtain labels model w1 where 1: "x1 = (s, w1)" "i1 = baseInstance s labels model"
    "toComputeProvisioningModel (ProvisioningModel (providerSpec s)) = Inr model"
    "fmlookup labels (ocpLabelKey (mapIndex (m_Labels (machine s)) MachineClusterIDLabel)) = Some ''owned''"
    using run(1) by (rule startInstance_Ok)
  obtain w2 where 2: "x2 = (s, w2)" using fetchTags_Ok run(2) 1(1) by blast
  obtain sch restart where 3: "x3 = (s, w2)" "in_Scheduling (i1\<lparr>in_Params := Some tags\<rparr>) = Some sch"
    "i2 = i1\<lparr>in_Params := Some tags, in_Scheduling := Some (sch\<lparr>AutomaticRestart := restart\<rparr>)\<rparr>"
    "restartPolicyToBool (RestartPolicy (providerSpec s)) (Preemptible (providerSpec s))
       (ProvisioningModel (providerSpec s)) = Inr restart"
    using run(3) unfolding 2 by (rule setRestart_Ok)
  obtain c cfg w4 where 4: "st = (s\<lparr>providerSpec := (providerSpec s)\<lparr>ShieldedInstanceConfig := cfg\<rparr>\<rparr>, w4)"
    "in_ShieldedInstanceConfig i2 = Some c" "inst = i2\<lparr>in_ShieldedInstanceConfig := Some (applyShielded cfg c)\<rparr>"
    "cfg = ShieldedInstanceConfig (providerSpec s) \<or>
     ShieldedInstanceConfig (providerSpec s) = zeroShielded \<and> cfg = disabledShielded"
    using run(4) unfolding 3(1) by (rule setShielded_Ok) blast
  have "describesHead s inst"
    using 1 3 4 by (auto simp: describesHead_def baseInstance_def defaultComputeShielded_def Let_def)
  with 3 4 show ?thesis by (intro that) simp_all
qed

interpretation untouched: scope_frame "callsOnly readOnly" readOnly "\<lambda>s. s"
  by unfold_locales

lemma validateGuestAccelerators_Ok:
  assumes "validateGuestAccelerators lib (t, w) = (Ok x, st)"
  shows "\<exists>w'. st = (t, w')"
proof -
  have "obeys (onScope (\<lambda>s. s) (callsOnly readOnly)) (validateGuestAccelerators lib)"
    by (intro untouched.obeys_validateGuestAccelerators) simp_all
  from obeysD [OF this assms] show ?thesis by (cases st) (simp add: onScope_def)
qed

lemma instanceBody_Ok:
  assumes "instanceBody lib (Zone (providerSpec t)) tags i (t, w) = (Ok inst, st)" and "in_Params i = Some tags"
  shows "describesBody lib t tags inst \<and> (describesHead s i \<longrightarrow> describesHead s inst)"
proof -
  let ?z = "Zone (providerSpec t)"
  obtain spec conf accs ds ns its u a b y0 y1 y2 y3 y4 where
    spec: "getScope providerSpec (t, w) = (Ok spec, u)"
    and conf: "pureCall (confidentialConfig (ConfidentialCompute spec)) u = (Ok conf, a)"
    and accs: "pureCall (guestAcceleratorConfig ?z (GPUs spec)) a = (Ok accs, b)"
    and gpu: "validateGuestAccelerators lib b = (Ok y0, y1)"
    and disks: "foldG (diskStep lib ?z tags) [] (Disks spec) y1 = (Ok ds, y2)"
    and nics: "foldG nicStep [] (NetworkInterfaces spec) y2 = (Ok ns, y3)"
    and "instanceMetadata y3 = (Ok its, y4)"
    and fin: "ret (finishInstance i conf accs ds ns (ServiceAccounts spec) its) y4 = (Ok inst, st)"
    using assms(1) unfolding instanceBody_def by (elim seq_OkE) (rule that)
  from spec have [simp]: "spec = providerSpec t" "u = (t, w)" by (simp_all add: scope_Ok_iff)
  from conf have c: "confidentialConfig (ConfidentialCompute (providerSpec t)) = Inr conf" and [simp]: "a = (t, w)"
    by (simp_all add: pureCall_Ok_iff)
  from accs have g: "guestAcceleratorConfig ?z (GPUs (providerSpec t)) = Inr accs" and [simp]: "b = (t, w)"
    by (simp_all add: pureCall_Ok_iff)
  obtain w1 where [simp]: "y1 = (t, w1)" using validateGuestAccelerators_Ok [of lib t w y0 y1] gpu by auto
  obtain w2 where [simp]: "y2 = (t, w2)" and d: "list_all2 (attached lib t ?z tags) (Disks (providerSpec t)) ds"
    using disks_Ok [of lib ?z tags "[]" _ t w1 ds y2] disks by auto
  have n: "\<exists>nics. NetworkInterfaces (providerSpec t) = map Some nics \<and> ns = map (computeNIC t) nics"
    using nics_Ok [of "[]" _ t w2 ns y3] nics by auto
  have "map (\<lambda>sa. \<lparr>sa_Email = sa_Email sa, sa_Scopes = sa_Scopes sa\<rparr>) sas = sas" for sas
    by (induction sas) simp_all
  with c g d n assms(2) fin show ?thesis
    by (auto simp: run_basic finishInstance_def describesBody_def describesHead_def Let_def)
qed

lemma describesBody_shielded:
  "describesBody lib (s\<lparr>providerSpec := (providerSpec s)\<lparr>ShieldedInstanceConfig := cfg\<rparr>\<rparr>) tags inst =
   describesBody lib s tags inst"
proof -
  have "attached lib (s\<lparr>providerSpec := (providerSpec s)\<lparr>ShieldedInstanceConfig := cfg\<rparr>\<rparr>) = attached lib s"
    by (intro ext) (simp add: attached_def)
  moreover have "computeNIC (s\<lparr>providerSpec := (providerSpec s)\<lparr>ShieldedInstanceConfig := cfg\<rparr>\<rparr>) = computeNIC s"
    by (intro ext) (simp add: computeNIC_def Let_def)
  ultimately show ?thesis by (simp add: describesBody_def Let_def)
qed

lemma buildInstance_describes:
  assumes "buildInstance lib (Zone (providerSpec s)) (s, w) = (Ok inst, st)"
  shows "describesHead s inst \<and> (\<exists>tags. describesBody lib s tags inst)"
proof -
  obtain i tags x where head: "instanceHead (s, w) = (Ok (i, tags), x)"
    and body: "instanceBody lib (Zone (providerSpec s)) tags i x = (Ok inst, st)"
    using assms by (auto simp: buildInstance_def seq_Ok_iff)
  from head obtain cfg w' where
    x: "x = (s\<lparr>providerSpec := (providerSpec s)\<lparr>ShieldedInstanceConfig := cfg\<rparr>\<rparr>, w')"
    and i: "in_Params i = Some tags" "describesHead s i" by (rule instanceHead_Ok)
  from body [unfolded x] i(1) show ?thesis
    using instanceBody_Ok [of lib "s\<lparr>providerSpec := (providerSpec s)\<lparr>ShieldedInstanceConfig := cfg\<rparr>\<rparr>" tags i w' inst st s] i(2)
    by (auto simp: describesBody_shielded)
qed

section \<open>Create\<close>

lemma validateOrFail_run:
  "validateOrFail (s, w) =
    (case validateMachine (machine s) (providerSpec s) of
       None \<Rightarrow> (Ok (), (s, w))
     | Some err \<Rightarrow> (Err (InvalidMachineConfiguration (''failed validating machine provider spec: '' @ Error err)), (s, w)))"
  by (simp add: validateOrFail_def go_simps split: option.splits)

lemma create_run:
  "create lib (s, w) =
    (case validateMachine (machine s) (providerSpec s) of
       Some err \<Rightarrow> (Err (InvalidMachineConfiguration (''failed validating machine provider spec: '' @ Error err)), (s, w))
     | None \<Rightarrow>
         (case buildInstance lib (Zone (providerSpec s)) (s, w) of
            (Ok inst, st) \<Rightarrow> insertInstance (Zone (providerSpec s)) inst st
          | (Err e, st) \<Rightarrow> (Err e, st)
          | (Crash c, st) \<Rightarrow> (Crash c, st)))"
  by (simp add: create_def seq_run validateOrFail_run scope_run split: option.splits)

lemma buildInstance_frame:
  assumes "buildInstance lib z (s, w) = (r, (s', w'))"
  obtains cfg reads where "s' = s\<lparr>providerSpec := (providerSpec s)\<lparr>ShieldedInstanceConfig := cfg\<rparr>\<rparr>"
    "calls w' = calls w @ reads" "list_all readOnly reads" "events w' = events w" "metrics w' = metrics w"
    "wallClock w' = wallClock w"
proof -
  have "buildFrame (s, w) (s', w')" using obeysD [OF build_buildInstance assms] .
  then have same: "sameButShielded s' = sameButShielded s" and "callsOnly readOnly w w'" by (simp_all add: onScope_def)
  then obtain reads where "calls w' = calls w @ reads" "list_all readOnly reads" "events w' = events w"
    "metrics w' = metrics w" "wallClock w' = wallClock w" by (auto simp: callsOnly_def)
  with same show ?thesis by (elim sameButShieldedD) (rule that)
qed

text \<open>What the readers of a status find under \<open>MachineCreated\<close>.\<close>

definition reportsCreated :: "GCPMachineProviderStatus \<Rightarrow> string \<Rightarrow> string \<Rightarrow> string \<Rightarrow> bool" where
  "reportsCreated st status reason msg \<longleftrightarrow>
     (\<exists>c. conditionOf (Conditions st) ''MachineCreated'' = Some c \<and>
        co_Status c = status \<and> co_Reason c = reason \<and> co_Message c = msg)"

lemma reportsCreated:
  assumes "Conditions st = reconcileConditions now cs new" and "co_Type new = ''MachineCreated''"
  shows "reportsCreated st (co_Status new) (co_Reason new) (co_Message new)"
  using reconcileConditions_settles [of new now cs] assms
  by (auto simp: reportsCreated_def saysCondition_def conditionOf_def shouldUpdateCondition_def split: option.splits)

lemma reports_intros:
  "Conditions st = reconcileConditions now cs (failedCondition err) \<Longrightarrow>
     reportsCreated st ''False'' ''MachineCreationFailed'' (Error err)"
  "Conditions st = reconcileConditions now cs succeedCondition \<Longrightarrow>
     reportsCreated st ''True'' ''MachineCreationSucceeded'' ''machine successfully created''"
  using reportsCreated [of st now cs "failedCondition err"] reportsCreated [of st now cs succeedCondition]
  by (simp_all add: failedCondition_def succeedCondition_def)

text \<open>
  The three ways \<open>create\<close> can go, in terms of the calls it makes: it fails before the insert; the
  insert is refused with \<open>err\<close>; or it is accepted, and \<open>found\<close> is the answer to the lookup after it.
\<close>

definition createFailedEarly :: "'w machineScope \<Rightarrow> 'w world \<Rightarrow> call list \<Rightarrow> unit outcome \<Rightarrow> 'w machineScope \<Rightarrow> 'w world \<Rightarrow> bool" where
  "createFailedEarly s w reads r s' w' \<longleftrightarrow>
     r \<noteq> Ok () \<and> calls w' = calls w @ reads \<and> metrics w' = metrics w \<and>
     machine s' = machine s \<and> providerStatus s' = providerStatus s"

definition clientError :: "error \<Rightarrow> bool" where
  "clientError err = (case err of GoogleError code msg body details items inner \<Rightarrow> 400 \<le> code \<and> code \<le> 499 | _ \<Rightarrow> False)"

definition httpStatus :: "error \<Rightarrow> bool" where
  "httpStatus err = (case err of GoogleError code msg body details items inner \<Rightarrow> 100 \<le> code \<and> code \<le> 999 | _ \<Rightarrow> True)"

definition createRejected ::
    "'w machineScope \<Rightarrow> 'w world \<Rightarrow> call list \<Rightarrow> Instance \<Rightarrow> error \<Rightarrow> unit outcome \<Rightarrow> 'w machineScope \<Rightarrow> 'w world \<Rightarrow> bool" where
  "createRejected s w reads inst err r s' w' \<longleftrightarrow>
     (\<exists>e. r = Err e \<and> (httpStatus err \<longrightarrow> isInvalidMachineConfigurationError (Some e) = clientError err)) \<and>
     reportsCreated (providerStatus s') ''False'' ''MachineCreationFailed'' (Error err) \<and>
     calls w' = calls w @ reads @ [CallInstancesInsert (projectID s) (Zone (providerSpec s)) inst] \<and>
     metrics w' = metrics w @ [FailedInstanceCreate (m_Name (machine s)) (m_Namespace (machine s))
       ''failed to create instance via compute service''] \<and> machine s' = machine s"

definition createAccepted ::
    "'w machineScope \<Rightarrow> 'w world \<Rightarrow> call list \<Rightarrow> Instance \<Rightarrow> error + Instance ptr \<Rightarrow> unit outcome \<Rightarrow> 'w machineScope \<Rightarrow> 'w world \<Rightarrow> bool" where
  "createAccepted s w reads inst found r s' w' \<longleftrightarrow>
     calls w' = calls w @ reads @ [CallInstancesInsert (projectID s) (Zone (providerSpec s)) inst,
       CallInstancesGet (projectID s) (Zone (providerSpec s)) (m_Name (machine s))] \<and>
     metrics w' = metrics w \<and>
     (r = Ok () \<longleftrightarrow> (\<exists>i. found = Inr (Some i) \<and> in_NetworkInterfaces i \<noteq> [] \<and> in_Status i = ''RUNNING'')) \<and>
     (r = Ok () \<longrightarrow> ProviderID (machine s') = Some (providerID s) \<and>
        InstanceState (providerStatus s') = Some ''RUNNING'' \<and>
        reportsCreated (providerStatus s') ''True'' ''MachineCreationSucceeded'' ''machine successfully created'')"

lemma insertError_clientError:
  "httpStatus err \<Longrightarrow> isInvalidMachineConfigurationError (Some (insertError err)) = clientError err"
proof (cases err)
  case (GoogleError code msg body details items inner)
  assume "httpStatus err"
  with GoogleError show ?thesis using insertError_class [of code msg body details items inner]
    by (simp add: httpStatus_def clientError_def)
qed (simp_all add: insertError_def clientError_def Let_def)

lemma reconcile_accepted:
  assumes "reconcileMachineWithCloudState None (s, w) = (r, (s', w'))"
  shows "calls w' = calls w @ [CallInstancesGet (projectID s) (Zone (providerSpec s)) (m_Name (machine s))] \<and>
    metrics w' = metrics w \<and> events w' = events w \<and>
    (r = Ok () \<longrightarrow> ProviderID (machine s') = Some (providerID s) \<and>
       InstanceState (providerStatus s') = Some ''RUNNING'' \<and>
       saysCondition succeedCondition (Conditions (providerStatus s')))"
proof -
  obtain q e where g: "InstancesGet (computeSvc s) (projectID s) (Zone (providerSpec s)) (m_Name (machine s)) (ext w) = (q, e)"
    by force
  show ?thesis
    using assms unfolding reconcile_run [OF g]
    by (auto simp: reportedScope_def specificsMachine_def Let_def reconcileConditions_settles
        split: sum.splits option.splits list.splits if_splits)
qed

lemma reconcile_answered:
  assumes "InstancesGet (computeSvc s) (projectID s) (Zone (providerSpec s)) (m_Name (machine s)) (ext w) = (found, e)"
    and "reconcileMachineWithCloudState None (s, w) = (r, (s', w'))"
  shows "calls w' = calls w @ [CallInstancesGet (projectID s) (Zone (providerSpec s)) (m_Name (machine s))] \<and>
    metrics w' = metrics w \<and>
    (r = Ok () \<longleftrightarrow> (\<exists>i. found = Inr (Some i) \<and> in_NetworkInterfaces i \<noteq> [] \<and> in_Status i = ''RUNNING'')) \<and>
    (r = Ok () \<longrightarrow> ProviderID (machine s') = Some (providerID s) \<and>
       InstanceState (providerStatus s') = Some ''RUNNING'' \<and>
       reportsCreated (providerStatus s') ''True'' ''MachineCreationSucceeded'' ''machine successfully created'')"
  using assms(2) unfolding reconcile_run [OF assms(1)]
  by (auto simp: reportedScope_def specificsMachine_def Let_def intro!: reports_intros
      split: sum.splits option.splits list.splits if_splits)

lemma insert_ways:
  assumes "insertInstance (Zone (providerSpec s)) inst (t, v) = (r, (s', w'))"
    and "t = s\<lparr>providerSpec := (providerSpec s)\<lparr>ShieldedInstanceConfig := cfg\<rparr>\<rparr>"
    and "calls v = calls w @ reads" and "metrics v = metrics w"
    and "InstancesInsert (computeSvc s) (projectID s) (Zone (providerSpec s)) inst (ext v) = (q, e)"
  shows "case q of
      Inl err \<Rightarrow> createRejected s w reads inst err r s' w'
    | Inr _ \<Rightarrow> createAccepted s w reads inst
        (fst (InstancesGet (computeSvc s) (projectID s) (Zone (providerSpec s)) (m_Name (machine s)) e)) r s' w'"
proof -
  let ?z = "Zone (providerSpec s)"
  have q: "InstancesInsert (computeSvc t) (projectID t) ?z inst (ext v) = (q, e)" using assms(2,5) by simp
  note run = assms(1) [unfolded insertInstance_run [OF q]]
  show ?thesis
  proof (cases q)
    case (Inl err)
    with run assms(2-4) show ?thesis
      by (auto simp: createRejected_def insertError_clientError intro!: reports_intros)
  next
    case (Inr x)
    obtain found e2 where "InstancesGet (computeSvc t) (projectID t) (Zone (providerSpec t)) (m_Name (machine t))
        (ext (v\<lparr>ext := e, calls := calls v @ [CallInstancesInsert (projectID t) ?z inst]\<rparr>)) = (found, e2)" by force
    with Inr run reconcile_answered [OF this] assms(2-4) show ?thesis by (simp add: createAccepted_def)
  qed
qed

text \<open>
  C1. Every run of \<open>create\<close> goes one of three ways, and so inserts at most one instance.
  (1) It fails before the insert, exactly if the machine is invalid, which is reported as an invalid
  configuration without any call, or if the instance cannot be built: it has only read, no
  metric is registered, machine and provider status are as before.  Otherwise all calls before
  the insert are reads, and the inserted instance describes the machine: name, machine type,
  owner label, scheduling, shielded and confidential config, accelerators, disks in order (every boot
  disk with an image), network interfaces in order and service accounts.  What follows is
  decided by the cloud's answer to that insert.
  (2) The insert is refused: \<open>create\<close> fails, with one failure metric and a false \<open>MachineCreated\<close>
  condition with the cloud's message; its error is an invalid configuration exactly if the
  answer has an HTTP status of the 400s.  (3) The insert is accepted: the instance is looked up
  once, and \<open>create\<close> succeeds exactly if the answer is a running instance with a network
  interface; then the provider id is set and \<open>MachineCreated\<close> is true.
\<close>

theorem create_inserts_once:
  assumes "create lib (s, w) = (r, (s', w'))"
  shows "case validateMachine (machine s) (providerSpec s) of
      Some err \<Rightarrow> (\<exists>msg. r = Err (InvalidMachineConfiguration msg)) \<and> createFailedEarly s w [] r s' w'
    | None \<Rightarrow>
       (case buildInstance lib (Zone (providerSpec s)) (s, w) of (b, (t, v)) \<Rightarrow>
          \<exists>reads. list_all readOnly reads \<and>
           (case b of
              Ok inst \<Rightarrow> describesHead s inst \<and> (\<exists>tags. describesBody lib s tags inst) \<and>
                (case InstancesInsert (computeSvc s) (projectID s) (Zone (providerSpec s)) inst (ext v) of
                   (Inl err, e) \<Rightarrow> createRejected s w reads inst err r s' w'
                 | (Inr _, e) \<Rightarrow> createAccepted s w reads inst
                     (fst (InstancesGet (computeSvc s) (projectID s) (Zone (providerSpec s)) (m_Name (machine s)) e)) r s' w')
            | Err e \<Rightarrow> r = Err e \<and> createFailedEarly s w reads r s' w'
            | Crash c \<Rightarrow> r = Crash c \<and> createFailedEarly s w reads r s' w'))"
proof (cases "validateMachine (machine s) (providerSpec s)")
  case (Some err)
  then show ?thesis using assms by (auto simp: create_run createFailedEarly_def)
next
  case None
  let ?z = "Zone (providerSpec s)"
  obtain b t v where b: "buildInstance lib ?z (s, w) = (b, (t, v))" by (metis prod.exhaust)
  then obtain cfg reads where t: "t = s\<lparr>providerSpec := (providerSpec s)\<lparr>ShieldedInstanceConfig := cfg\<rparr>\<rparr>"
    and v: "calls v = calls w @ reads" "list_all readOnly reads" "metrics v = metrics w"
    by (rule buildInstance_frame)
  show ?thesis
  proof (cases b)
    case (Ok inst)
    obtain q e where q: "InstancesInsert (computeSvc s) (projectID s) ?z inst (ext v) = (q, e)" by force
    have "insertInstance ?z inst (t, v) = (r, (s', w'))" using assms None b Ok by (simp add: create_run)
    from insert_ways [OF this t v(1,3) q] buildInstance_describes [OF b [unfolded Ok]] v(2)
    show ?thesis using b Ok None q by (cases q) auto
  qed (use assms None b t v in \<open>auto simp: create_run createFailedEarly_def\<close>)
qed

lemma sample_create: "fst (create sampleLib (sampleScope, sampleWorld)) = Ok ()"
  by code_simp

theorem create_inserts_once_witness:
  "\<exists>reads inst. list_all readOnly reads \<and> in_Name inst = ''worker-0'' \<and> length (in_Disks inst) = 1 \<and>
     calls (snd (snd (create sampleLib (sampleScope, sampleWorld)))) =
       reads @ [CallInstancesInsert ''p1'' ''r1-a'' inst, CallInstancesGet ''p1'' ''r1-a'' ''worker-0'']"
proof -
  obtain s' w' where run: "create sampleLib (sampleScope, sampleWorld) = (Ok (), (s', w'))"
    using sample_create by (metis prod.exhaust fst_conv)
  obtain reads inst found tags where
    "list_all readOnly reads" "createAccepted sampleScope sampleWorld reads inst found (Ok ()) s' w'"
    "describesHead (sampleScope :: unit machineScope) inst" "describesBody sampleLib (sampleScope :: unit machineScope) tags inst"
  proof -
    let ?s = "sampleScope :: unit machineScope"
    obtain b t v where b: "buildInstance sampleLib (Zone (providerSpec ?s)) (?s, sampleWorld) = (b, (t, v))" by (metis prod.exhaust)
    have valid: "validateMachine (machine ?s) (providerSpec ?s) = None" by code_simp
    note spec = create_inserts_once [OF run, unfolded valid option.case b prod.case]
    then obtain inst where Ok: "b = Ok inst" by (cases b) (auto simp: createFailedEarly_def)
    obtain q e where q: "InstancesInsert (computeSvc ?s) (projectID ?s) (Zone (providerSpec ?s)) inst (ext v) = (q, e)"
      by (metis surj_pair)
    from spec [unfolded Ok outcome.case q prod.case] show thesis by (cases q) (auto simp: createRejected_def intro: that)
  qed
  moreover from this(4) have "length (in_Disks inst) = 1"
    by (auto simp: describesBody_def sampleScope_def sampleSpec_def Let_def dest: list_all2_lengthD)
  ultimately show ?thesis using run
    by (intro exI [of _ reads] exI [of _ inst])
      (simp add: createAccepted_def describesHead_def sampleScope_def sampleSpec_def sampleMachine_def sampleWorld_def Let_def)
qed

theorem instanceMetadata_spec_witness:
  "fst (instanceMetadata (sampleScope\<lparr>providerSpec := sampleSpec\<lparr>Metadata :=
       [Some \<lparr>md_Key = ''a'', md_Value = None\<rparr>, Some \<lparr>md_Key = ''user-data'', md_Value = Some ''x''\<rparr>]\<rparr>\<rparr>, sampleWorld)) =
     Ok [\<lparr>mi_Key = ''user-data'', mi_Value = Some ''x''\<rparr>, \<lparr>mi_Key = ''a'', mi_Value = None\<rparr>]"
proof -
  let ?s = "(sampleScope :: unit machineScope)\<lparr>providerSpec := sampleSpec\<lparr>Metadata :=
       [Some \<lparr>md_Key = ''a'', md_Value = None\<rparr>, Some \<lparr>md_Key = ''user-data'', md_Value = Some ''x''\<rparr>]\<rparr>\<rparr>"
  have "\<exists>items st. instanceMetadata (?s, sampleWorld) = (Ok items, st)"
    by (simp add: instanceMetadata_def getCustomUserData_def metadataStep_def go_simps Let_def sampleScope_def sampleSpec_def
        zeroProviderSpec_def)
  then obtain items s' w' where run: "instanceMetadata (?s, sampleWorld) = (Ok items, (s', w'))" by auto
  have win: "\<not> IsMachineOSWindows (machine ?s)"
    by (simp add: IsMachineOSWindows_def sampleScope_def sampleMachine_def)
  from instanceMetadata_spec [OF run, unfolded if_not_P [OF win]]
  have "items = [\<lparr>mi_Key = ''user-data'', mi_Value = Some ''x''\<rparr>, \<lparr>mi_Key = ''a'', mi_Value = None\<rparr>]"
    by (auto simp: toItem_def)
  then show ?thesis using run by simp
qed

end
