(* ===== verification/Reconciler_Pools.thy ===== *)
theory Reconciler_Pools
  imports Reconciler_State Sample
begin

text \<open>
  Target pools and the control plane instance group of \<open>machine/reconciler.go\<close>.
\<close>

section \<open>Names\<close>

definition openshiftMachineRoleLabel :: string where
  "openshiftMachineRoleLabel = ''machine.openshift.io/cluster-api-machine-role''"

definition masterMachineRole :: string where
  "masterMachineRole = ''master''"

definition fmtInstanceSelfLink :: "string \<Rightarrow> string \<Rightarrow> string \<Rightarrow> string" where
  "fmtInstanceSelfLink project zone name =
     ''https://www.googleapis.com/compute/v1/projects/'' @ project @ ''/zones/'' @ zone @ ''/instances/'' @ name"

definition clusterID :: "'w machineScope \<Rightarrow> string" where
  "clusterID r = mapIndex (m_Labels (machine r)) MachineClusterIDLabel"

definition machineRole :: "'w machineScope \<Rightarrow> string" where
  "machineRole r = mapIndex (m_Labels (machine r)) openshiftMachineRoleLabel"

definition selfLink :: "'w machineScope \<Rightarrow> string" where
  "selfLink r = fmtInstanceSelfLink (projectID r) (Zone (providerSpec r)) (m_Name (machine r))"

definition controlPlaneGroupName :: "'w machineScope \<Rightarrow> string" where
  "controlPlaneGroupName r = clusterID r @ ''-'' @ masterMachineRole @ ''-'' @ Zone (providerSpec r)"

definition FQDNInstanceGroup :: "'w machineScope \<Rightarrow> string" where
  "FQDNInstanceGroup r =
     ''https://www.googleapis.com/compute/v1/projects/'' @ projectID r @ ''/zones/'' @ Zone (providerSpec r)
     @ ''/instanceGroups/'' @ controlPlaneGroupName r"

definition backendServiceName :: "'w machineScope \<Rightarrow> string" where
  "backendServiceName r = clusterID r @ ''-api-internal''"

definition instanceGroupNetworkName :: "'w machineScope \<Rightarrow> string \<Rightarrow> string" where
  "instanceGroupNetworkName r networkName = ''projects/'' @ projectID r @ ''/global/networks/'' @ networkName"

definition instanceGroupSubNetworkName :: "'w machineScope \<Rightarrow> string \<Rightarrow> string" where
  "instanceGroupSubNetworkName r subnetworkName =
     ''projects/'' @ projectID r @ ''/regions/'' @ Region (providerSpec r) @ ''/subnetworks/'' @ subnetworkName"

section \<open>Target pools\<close>

definition instanceExistsInPool :: "string \<Rightarrow> string \<Rightarrow> ('w, bool) rec" where
  "instanceExistsInPool instanceLink pool =
     seq (getScope (\<lambda>r. r)) (\<lambda>r.
     seq (onErr (errorfV ''unable to get targetpool: '')
            (onSnd (invoke (CallTargetPoolsGet (projectID r) (Region (providerSpec r)) pool)
                      (TargetPoolsGet (computeSvc r) (projectID r) (Region (providerSpec r)) pool)))) (\<lambda>p.
     seq (deref p) (\<lambda>tp. ret (containsString (tp_Instances tp) instanceLink))))"

definition processPool :: "bool \<Rightarrow> (string \<Rightarrow> string \<Rightarrow> ('w, unit) rec) \<Rightarrow> string \<Rightarrow> string \<Rightarrow> ('w, unit) rec" where
  "processPool desired poolFunc instanceSelfLink pool =
     seq (instanceExistsInPool instanceSelfLink pool) (\<lambda>present.
     if present \<noteq> desired then poolFunc instanceSelfLink pool else ret ())"

definition processTargetPools :: "bool \<Rightarrow> (string \<Rightarrow> string \<Rightarrow> ('w, unit) rec) \<Rightarrow> ('w, unit) rec" where
  "processTargetPools desired poolFunc =
     seq (getScope (\<lambda>r. r)) (\<lambda>r.
     forEach (TargetPools (providerSpec r)) (processPool desired poolFunc (selfLink r)))"

text \<open>Registering a failure metric before the error is returned.\<close>

definition orMetric :: "metric \<Rightarrow> (error \<Rightarrow> error) \<Rightarrow> ('w, 'a) rec \<Rightarrow> ('w, 'a) rec" where
  "orMetric m f act =
     seq (attempt act) (\<lambda>res.
     case res of
       Inl err \<Rightarrow> seq (onSnd (registerMetric m)) (\<lambda>_. raise (f err))
     | Inr x \<Rightarrow> ret x)"

definition addInstanceToTargetPool :: "string \<Rightarrow> string \<Rightarrow> ('w, unit) rec" where
  "addInstanceToTargetPool instanceLink pool =
     seq (getScope (\<lambda>r. r)) (\<lambda>r.
     let name = m_Name (machine r) in
     seq (orMetric (FailedInstanceUpdate name (m_Namespace (machine r)) ''failed to add instance to target pool'')
            (errorfV (''failed to add instance '' @ name @ '' to target pool '' @ pool @ '': ''))
            (onSnd (invoke (CallTargetPoolsAddInstance (projectID r) (Region (providerSpec r)) pool instanceLink)
                      (TargetPoolsAddInstance (computeSvc r) (projectID r) (Region (providerSpec r)) pool instanceLink))))
       (\<lambda>_. ret ()))"

definition deleteInstanceFromTargetPool :: "string \<Rightarrow> string \<Rightarrow> ('w, unit) rec" where
  "deleteInstanceFromTargetPool instanceLink pool =
     seq (getScope (\<lambda>r. r)) (\<lambda>r.
     let name = m_Name (machine r) in
     seq (orMetric (FailedInstanceDelete name (m_Namespace (machine r)) ''failed to remove instance from target pool'')
            (errorfV (''failed to remove instance '' @ name @ '' from target pool '' @ pool @ '': ''))
            (onSnd (invoke (CallTargetPoolsRemoveInstance (projectID r) (Region (providerSpec r)) pool instanceLink)
                      (TargetPoolsRemoveInstance (computeSvc r) (projectID r) (Region (providerSpec r)) pool instanceLink))))
       (\<lambda>_. ret ()))"

section \<open>The control plane instance group\<close>

fun findNetwork :: "string \<Rightarrow> string \<Rightarrow> GCPNetworkInterface ptr list \<Rightarrow> ('s, bool) go" where
  "findNetwork net sub [] = ret False"
| "findNetwork net sub (p # nics) =
     seq (deref p) (\<lambda>network.
     if ni_Network network = net \<and> ni_Subnetwork network = sub then ret True
     else findNetwork net sub nics)"

definition ensureCorrectNetworkAndSubnetName :: "('w, string \<times> string) rec" where
  "ensureCorrectNetworkAndSubnetName =
     seq (getScope (\<lambda>r. r)) (\<lambda>r.
     let actualNetworkName = clusterID r @ ''-network'';
         actualSubnetworkName = clusterID r @ ''-'' @ machineRole r @ ''-subnet'';
         nics = NetworkInterfaces (providerSpec r)
     in seq (findNetwork actualNetworkName actualSubnetworkName nics) (\<lambda>found.
        if found then ret (actualNetworkName, actualSubnetworkName)
        else seq (firstElem nics) (\<lambda>p. seq (deref p) (\<lambda>nic. ret (ni_Network nic, ni_Subnetwork nic)))))"

definition registerNewInstanceGroup :: "('w, unit) rec" where
  "registerNewInstanceGroup =
     seq (getScope (\<lambda>r. r)) (\<lambda>r.
     seq ensureCorrectNetworkAndSubnetName (\<lambda>(actualNetworkName, actualSubnetworkName).
     let group = \<lparr>ig_Name = controlPlaneGroupName r, ig_Region = Region (providerSpec r),
                  ig_Zone = Zone (providerSpec r),
                  ig_Network = instanceGroupNetworkName r actualNetworkName,
                  ig_Subnetwork = instanceGroupSubNetworkName r actualSubnetworkName\<rparr> in
     seq (onErr (errorfW ''instanceGroupInsert request failed: '')
            (onSnd (invoke (CallInstanceGroupInsert (projectID r) (Zone (providerSpec r)) group)
                      (InstanceGroupInsert (computeSvc r) (projectID r) (Zone (providerSpec r)) group))))
       (\<lambda>_. ret ())))"

definition getBackendService :: "('w, BackendService) rec" where
  "getBackendService =
     seq (getScope (\<lambda>r. r)) (\<lambda>r.
     seq (onErr (errorfV ''backendServiceGet request failed: '')
            (onSnd (invoke (CallBackendServiceGet (projectID r) (Region (providerSpec r)) (backendServiceName r))
                      (BackendServiceGet (computeSvc r) (projectID r) (Region (providerSpec r)) (backendServiceName r)))))
       deref)"

definition checkRegistrationOfBackend :: "('w, bool) rec" where
  "checkRegistrationOfBackend =
     seq (getScope (\<lambda>r. r)) (\<lambda>r.
     seq getBackendService (\<lambda>backendService.
     ret (list_ex (\<lambda>backend. Group backend = FQDNInstanceGroup r) (Backends backendService))))"

definition updateBackendServiceWithInstanceGroup :: "('w, unit) rec" where
  "updateBackendServiceWithInstanceGroup =
     seq (getScope (\<lambda>r. r)) (\<lambda>r.
     seq getBackendService (\<lambda>backendService.
     let backend = \<lparr>BalancingMode = ''CONNECTION'', Group = FQDNInstanceGroup r\<rparr>;
         updated = backendService\<lparr>Backends := Backends backendService @ [backend]\<rparr> in
     seq (onErr (errorfV ''addInstanceGroupToBackendService request failed: '')
            (onSnd (invoke (CallAddInstanceGroupToBackendService (projectID r) (Region (providerSpec r)) (backendServiceName r) updated)
                      (AddInstanceGroupToBackendService (computeSvc r) (projectID r) (Region (providerSpec r)) (backendServiceName r) updated))))
       (\<lambda>_. ret ())))"

text \<open>The two halves of \<open>ensureInstanceGroup\<close>: the group itself, given the error of reading it, and its backend.\<close>

definition insertIfMissing :: "string \<Rightarrow> error option \<Rightarrow> ('w, unit) rec" where
  "insertIfMissing instanceGroupName err =
     (if isNotFoundError err
      then onErr (errorfV (''failed to register the new instance group named '' @ instanceGroupName @ '': '')) registerNewInstanceGroup
      else (case err of Some e \<Rightarrow> raise (errorfV ''instanceGroupGet request failed: '' e) | None \<Rightarrow> ret ()))"

definition ensureBackend :: "string \<Rightarrow> ('w, unit) rec" where
  "ensureBackend instanceGroupName =
     seq (onErr (errorfV ''failed to retrieve the backend service: '') checkRegistrationOfBackend) (\<lambda>registered.
     if \<not> registered
     then onErr (errorfV (''failed to update the backend service with new instance group '' @ instanceGroupName @ '': ''))
            updateBackendServiceWithInstanceGroup
     else ret ())"

definition ensureInstanceGroup :: "string \<Rightarrow> ('w, unit) rec" where
  "ensureInstanceGroup instanceGroupName =
     seq (getScope (\<lambda>r. r)) (\<lambda>r.
     seq (attempt (onSnd (invoke (CallInstanceGroupGet (projectID r) (Zone (providerSpec r)) instanceGroupName)
                            (InstanceGroupGet (computeSvc r) (projectID r) (Zone (providerSpec r)) instanceGroupName)))) (\<lambda>res.
     seq (insertIfMissing instanceGroupName (case res of Inl e \<Rightarrow> Some e | Inr _ \<Rightarrow> None)) (\<lambda>_.
     ensureBackend instanceGroupName)))"

definition fetchRunningInstancesInInstanceGroup :: "string \<Rightarrow> string \<Rightarrow> string \<Rightarrow> ('w, string set) rec" where
  "fetchRunningInstancesInInstanceGroup project zone instanceGroup =
     seq (getScope (\<lambda>r. r)) (\<lambda>r.
     seq (onErr (errorfV ''instanceGroupsListInstances request failed: '')
            (onSnd (invoke (CallInstanceGroupsListInstances project zone instanceGroup ''RUNNING'')
                      (InstanceGroupsListInstances (computeSvc r) project zone instanceGroup ''RUNNING'')))) (\<lambda>p.
     seq (deref p) (\<lambda>items. ret (set items))))"

definition registerInstanceToControlPlaneInstanceGroup :: "('w, unit) rec" where
  "registerInstanceToControlPlaneInstanceGroup =
     seq (getScope (\<lambda>r. r)) (\<lambda>r.
     let instanceSelfLink = selfLink r; instanceGroupName = controlPlaneGroupName r; zone = Zone (providerSpec r) in
     seq (onErr (errorfV (''failed to ensure that instance group '' @ instanceGroupName @ '' is a proper instance group: ''))
            (ensureInstanceGroup instanceGroupName)) (\<lambda>_.
     seq (onErr (errorfV (''failed to fetch running instances in instance group '' @ instanceGroupName @ '': ''))
            (fetchRunningInstancesInInstanceGroup (projectID r) zone instanceGroupName)) (\<lambda>instanceSets.
     if instanceSelfLink \<notin> instanceSets \<and>
        (case InstanceState (providerStatus r) of None \<Rightarrow> '''' | Some st \<Rightarrow> st) = ''RUNNING''
     then seq (onErr (errorfV ''InstanceGroupsAddInstances request failed: '')
                 (onSnd (invoke (CallInstanceGroupsAddInstances (projectID r) zone instanceSelfLink instanceGroupName)
                           (InstanceGroupsAddInstances (computeSvc r) (projectID r) zone instanceSelfLink instanceGroupName))))
            (\<lambda>_. ret ())
     else ret ())))"

definition unregisterInstanceFromControlPlaneInstanceGroup :: "('w, unit) rec" where
  "unregisterInstanceFromControlPlaneInstanceGroup =
     seq (getScope (\<lambda>r. r)) (\<lambda>r.
     let instanceSelfLink = selfLink r; instanceGroupName = controlPlaneGroupName r; zone = Zone (providerSpec r) in
     seq (onErr (errorfV (''failed to fetch running instances in instance group '' @ instanceGroupName @ '': ''))
            (fetchRunningInstancesInInstanceGroup (projectID r) zone instanceGroupName)) (\<lambda>instanceSets.
     if instanceSets \<noteq> {} \<and> instanceSelfLink \<in> instanceSets
     then seq (onErr (errorfV ''InstanceGroupsRemoveInstances request failed: '')
                 (onSnd (invoke (CallInstanceGroupsRemoveInstances (projectID r) zone instanceSelfLink instanceGroupName)
                           (InstanceGroupsRemoveInstances (computeSvc r) (projectID r) zone instanceSelfLink instanceGroupName))))
            (\<lambda>_. ret ())
     else ret ()))"

section \<open>Frames\<close>

context scope_log
begin

lemma obeys_orMetric [obeys_intros]:
  "obeys (onScope K R) act \<Longrightarrow> obeys (onScope K R) (orMetric m f act)"
  unfolding orMetric_def by (intro obeys_intros; simp)

lemma obeys_findNetwork [obeys_intros, simp]: "obeys (onScope K R) (findNetwork net sub nics)"
  by (induction nics) (auto intro!: obeys_intros)

lemma obeys_ensureCorrect [obeys_intros, simp]: "obeys (onScope K R) ensureCorrectNetworkAndSubnetName"
  unfolding ensureCorrectNetworkAndSubnetName_def Let_def by (intro obeys_intros; simp)

lemma obeys_instanceExistsInPool [obeys_intros]:
  "(\<And>p x n. P (CallTargetPoolsGet p x n)) \<Longrightarrow> obeys (onScope K R) (instanceExistsInPool l pool)"
  unfolding instanceExistsInPool_def by (intro obeys_intros; simp)

lemma obeys_processTargetPools [obeys_intros]:
  "(\<And>p x n. P (CallTargetPoolsGet p x n)) \<Longrightarrow> (\<And>l q. obeys (onScope K R) (f l q)) \<Longrightarrow>
   obeys (onScope K R) (processTargetPools desired f)"
  unfolding processTargetPools_def processPool_def by (intro obeys_intros; simp)

lemma obeys_addInstanceToTargetPool [obeys_intros]:
  "(\<And>p x n i. P (CallTargetPoolsAddInstance p x n i)) \<Longrightarrow> obeys (onScope K R) (addInstanceToTargetPool l pool)"
  unfolding addInstanceToTargetPool_def Let_def by (intro obeys_intros; simp)

lemma obeys_deleteInstanceFromTargetPool [obeys_intros]:
  "(\<And>p x n i. P (CallTargetPoolsRemoveInstance p x n i)) \<Longrightarrow> obeys (onScope K R) (deleteInstanceFromTargetPool l pool)"
  unfolding deleteInstanceFromTargetPool_def Let_def by (intro obeys_intros; simp)

lemma obeys_fetchRunning [obeys_intros]:
  "(\<And>p z g st. P (CallInstanceGroupsListInstances p z g st)) \<Longrightarrow>
   obeys (onScope K R) (fetchRunningInstancesInInstanceGroup p z g)"
  unfolding fetchRunningInstancesInInstanceGroup_def by (intro obeys_intros; simp)

lemma obeys_unregister [obeys_intros]:
  "(\<And>p z g st. P (CallInstanceGroupsListInstances p z g st)) \<Longrightarrow>
   (\<And>p z i g. P (CallInstanceGroupsRemoveInstances p z i g)) \<Longrightarrow>
   obeys (onScope K R) unregisterInstanceFromControlPlaneInstanceGroup"
  unfolding unregisterInstanceFromControlPlaneInstanceGroup_def Let_def by (intro obeys_intros; simp)

lemma obeys_getBackendService [obeys_intros]:
  "(\<And>p x n. P (CallBackendServiceGet p x n)) \<Longrightarrow> obeys (onScope K R) getBackendService"
  unfolding getBackendService_def by (intro obeys_intros; simp)

lemma obeys_ensureInstanceGroup [obeys_intros]:
  "(\<And>p x n. P (CallBackendServiceGet p x n)) \<Longrightarrow> (\<And>p z n. P (CallInstanceGroupGet p z n)) \<Longrightarrow>
   (\<And>p z g. P (CallInstanceGroupInsert p z g)) \<Longrightarrow>
   (\<And>p x n b. P (CallAddInstanceGroupToBackendService p x n b)) \<Longrightarrow>
   obeys (onScope K R) (ensureInstanceGroup g)"
  unfolding ensureInstanceGroup_def insertIfMissing_def ensureBackend_def Let_def registerNewInstanceGroup_def checkRegistrationOfBackend_def
    updateBackendServiceWithInstanceGroup_def
  by (intro obeys_intros; simp)

lemma obeys_registerInstance [obeys_intros]:
  "(\<And>p x n. P (CallBackendServiceGet p x n)) \<Longrightarrow> (\<And>p z n. P (CallInstanceGroupGet p z n)) \<Longrightarrow>
   (\<And>p z g. P (CallInstanceGroupInsert p z g)) \<Longrightarrow>
   (\<And>p x n b. P (CallAddInstanceGroupToBackendService p x n b)) \<Longrightarrow>
   (\<And>p z g st. P (CallInstanceGroupsListInstances p z g st)) \<Longrightarrow>
   (\<And>p z i g. P (CallInstanceGroupsAddInstances p z i g)) \<Longrightarrow>
   obeys (onScope K R) registerInstanceToControlPlaneInstanceGroup"
  unfolding registerInstanceToControlPlaneInstanceGroup_def Let_def by (intro obeys_intros; simp)

end

section \<open>Convergence of the target pools\<close>

text \<open>
  What the loop relies on about the given target pools of one project and region: they exist and
  requests about them are answered; a read answers with the current members and changes none; adding
  and removing an instance change its membership of that pool and nothing else.
\<close>

definition poolLaws :: "'w GCPComputeService \<Rightarrow> string \<Rightarrow> string \<Rightarrow> string set \<Rightarrow> ('w \<Rightarrow> string \<Rightarrow> string set) \<Rightarrow> bool" where
  "poolLaws svc project region pools members \<longleftrightarrow>
     (\<forall>pool\<in>pools. \<forall>e. \<exists>links e'. TargetPoolsGet svc project region pool e = (Inr (Some \<lparr>tp_Instances = links\<rparr>), e') \<and>
        set links = members e pool \<and> members e' = members e) \<and>
     (\<forall>pool\<in>pools. \<forall>link e. \<exists>x e'. TargetPoolsAddInstance svc project region pool link e = (Inr x, e') \<and>
        members e' = (members e)(pool := insert link (members e pool))) \<and>
     (\<forall>pool\<in>pools. \<forall>link e. \<exists>x e'. TargetPoolsRemoveInstance svc project region pool link e = (Inr x, e') \<and>
        members e' = (members e)(pool := members e pool - {link}))"

text \<open>The members of the pools that a run with goal \<open>desired\<close> aims at.\<close>

definition aim :: "bool \<Rightarrow> string \<Rightarrow> string set \<Rightarrow> (string \<Rightarrow> string set) \<Rightarrow> string \<Rightarrow> string set" where
  "aim desired link pools m q =
     (if q \<in> pools then (if desired then insert link (m q) else m q - {link}) else m q)"

definition poolFunc :: "bool \<Rightarrow> string \<Rightarrow> string \<Rightarrow> ('w, unit) rec" where
  "poolFunc desired = (if desired then addInstanceToTargetPool else deleteInstanceFromTargetPool)"

lemma containsString_set: "containsString xs x \<longleftrightarrow> x \<in> set xs"
  by (induction xs) auto

lemma processPool_step:
  assumes "poolLaws (computeSvc s) (projectID s) (Region (providerSpec s)) pools members" and "pool \<in> pools"
  shows "\<exists>w'. processPool desired (poolFunc desired) link pool (s, w) = (Ok (), (s, w')) \<and>
     members (ext w') = aim desired link {pool} (members (ext w)) \<and> metrics w' = metrics w \<and>
     calls w' = calls w @ CallTargetPoolsGet (projectID s) (Region (providerSpec s)) pool #
       (if (link \<in> members (ext w) pool) = desired then []
        else [(if desired then CallTargetPoolsAddInstance else CallTargetPoolsRemoveInstance)
                (projectID s) (Region (providerSpec s)) pool link])"
proof -
  obtain links e1 where g: "TargetPoolsGet (computeSvc s) (projectID s) (Region (providerSpec s)) pool (ext w) =
      (Inr (Some \<lparr>tp_Instances = links\<rparr>), e1)" and m: "set links = members (ext w) pool" "members e1 = members (ext w)"
    using assms unfolding poolLaws_def by meson
  obtain x e2 where a: "TargetPoolsAddInstance (computeSvc s) (projectID s) (Region (providerSpec s)) pool link e1 = (Inr x, e2)"
    "members e2 = (members e1)(pool := insert link (members e1 pool))"
    using assms unfolding poolLaws_def by meson
  obtain y e3 where d: "TargetPoolsRemoveInstance (computeSvc s) (projectID s) (Region (providerSpec s)) pool link e1 = (Inr y, e3)"
    "members e3 = (members e1)(pool := members e1 pool - {link})"
    using assms unfolding poolLaws_def by meson
  show ?thesis
    by (auto simp: processPool_def instanceExistsInPool_def poolFunc_def addInstanceToTargetPool_def
        deleteInstanceFromTargetPool_def orMetric_def Let_def go_simps containsString_set g m a d aim_def fun_eq_iff)
qed

lemma pools_loop:
  assumes "poolLaws (computeSvc s) (projectID s) (Region (providerSpec s)) pools members" and "set ps \<subseteq> pools"
  shows "\<exists>w'. forEach ps (processPool desired (poolFunc desired) link) (s, w) = (Ok (), (s, w')) \<and>
     members (ext w') = aim desired link (set ps) (members (ext w)) \<and> metrics w' = metrics w \<and>
     ((\<forall>q\<in>set ps. (link \<in> members (ext w) q) = desired) \<longrightarrow>
        calls w' = calls w @ map (CallTargetPoolsGet (projectID s) (Region (providerSpec s))) ps)"
  using assms(2)
proof (induction ps arbitrary: w)
  case Nil
  then show ?case by (simp add: run_basic aim_def fun_eq_iff)
next
  case (Cons p ps)
  then have pools: "p \<in> pools" "set ps \<subseteq> pools" by simp_all
  obtain w1 where 1: "processPool desired (poolFunc desired) link p (s, w) = (Ok (), (s, w1))"
    "members (ext w1) = aim desired link {p} (members (ext w))" "metrics w1 = metrics w"
    "calls w1 = calls w @ CallTargetPoolsGet (projectID s) (Region (providerSpec s)) p #
       (if (link \<in> members (ext w) p) = desired then []
        else [(if desired then CallTargetPoolsAddInstance else CallTargetPoolsRemoveInstance)
                (projectID s) (Region (providerSpec s)) p link])"
    using processPool_step [OF assms(1) pools(1)] by blast
  from Cons.IH [OF pools(2), of w1] obtain w2 where 2: "forEach ps (processPool desired (poolFunc desired) link) (s, w1) = (Ok (), (s, w2))"
    "members (ext w2) = aim desired link (set ps) (members (ext w1))" "metrics w2 = metrics w1"
    "(\<forall>q\<in>set ps. (link \<in> members (ext w1) q) = desired) \<longrightarrow>
        calls w2 = calls w1 @ map (CallTargetPoolsGet (projectID s) (Region (providerSpec s))) ps" by blast
  have aim: "aim desired link (set ps) (aim desired link {p} m) = aim desired link (set (p # ps)) m" for m
    by (auto simp: aim_def fun_eq_iff)
  have same: "(\<forall>q\<in>set (p # ps). (link \<in> members (ext w) q) = desired) \<Longrightarrow> members (ext w1) = members (ext w)"
    using 1(2) by (auto simp: aim_def fun_eq_iff insert_absorb)
  show ?case
    using 1 2 same by (intro exI [of _ w2]) (simp add: seq_run aim)
qed

text \<open>
  C14. Against a compute service that answers every request about the target pools of the provider spec and
  keeps their members as documented (\<open>poolLaws\<close>), a run of
  \<open>processTargetPools\<close> with its own pool function reaches its goal: it succeeds, the instance
  is in every target pool of the provider spec (or, when removing, in none of them), all
  other members and pools are as before, and no failure metric is registered.  A second
  run only reads: one call per pool, in order.
\<close>

theorem processTargetPools_converges:
  assumes "poolLaws (computeSvc s) (projectID s) (Region (providerSpec s)) (set (TargetPools (providerSpec s))) members"
    and "f = (if desired then addInstanceToTargetPool else deleteInstanceFromTargetPool)"
  shows "\<exists>w1 w2. processTargetPools desired f (s, w) = (Ok (), (s, w1)) \<and>
     (\<forall>q. members (ext w1) q =
        (if q \<in> set (TargetPools (providerSpec s))
         then (if desired then insert (selfLink s) (members (ext w) q) else members (ext w) q - {selfLink s})
         else members (ext w) q)) \<and>
     metrics w1 = metrics w \<and>
     processTargetPools desired f (s, w1) = (Ok (), (s, w2)) \<and> members (ext w2) = members (ext w1) \<and>
     calls w2 = calls w1 @ map (CallTargetPoolsGet (projectID s) (Region (providerSpec s))) (TargetPools (providerSpec s))"
proof -
  let ?ps = "TargetPools (providerSpec s)"
  have run: "processTargetPools desired f (s, v) = forEach ?ps (processPool desired (poolFunc desired) (selfLink s)) (s, v)" for v
    using assms(2) by (simp add: processTargetPools_def go_simps poolFunc_def)
  obtain w1 where 1: "processTargetPools desired f (s, w) = (Ok (), (s, w1))"
    "members (ext w1) = aim desired (selfLink s) (set ?ps) (members (ext w))" "metrics w1 = metrics w"
    using pools_loop [OF assms(1) order.refl] unfolding run by blast
  obtain w2 where 2: "processTargetPools desired f (s, w1) = (Ok (), (s, w2))"
    "members (ext w2) = aim desired (selfLink s) (set ?ps) (members (ext w1))"
    "(\<forall>q\<in>set ?ps. (selfLink s \<in> members (ext w1) q) = desired) \<longrightarrow>
        calls w2 = calls w1 @ map (CallTargetPoolsGet (projectID s) (Region (providerSpec s))) ?ps"
    using pools_loop [OF assms(1) order.refl] unfolding run by blast
  have "members (ext w2) = members (ext w1)" unfolding 2(2) 1(2) by (auto simp: aim_def fun_eq_iff)
  moreover have "\<forall>q\<in>set ?ps. (selfLink s \<in> members (ext w1) q) = desired" unfolding 1(2) by (simp add: aim_def)
  ultimately show ?thesis using 1 2 by (intro exI [of _ w1] exI [of _ w2]) (auto simp: aim_def)
qed

text \<open>A service whose pools are part of the world.\<close>

definition poolService :: "(string \<Rightarrow> string list) GCPComputeService" where
  "poolService = sampleService\<lparr>
     TargetPoolsGet := (\<lambda>_ _ pool e. (Inr (Some \<lparr>tp_Instances = e pool\<rparr>), e)),
     TargetPoolsAddInstance := (\<lambda>_ _ pool l e. (Inr None, e(pool := l # e pool))),
     TargetPoolsRemoveInstance := (\<lambda>_ _ pool l e. (Inr None, e(pool := removeAll l (e pool))))\<rparr>"

lemma poolService_laws: "poolLaws poolService p r ps (\<lambda>e q. set (e q))"
  by (auto simp: poolLaws_def poolService_def intro!: ext)

theorem processTargetPools_converges_witness:
  "\<exists>w. processTargetPools True addInstanceToTargetPool
     (sampleScope\<lparr>computeSvc := poolService\<rparr>,
      \<lparr>ext = (\<lambda>_. []), calls = [], events = [], metrics = [], wallClock = (\<lambda>_. 0)\<rparr>) =
       (Ok (), (sampleScope\<lparr>computeSvc := poolService\<rparr>, w)) \<and>
     set (ext w ''pool-1'') = {''https://www.googleapis.com/compute/v1/projects/p1/zones/r1-a/instances/worker-0''}"
proof -
  let ?s = "sampleScope\<lparr>computeSvc := poolService\<rparr>"
  let ?w = "\<lparr>ext = (\<lambda>_. []), calls = [], events = [], metrics = [], wallClock = (\<lambda>_. 0)\<rparr>"
  have laws: "poolLaws (computeSvc ?s) (projectID ?s) (Region (providerSpec ?s)) (set (TargetPools (providerSpec ?s))) (\<lambda>e q. set (e q))"
    using poolService_laws by simp
  have "TargetPools (providerSpec ?s) = [''pool-1'']" by (simp add: sampleScope_def sampleSpec_def)
  moreover have "selfLink ?s = ''https://www.googleapis.com/compute/v1/projects/p1/zones/r1-a/instances/worker-0''"
    by (simp add: selfLink_def fmtInstanceSelfLink_def sampleScope_def sampleSpec_def sampleMachine_def)
  ultimately show ?thesis
    using processTargetPools_converges [OF laws, of addInstanceToTargetPool True ?w] by auto
qed

section \<open>The control plane instance group\<close>

lemma invoke_Ok_iff:
  "invoke c f w = (Ok x, w') \<longleftrightarrow>
     (\<exists>e. f (ext w) = (Inr x, e) \<and> w' = w\<lparr>ext := e, calls := calls w @ [c]\<rparr>)"
  by (auto simp: invoke_def split: prod.splits sum.splits)

lemma getBackendService_Ok:
  "getBackendService (s, w) = (Ok bs, (s', w')) \<Longrightarrow> s' = s \<and>
     (\<exists>y. BackendServiceGet (computeSvc s) (projectID s) (Region (providerSpec s)) (backendServiceName s) (ext w) = (Inr (Some bs), y)) \<and>
     calls w' = calls w @ [CallBackendServiceGet (projectID s) (Region (providerSpec s)) (backendServiceName s)]"
  by (auto simp: getBackendService_def run_Ok invoke_Ok_iff)

text \<open>The backend the group is registered as, and the answers of the backend service.\<close>

definition controlPlaneBackend :: "'w machineScope \<Rightarrow> Backend" where
  "controlPlaneBackend r = \<lparr>BalancingMode = ''CONNECTION'', Group = FQDNInstanceGroup r\<rparr>"

definition backendAnswer :: "'w machineScope \<Rightarrow> BackendService \<Rightarrow> bool" where
  "backendAnswer s bs \<longleftrightarrow> (\<exists>x y. BackendServiceGet (computeSvc s) (projectID s) (Region (providerSpec s))
     (backendServiceName s) x = (Inr (Some bs), y))"

lemma kept_scope:
  assumes "obeys (onScope (\<lambda>s. s) (logGrows (\<lambda>_. True))) m" and "m (s, w) = (r, (s', w'))"
  shows "s' = s \<and> (\<exists>cs. calls w' = calls w @ cs)"
  using obeysD [OF assms] by (auto simp: onScope_def logGrows_def)

definition backed :: "'w machineScope \<Rightarrow> call list \<Rightarrow> bool" where
  "backed s cs \<longleftrightarrow> (\<exists>bs. backendAnswer s bs \<and>
     (FQDNInstanceGroup s \<in> Group ` set (Backends bs) \<or>
      CallAddInstanceGroupToBackendService (projectID s) (Region (providerSpec s)) (backendServiceName s)
        (bs\<lparr>Backends := Backends bs @ [controlPlaneBackend s]\<rparr>) \<in> set cs))"

lemma ensureBackend_Ok:
  assumes "ensureBackend g (s, w) = (Ok (), (s', w'))"
  shows "s' = s \<and> (\<exists>cs. calls w' = calls w @ cs \<and> backed s cs)"
proof -
  obtain reg t v where c: "checkRegistrationOfBackend (s, w) = (Ok reg, (t, v))"
    and u: "(if \<not> reg then updateBackendServiceWithInstanceGroup (t, v) else (Ok (), (t, v))) = (Ok (), (s', w'))"
    using assms by (auto simp: ensureBackend_def seq_Ok_iff run_basic split: if_splits)
  from c obtain bs where bs: "getBackendService (s, w) = (Ok bs, (t, v))"
    "reg = list_ex (\<lambda>backend. Group backend = FQDNInstanceGroup s) (Backends bs)"
    by (auto simp: checkRegistrationOfBackend_def run_Ok)
  then have reg: "reg \<longleftrightarrow> FQDNInstanceGroup s \<in> Group ` set (Backends bs)"
    by (force simp: list_ex_iff image_iff)
  from getBackendService_Ok [OF bs(1)] obtain cs where 1: "t = s" "backendAnswer s bs" "calls v = calls w @ cs"
    by (auto simp: backendAnswer_def)
  show ?thesis
  proof (cases reg)
    case True
    with u 1 reg show ?thesis by (auto simp: backed_def)
  next
    case False
    then have "updateBackendServiceWithInstanceGroup (s, v) = (Ok (), (s', w'))" using u 1 by simp
    then obtain bs2 u w2 where 2: "getBackendService (s, v) = (Ok bs2, (u, w2))" "s' = u"
      "calls w' = calls w2 @ [CallAddInstanceGroupToBackendService (projectID s) (Region (providerSpec s)) (backendServiceName s)
        (bs2\<lparr>Backends := Backends bs2 @ [controlPlaneBackend s]\<rparr>)]"
      by (auto simp: updateBackendServiceWithInstanceGroup_def run_Ok invoke_Ok_iff Let_def controlPlaneBackend_def)
    from getBackendService_Ok [OF 2(1)] obtain cs2 where "u = s" "backendAnswer s bs2" "calls w2 = calls v @ cs2"
      by (auto simp: backendAnswer_def)
    with 1 2 show ?thesis by (auto simp: backed_def)
  qed
qed

lemma ensureInstanceGroup_Ok:
  assumes "ensureInstanceGroup g (s, w) = (Ok (), (s', w'))"
  shows "s' = s \<and> (\<exists>cs. calls w' = calls w @ cs \<and> backed s cs)"
proof -
  obtain res u t v where get: "attempt (onSnd (invoke (CallInstanceGroupGet (projectID s) (Zone (providerSpec s)) g)
        (InstanceGroupGet (computeSvc s) (projectID s) (Zone (providerSpec s)) g))) (s, w) = (Ok res, (s, u))"
    and ins: "insertIfMissing g (case res of Inl e \<Rightarrow> Some e | Inr _ \<Rightarrow> None) (s, u) = (Ok (), (t, v))"
    and second: "ensureBackend g (t, v) = (Ok (), (s', w'))"
    using assms unfolding ensureInstanceGroup_def
    by (elim seq_OkE) (auto simp: scope_Ok_iff attempt_run onSnd_run invoke_run split: prod.splits sum.splits)
  have "obeys (onScope (\<lambda>s. s) (logGrows (\<lambda>_. True))) (insertIfMissing g err)" for err
    unfolding insertIfMissing_def registerNewInstanceGroup_def Let_def by (intro obeys_intros; simp)
  from kept_scope [OF this ins] obtain cs where "t = s" "calls v = calls u @ cs" by blast
  moreover have "\<exists>cs. calls u = calls w @ cs"
    using get by (auto simp: attempt_run onSnd_run invoke_run split: prod.splits sum.splits)
  ultimately obtain cs where "t = s" "calls v = calls w @ cs" by auto
  with ensureBackend_Ok second show ?thesis by (fastforce simp: backed_def)
qed

lemma fetchRunning_Ok:
  "fetchRunningInstancesInInstanceGroup p z g (s, w) = (Ok is, st) \<Longrightarrow>
   \<exists>items w'. st = (s, w') \<and> is = set items \<and>
     (\<exists>x y. InstanceGroupsListInstances (computeSvc s) p z g ''RUNNING'' x = (Inr (Some items), y)) \<and>
     calls w' = calls w @ [CallInstanceGroupsListInstances p z g ''RUNNING'']"
  by (auto simp: fetchRunningInstancesInInstanceGroup_def run_Ok invoke_Ok_iff) blast

text \<open>
  C15. When \<open>registerInstanceToControlPlaneInstanceGroup\<close> succeeds, the group of the machine's
  zone backs the internal API: either the backend service already listed it, or it was
  updated with exactly the backends it had, in order, and the group at the end.  The
  instance is then added to the group exactly when the group's running instances do not
  include it and its recorded state is running, and that add is the last call.
\<close>

theorem registerInstance_spec:
  assumes "registerInstanceToControlPlaneInstanceGroup (s, w) = (Ok (), (s', w'))"
  shows "s' = s \<and> (\<exists>ensuring bs items.
    backendAnswer s bs \<and>
    (FQDNInstanceGroup s \<in> Group ` set (Backends bs) \<or>
     CallAddInstanceGroupToBackendService (projectID s) (Region (providerSpec s)) (backendServiceName s)
       (bs\<lparr>Backends := Backends bs @ [controlPlaneBackend s]\<rparr>) \<in> set ensuring) \<and>
    (\<exists>x y. InstanceGroupsListInstances (computeSvc s) (projectID s) (Zone (providerSpec s)) (controlPlaneGroupName s) ''RUNNING'' x
       = (Inr (Some items), y)) \<and>
    calls w' = calls w @ ensuring @
      CallInstanceGroupsListInstances (projectID s) (Zone (providerSpec s)) (controlPlaneGroupName s) ''RUNNING'' #
      (if selfLink s \<notin> set items \<and> InstanceState (providerStatus s) = Some ''RUNNING''
       then [CallInstanceGroupsAddInstances (projectID s) (Zone (providerSpec s)) (selfLink s) (controlPlaneGroupName s)]
       else []))"
proof -
  let ?g = "controlPlaneGroupName s"
  obtain t v where e: "ensureInstanceGroup ?g (s, w) = (Ok (), (t, v))"
    and rest: "seq (fetchRunningInstancesInInstanceGroup (projectID s) (Zone (providerSpec s)) ?g) (\<lambda>instanceSets.
       if selfLink s \<notin> instanceSets \<and>
        (case InstanceState (providerStatus s) of None \<Rightarrow> '''' | Some st \<Rightarrow> st) = ''RUNNING''
       then seq (onErr (errorfV ''InstanceGroupsAddInstances request failed: '')
                 (onSnd (invoke (CallInstanceGroupsAddInstances (projectID s) (Zone (providerSpec s)) (selfLink s) ?g)
                           (InstanceGroupsAddInstances (computeSvc s) (projectID s) (Zone (providerSpec s)) (selfLink s) ?g))))
            (\<lambda>_. ret ())
       else ret ()) (t, v) = (Ok (), (s', w'))"
    using assms unfolding registerInstanceToControlPlaneInstanceGroup_def Let_def
    by (auto simp: seq_Ok_iff scope_Ok_iff)
  from ensureInstanceGroup_Ok [OF e] obtain ensuring where
    t: "t = s" "calls v = calls w @ ensuring" "backed s ensuring" by blast
  have state: "(case InstanceState (providerStatus s) of None \<Rightarrow> '''' | Some st \<Rightarrow> st) = ''RUNNING''
      \<longleftrightarrow> InstanceState (providerStatus s) = Some ''RUNNING''" by (simp split: option.splits)
  obtain items v1 where f: "\<exists>x y. InstanceGroupsListInstances (computeSvc s) (projectID s) (Zone (providerSpec s)) ?g ''RUNNING'' x
       = (Inr (Some items), y)"
    "calls v1 = calls v @ [CallInstanceGroupsListInstances (projectID s) (Zone (providerSpec s)) ?g ''RUNNING'']"
    and fin: "(if selfLink s \<notin> set items \<and> InstanceState (providerStatus s) = Some ''RUNNING''
       then seq (onErr (errorfV ''InstanceGroupsAddInstances request failed: '')
                 (onSnd (invoke (CallInstanceGroupsAddInstances (projectID s) (Zone (providerSpec s)) (selfLink s) ?g)
                           (InstanceGroupsAddInstances (computeSvc s) (projectID s) (Zone (providerSpec s)) (selfLink s) ?g))))
            (\<lambda>_. ret ())
       else ret ()) (s, v1) = (Ok (), (s', w'))"
    using rest unfolding t(1) state by (elim seq_OkE) (auto dest!: fetchRunning_Ok)
  have "s' = s" "calls w' = calls v @ CallInstanceGroupsListInstances (projectID s) (Zone (providerSpec s)) ?g ''RUNNING'' #
      (if selfLink s \<notin> set items \<and> InstanceState (providerStatus s) = Some ''RUNNING''
       then [CallInstanceGroupsAddInstances (projectID s) (Zone (providerSpec s)) (selfLink s) ?g] else [])"
    using fin f(2) by (auto simp: run_Ok invoke_Ok_iff split: if_splits)
  moreover obtain bs where "backendAnswer s bs" "FQDNInstanceGroup s \<in> Group ` set (Backends bs) \<or>
      CallAddInstanceGroupToBackendService (projectID s) (Region (providerSpec s)) (backendServiceName s)
        (bs\<lparr>Backends := Backends bs @ [controlPlaneBackend s]\<rparr>) \<in> set ensuring"
    using t(3) unfolding backed_def by blast
  ultimately show ?thesis
    using f(1) t(2) by (intro conjI exI [of _ ensuring] exI [of _ bs] exI [of _ items]) simp_all
qed

theorem registerInstance_spec_witness:
  "fst (registerInstanceToControlPlaneInstanceGroup (sampleScope, sampleWorld)) = Ok () \<and>
   (\<exists>ensuring. calls (snd (snd (registerInstanceToControlPlaneInstanceGroup (sampleScope, sampleWorld)))) =
      ensuring @ [CallInstanceGroupsListInstances ''p1'' ''r1-a'' ''cl-master-r1-a'' ''RUNNING''])"
proof -
  have ok: "fst (registerInstanceToControlPlaneInstanceGroup (sampleScope, sampleWorld)) = Ok ()" by code_simp
  then obtain s' w' where run: "registerInstanceToControlPlaneInstanceGroup (sampleScope, sampleWorld) = (Ok (), (s', w'))"
    by (metis prod.exhaust fst_conv)
  have "projectID (sampleScope :: unit machineScope) = ''p1'' \<and> Zone (providerSpec (sampleScope :: unit machineScope)) = ''r1-a'' \<and>
    controlPlaneGroupName (sampleScope :: unit machineScope) = ''cl-master-r1-a'' \<and>
    InstanceState (providerStatus (sampleScope :: unit machineScope)) = None \<and> calls sampleWorld = []"
    by code_simp
  with registerInstance_spec [OF run] ok run show ?thesis by auto
qed

section \<open>Names\<close>

lemma slash_split:
  assumes "CHR ''/'' \<notin> set a" and "CHR ''/'' \<notin> set b" and "a @ CHR ''/'' # x = b @ CHR ''/'' # y"
  shows "a = b \<and> x = y"
  using assms
proof (induction a arbitrary: b)
  case Nil
  then show ?case by (cases b) auto
next
  case (Cons c a)
  then show ?case by (cases b) auto
qed

text \<open>
  A self link identifies its instance: for projects and zones without a slash, which is
  what the compute API allows, two instances with the same self link have the same
  project, zone and name.  So the membership tests of pools and groups, which compare
  self links, cannot confuse two machines.
\<close>

theorem fmtInstanceSelfLink_injective:
  assumes "CHR ''/'' \<notin> set project" and "CHR ''/'' \<notin> set project'"
    and "CHR ''/'' \<notin> set zone" and "CHR ''/'' \<notin> set zone'"
  shows "fmtInstanceSelfLink project zone name = fmtInstanceSelfLink project' zone' name' \<longleftrightarrow>
     project = project' \<and> zone = zone' \<and> name = name'"
proof
  assume "fmtInstanceSelfLink project zone name = fmtInstanceSelfLink project' zone' name'"
  then have "project @ CHR ''/'' # ''zones/'' @ zone @ ''/instances/'' @ name =
      project' @ CHR ''/'' # ''zones/'' @ zone' @ ''/instances/'' @ name'"
    by (simp add: fmtInstanceSelfLink_def)
  with slash_split [OF assms(1,2)] have "project = project'"
    and "zone @ CHR ''/'' # ''instances/'' @ name = zone' @ CHR ''/'' # ''instances/'' @ name'" by auto
  with slash_split [OF assms(3,4)] show "project = project' \<and> zone = zone' \<and> name = name'" by auto
qed simp

theorem fmtInstanceSelfLink_injective_witness:
  "fmtInstanceSelfLink ''p1'' ''r1-a'' ''worker-0'' \<noteq> fmtInstanceSelfLink ''p1'' ''r1-b'' ''worker-0''"
  using fmtInstanceSelfLink_injective [of "''p1''" "''p1''" "''r1-a''" "''r1-b''" "''worker-0''" "''worker-0''"] by simp

end
