(* ===== verification/Reconciler_Ops.thy ===== *)
theory Reconciler_Ops
  imports Reconciler_Create Reconciler_Pools
begin

text \<open>
  The remaining operations of \<open>machine/reconciler.go\<close>: \<open>update\<close>, \<open>exists\<close> and \<open>delete\<close>.
\<close>

section \<open>Definitions\<close>

definition isMaster :: "Machine \<Rightarrow> bool" where
  "isMaster m \<longleftrightarrow> mapIndex (m_Labels m) openshiftMachineRoleLabel = masterMachineRole"

definition update :: "('w, unit) rec" where
  "update =
     seq validateOrFail (\<lambda>_.
     seq (processTargetPools True addInstanceToTargetPool) (\<lambda>_.
     seq (getScope (\<lambda>r. isMaster (machine r))) (\<lambda>master.
     seq (if master
          then onErr (errorfV ''failed to register instance to instance group: '') registerInstanceToControlPlaneInstanceGroup
          else ret ()) (\<lambda>_.
     reconcileMachineWithCloudState None))))"

text \<open>Whenever \<open>exists\<close> returns an error its boolean result is false.\<close>

definition existsError :: "'w machineScope \<Rightarrow> error \<Rightarrow> ('s, bool) go" where
  "existsError r err =
     (if isProjectNotFoundError err (projectID r)
      then raise (InvalidMachineConfiguration (projectID r @ '': Project does not exist''))
      else if isInvalidZone err
      then raise (InvalidMachineConfiguration (Zone (providerSpec r) @ '': Zone does not exist''))
      else if isNotFoundError (Some err) then ret False
      else raise (errorfV ''error getting running instances: '' err))"

definition exists :: "('w, bool) rec" where
  "exists =
     seq (getScope (\<lambda>r. r)) (\<lambda>r.
     case validateMachine (machine r) (providerSpec r) of
       Some err \<Rightarrow> raise (errorfV ''failed validating machine provider spec: '' err)
     | None \<Rightarrow>
         seq (attempt (onSnd (invoke (CallInstancesGet (projectID r) (Zone (providerSpec r)) (m_Name (machine r)))
                                (InstancesGet (computeSvc r) (projectID r) (Zone (providerSpec r)) (m_Name (machine r)))))) (\<lambda>res.
         case res of
           Inl err \<Rightarrow> existsError r err
         | Inr _ \<Rightarrow> ret True))"

definition deleteInstance :: "('w, unit) rec" where
  "deleteInstance =
     seq (getScope (\<lambda>r. r)) (\<lambda>r.
     let name = m_Name (machine r) in
     seq (orMetric (FailedInstanceDelete name (m_Namespace (machine r)) ''failed to delete instance via compute service'')
            (errorfV ''failed to delete instance via compute service: '')
            (onSnd (invoke (CallInstancesDelete (m_UID (machine r)) (projectID r) (Zone (providerSpec r)) name)
                      (InstancesDelete (computeSvc r) (m_UID (machine r)) (projectID r) (Zone (providerSpec r)) name)))) (\<lambda>_.
     raise (RequeueAfterError requeueAfterSeconds)))"

definition deleteExisting :: "('w, unit) rec" where
  "deleteExisting =
     seq (getScope machine) (\<lambda>m.
     seq (if isMaster m
          then onErr (errorfV (m_Name m @ '': failed to unregister instance from instance group: ''))
                 unregisterInstanceFromControlPlaneInstanceGroup
          else ret ()) (\<lambda>_.
     deleteInstance))"

definition delete :: "('w, unit) rec" where
  "delete =
     seq (processTargetPools False deleteInstanceFromTargetPool) (\<lambda>_.
     seq (attempt exists) (\<lambda>res.
     let found = (case res of Inl _ \<Rightarrow> False | Inr b \<Rightarrow> b);
         err = (case res of Inl e \<Rightarrow> Some e | Inr _ \<Rightarrow> None) in
     seq (getScope machine) (\<lambda>m.
     if ProviderID m \<noteq> None \<and> isInvalidMachineConfigurationError err
     then raise (PlainError (''the machine '' @ m_Name m @ '' has invalid configuration, but already exists, ''
            @ ''make the configuration of the machine valid for the deletion to be successful''))
     else
       seq (case err of Some e \<Rightarrow> if \<not> isInvalidMachineConfigurationError err then raise e else ret () | None \<Rightarrow> ret ()) (\<lambda>_.
       if \<not> found then ret () else deleteExisting))))"

section \<open>Exists\<close>

lemma existsError_run:
  "existsError r err st =
    (if isProjectNotFoundError err (projectID r)
     then Err (InvalidMachineConfiguration (projectID r @ '': Project does not exist''))
     else if isInvalidZone err
     then Err (InvalidMachineConfiguration (Zone (providerSpec r) @ '': Zone does not exist''))
     else if isNotFoundError (Some err) then Ok False
     else Err (errorfV ''error getting running instances: '' err), st)"
  by (simp add: existsError_def run_basic)

lemma exists_run:
  assumes "InstancesGet (computeSvc s) (projectID s) (Zone (providerSpec s)) (m_Name (machine s)) (ext w) = (q, e)"
  defines "w1 \<equiv> w\<lparr>ext := e, calls := calls w @ [CallInstancesGet (projectID s) (Zone (providerSpec s)) (m_Name (machine s))]\<rparr>"
  shows "exists (s, w) =
    (case validateMachine (machine s) (providerSpec s) of
       Some err \<Rightarrow> (Err (errorfV ''failed validating machine provider spec: '' err), (s, w))
     | None \<Rightarrow> (case q of Inl err \<Rightarrow> existsError s err (s, w1) | Inr _ \<Rightarrow> (Ok True, (s, w1))))"
  using assms(1)
  by (auto simp: exists_def go_simps w1_def split: option.splits sum.splits)

lemma zone_not_404: "isInvalidZone err \<Longrightarrow> \<not> isNotFoundError (Some err) \<and> \<not> isProjectNotFoundError err p"
  by (cases err) (auto simp: isInvalidZone_def isProjectNotFoundError_def)

text \<open>
  C4. \<open>exists\<close> leaves the scope alone and asks the cloud once, and only about a valid machine.
  It answers true exactly when the cloud returned the instance, and false exactly when the
  cloud answered 404 for something other than the project.  Its error is an
  invalid-configuration error exactly when the project is unknown or the zone is invalid;
  an invalid provider spec gives an error that is not one.
\<close>

theorem exists_spec:
  assumes "InstancesGet (computeSvc s) (projectID s) (Zone (providerSpec s)) (m_Name (machine s)) (ext w) = (q, e)"
    and "exists (s, w) = (r, (s', w'))"
  defines "valid \<equiv> validateMachine (machine s) (providerSpec s) = None"
  shows "s' = s \<and>
    calls w' = calls w @ (if valid then [CallInstancesGet (projectID s) (Zone (providerSpec s)) (m_Name (machine s))] else []) \<and>
    (r = Ok True \<longleftrightarrow> valid \<and> (\<exists>p. q = Inr p)) \<and>
    (r = Ok False \<longleftrightarrow> valid \<and>
       (\<exists>err. q = Inl err \<and> isNotFoundError (Some err) \<and> \<not> isProjectNotFoundError err (projectID s))) \<and>
    ((\<exists>err. r = Err err \<and> isInvalidMachineConfigurationError (Some err)) \<longleftrightarrow> valid \<and>
       (\<exists>err. q = Inl err \<and> (isProjectNotFoundError err (projectID s) \<or> isInvalidZone err)))"
  using assms(2) unfolding exists_run [OF assms(1)] valid_def
  by (auto simp: existsError_run zone_not_404 split: option.splits sum.splits if_splits)

theorem exists_spec_witness:
  "fst (exists (sampleScope\<lparr>computeSvc := sampleService\<lparr>InstancesGet :=
     (\<lambda>_ _ _ e. (Inl (GoogleError 404 [] [] [] [] None), e))\<rparr>\<rparr>, sampleWorld)) = Ok False"
proof -
  let ?s = "sampleScope\<lparr>computeSvc := sampleService\<lparr>InstancesGet :=
     (\<lambda>_ _ _ e. (Inl (GoogleError 404 [] [] [] [] None), e))\<rparr>\<rparr>"
  obtain r s' w' where run: "exists (?s, sampleWorld) = (r, (s', w'))" by (metis prod.exhaust)
  have "validateMachine sampleMachine sampleSpec = None" by code_simp
  then have "validateMachine (machine ?s) (providerSpec ?s) = None" by (simp add: sampleScope_def)
  with exists_spec [of ?s sampleWorld "Inl (GoogleError 404 [] [] [] [] None)" "()" r s' w'] run
  show ?thesis by (simp add: isProjectNotFoundError_def sampleWorld_def)
qed

section \<open>Delete\<close>

definition isPlain :: "error \<Rightarrow> bool" where
  "isPlain e \<longleftrightarrow> (\<exists>txt. e = PlainError txt)"

lemma isPlain_simps [simp]:
  "isPlain (PlainError txt)" "isPlain (errorfV pre e)" "\<not> isPlain (RequeueAfterError n)"
  "\<not> isPlain (InvalidMachineConfiguration msg)"
  by (auto simp: isPlain_def errorfV_def InvalidMachineConfiguration_def)

lemma plain_orMetric [fails_intros]: "(\<And>e. E (f e)) \<Longrightarrow> failsWith E (orMetric m f act)"
  unfolding orMetric_def registerMetric_def by (intro fails_intros; simp)

lemma plain_pools:
  "failsWith isPlain (processTargetPools desired deleteInstanceFromTargetPool)"
  unfolding processTargetPools_def processPool_def instanceExistsInPool_def deleteInstanceFromTargetPool_def Let_def
  by (intro fails_intros; simp)

lemma plain_unregister: "failsWith isPlain unregisterInstanceFromControlPlaneInstanceGroup"
  unfolding unregisterInstanceFromControlPlaneInstanceGroup_def Let_def by (intro fails_intros; simp)

fun isPoolCall :: "call \<Rightarrow> bool" where
  "isPoolCall (CallTargetPoolsGet _ _ _) = True"
| "isPoolCall (CallTargetPoolsRemoveInstance _ _ _ _) = True"
| "isPoolCall _ = False"

fun isGroupCall :: "call \<Rightarrow> bool" where
  "isGroupCall (CallInstanceGroupsListInstances _ _ _ _) = True"
| "isGroupCall (CallInstanceGroupsRemoveInstances _ _ _ _) = True"
| "isGroupCall _ = False"

lemma delete_pools_frame:
  assumes "processTargetPools False deleteInstanceFromTargetPool (s, w) = (r, (s', w'))"
  obtains pools where "s' = s" "calls w' = calls w @ pools" "list_all isPoolCall pools"
proof -
  have "obeys (onScope (\<lambda>s. s) (logGrows isPoolCall)) (processTargetPools False deleteInstanceFromTargetPool)"
    by (intro obeys_intros) simp_all
  from obeysD [OF this assms] that show ?thesis by (auto simp: onScope_def logGrows_def)
qed

text \<open>The removal of an instance that is there.\<close>

lemma deleteInstance_run:
  "\<exists>w'. deleteInstance (s, w) = (if fst (InstancesDelete (computeSvc s) (m_UID (machine s)) (projectID s)
        (Zone (providerSpec s)) (m_Name (machine s)) (ext w)) \<in> range Inr
      then (Err (RequeueAfterError 20), (s, w'))
      else (Err (errorfV ''failed to delete instance via compute service: '' (projl (fst (InstancesDelete (computeSvc s)
        (m_UID (machine s)) (projectID s) (Zone (providerSpec s)) (m_Name (machine s)) (ext w))))), (s, w'))) \<and>
    calls w' = calls w @ [CallInstancesDelete (m_UID (machine s)) (projectID s) (Zone (providerSpec s)) (m_Name (machine s))]"
  by (auto simp: deleteInstance_def orMetric_def registerMetric_def Let_def go_simps requeueAfterSeconds_def
      split: prod.splits sum.splits)

lemma deleteExisting_cases:
  assumes "deleteExisting (s, w) = (r, (s', w'))"
  obtains groups own where "s' = s" "calls w' = calls w @ groups @ own" "list_all isGroupCall groups"
    "own = [] \<and> (\<forall>e. r = Err e \<longrightarrow> isPlain e) \<and> r \<noteq> Ok () \<or>
     own = [CallInstancesDelete (m_UID (machine s)) (projectID s) (Zone (providerSpec s)) (m_Name (machine s))] \<and>
     (r = Err (RequeueAfterError 20) \<or> (\<exists>e. r = Err e \<and> isPlain e))"
proof -
  let ?unreg = "if isMaster (machine s)
    then onErr (errorfV (m_Name (machine s) @ '': failed to unregister instance from instance group: ''))
           unregisterInstanceFromControlPlaneInstanceGroup
    else ret ()"
  have frame: "obeys (onScope (\<lambda>s. s) (logGrows isGroupCall)) ?unreg" by (intro obeys_intros) simp_all
  have plain: "failsWith isPlain ?unreg" by (intro fails_intros) simp_all
  obtain q t v where q: "?unreg (s, w) = (q, (t, v))" by (metis prod.exhaust)
  from obeysD [OF frame q] obtain groups where t: "t = s" "calls v = calls w @ groups" "list_all isGroupCall groups"
    by (auto simp: onScope_def logGrows_def)
  have run: "(case q of Ok x \<Rightarrow> deleteInstance (s, v) | Err e \<Rightarrow> (Err e, (s, v)) | Crash c \<Rightarrow> (Crash c, (s, v))) = (r, (s', w'))"
    using assms unfolding deleteExisting_def
    by (simp add: seq_run scope_run q t split: outcome.splits)
  show ?thesis
  proof (cases q)
    case (Ok x)
    obtain w2 where "deleteInstance (s, v) = (r, (s, w2))" "w' = w2" "s' = s"
      "calls w2 = calls v @ [CallInstancesDelete (m_UID (machine s)) (projectID s) (Zone (providerSpec s)) (m_Name (machine s))]"
      "r = Err (RequeueAfterError 20) \<or> (\<exists>e. r = Err e \<and> isPlain e)"
      using run Ok deleteInstance_run [of s v] by (auto split: if_splits)
    with t that show ?thesis by simp
  next
    case (Err e)
    with run t that [of groups "[]"] failsWithD [OF plain q [unfolded Err]] show ?thesis by auto
  next
    case (Crash c)
    with run t that [of groups "[]"] show ?thesis by auto
  qed
qed

lemma existsError_simps:
  "fst (existsError r err st) = Ok True \<longleftrightarrow> False"
  "fst (existsError r err st) \<noteq> Crash c"
  by (simp_all add: existsError_run)

text \<open>The cloud's answer says that there is no such instance.\<close>

definition saysAbsent :: "'w machineScope \<Rightarrow> error \<Rightarrow> bool" where
  "saysAbsent s err \<longleftrightarrow> isNotFoundError (Some err) \<and> \<not> isProjectNotFoundError err (projectID s) \<or>
     ProviderID (machine s) = None \<and> (isProjectNotFoundError err (projectID s) \<or> isInvalidZone err)"

text \<open>What \<open>delete\<close> does once the target pools are dealt with.\<close>

lemma delete_tail:
  assumes "processTargetPools False deleteInstanceFromTargetPool (s, w) = (Ok (), (s, v))"
    and "InstancesGet (computeSvc s) (projectID s) (Zone (providerSpec s)) (m_Name (machine s)) (ext v) = (q, e)"
  defines "v1 \<equiv> v\<lparr>ext := e, calls := calls v @ [CallInstancesGet (projectID s) (Zone (providerSpec s)) (m_Name (machine s))]\<rparr>"
  shows "delete (s, w) =
    (case validateMachine (machine s) (providerSpec s) of
       Some err \<Rightarrow> (Err (errorfV ''failed validating machine provider spec: '' err), (s, v))
     | None \<Rightarrow>
         (case q of
            Inl err \<Rightarrow>
              (if saysAbsent s err then Ok ()
               else if isProjectNotFoundError err (projectID s) \<or> isInvalidZone err
               then Err (PlainError (''the machine '' @ m_Name (machine s) @ '' has invalid configuration, but already exists, ''
                      @ ''make the configuration of the machine valid for the deletion to be successful''))
               else Err (errorfV ''error getting running instances: '' err), (s, v1))
          | Inr _ \<Rightarrow> deleteExisting (s, v1)))"
  unfolding v1_def
  by (auto simp: delete_def assms(1) exists_run [OF assms(2)] existsError_run saysAbsent_def zone_not_404
      go_simps Let_def split: option.splits sum.splits)

text \<open>
  C2. What a run of \<open>delete\<close> does, whatever the cloud answers.  The scope is left alone.  All
  calls before the lookup are about target pools; after it come instance group calls and at
  most one delete, which is the last call and names this machine (uid, project, zone and
  name) and no other.  Success means that the lookup was the last call and the cloud said
  that the instance is not there (for an unknown project or an invalid zone only if no
  provider id was ever set).  The request to come back after 20 seconds is made only
  right after a delete.
\<close>

theorem delete_spec:
  assumes "delete (s, w) = (r, (s', w'))"
  defines "lookup \<equiv> CallInstancesGet (projectID s) (Zone (providerSpec s)) (m_Name (machine s))"
    and "own \<equiv> CallInstancesDelete (m_UID (machine s)) (projectID s) (Zone (providerSpec s)) (m_Name (machine s))"
  shows "s' = s \<and> (\<exists>pools. list_all isPoolCall pools \<and>
     ((\<exists>rest. calls w' = calls w @ pools @ rest \<and> rest \<in> {[], [lookup]} \<and>
         (r = Ok () \<longrightarrow> rest = [lookup] \<and>
            (\<exists>x err y. InstancesGet (computeSvc s) (projectID s) (Zone (providerSpec s)) (m_Name (machine s)) x = (Inl err, y)
               \<and> saysAbsent s err)) \<and>
         (\<forall>n. r \<noteq> Err (RequeueAfterError n))) \<or>
      (\<exists>groups. list_all isGroupCall groups \<and> r \<noteq> Ok () \<and>
         validateMachine (machine s) (providerSpec s) = None \<and>
         (calls w' = calls w @ pools @ lookup # groups \<and> (\<forall>n. r \<noteq> Err (RequeueAfterError n)) \<or>
          calls w' = calls w @ pools @ lookup # groups @ [own]))))"
proof -
  obtain p t v where p: "processTargetPools False deleteInstanceFromTargetPool (s, w) = (p, (t, v))"
    by (metis prod.exhaust)
  then obtain pools where t: "t = s" "calls v = calls w @ pools" "list_all isPoolCall pools"
    by (rule delete_pools_frame)
  show ?thesis
  proof (cases p)
    case (Ok u)
    with p t have pools: "processTargetPools False deleteInstanceFromTargetPool (s, w) = (Ok (), (s, v))" by simp
    obtain q e where q: "InstancesGet (computeSvc s) (projectID s) (Zone (providerSpec s)) (m_Name (machine s)) (ext v) = (q, e)"
      by force
    note run = assms(1) [unfolded delete_tail [OF pools q]]
    show ?thesis
    proof (cases "validateMachine (machine s) (providerSpec s) = None \<and> (\<exists>x. q = Inr x)")
      case True
      then obtain x where x: "q = Inr x" "validateMachine (machine s) (providerSpec s) = None" by blast
      from run x have "deleteExisting (s, v\<lparr>ext := e, calls := calls v @ [lookup]\<rparr>) = (r, (s', w'))"
        by (simp add: lookup_def)
      then show ?thesis
        by (rule deleteExisting_cases) (use t x(2) in \<open>auto simp: own_def isPlain_def\<close>)
    next
      case False
      then have "s' = s \<and> (\<exists>rest. calls w' = calls w @ pools @ rest \<and> rest \<in> {[], [lookup]} \<and>
         (r = Ok () \<longrightarrow> rest = [lookup] \<and>
            (\<exists>x err y. InstancesGet (computeSvc s) (projectID s) (Zone (providerSpec s)) (m_Name (machine s)) x = (Inl err, y)
               \<and> saysAbsent s err)) \<and> (\<forall>n. r \<noteq> Err (RequeueAfterError n)))"
        using run q t(2) by (auto simp: lookup_def errorfV_def split: option.splits sum.splits if_splits)
      with t(3) show ?thesis by blast
    qed
  next
    case (Err x)
    have "isPlain x" using failsWithD [OF plain_pools p [unfolded Err]] .
    then have "s' = s \<and> calls w' = calls w @ pools \<and> r = Err x \<and> (\<forall>n. r \<noteq> Err (RequeueAfterError n))"
      using assms(1) p t Err by (auto simp: delete_def seq_run isPlain_def)
    with t(3) show ?thesis by auto
  next
    case (Crash x)
    then have "s' = s \<and> calls w' = calls w @ pools \<and> r = Crash x"
      using assms(1) p t by (auto simp: delete_def seq_run)
    with t(3) show ?thesis by auto
  qed
qed

theorem delete_spec_witness:
  "fst (snd (delete (sampleScope, sampleWorld))) = sampleScope \<and>
   \<not> (fst (delete (sampleScope, sampleWorld)) = Ok ())"
proof -
  obtain r s' w' where run: "delete (sampleScope, sampleWorld) = (r, (s', w'))" by (metis prod.exhaust)
  have "s' = sampleScope" using delete_spec [OF run] by blast
  moreover have "fst (InstancesGet (computeSvc sampleScope) p z n ()) = Inr (Some runningInstance)" for p z n
    by (simp add: sampleScope_def sampleService_def)
  then have "r \<noteq> Ok ()" using delete_spec [OF run] by (auto simp: prod_eq_iff)
  ultimately show ?thesis using run by simp
qed

text \<open>
  C40. A machine whose provider spec is invalid cannot be deleted, even if nothing was ever
  created for it: \<open>exists\<close> formats the validation error with \<open>%v\<close>, so \<open>delete\<close> does not see an
  invalid configuration and returns the error.  Without target pools it does so before
  any request.
\<close>

theorem delete_invalid_spec:
  assumes "validateMachine (machine s) (providerSpec s) = Some err" and "TargetPools (providerSpec s) = []"
  shows "\<exists>e. delete (s, w) = (Err e, (s, w)) \<and> \<not> isInvalidMachineConfigurationError (Some e)"
proof -
  have "processTargetPools False deleteInstanceFromTargetPool (s, w) = (Ok (), (s, w))"
    using assms(2) by (simp add: processTargetPools_def go_simps)
  moreover obtain q x where "InstancesGet (computeSvc s) (projectID s) (Zone (providerSpec s)) (m_Name (machine s)) (ext w) = (q, x)"
    by force
  ultimately show ?thesis using assms(1) by (simp add: delete_tail)
qed

theorem delete_invalid_spec_witness:
  "\<exists>e. delete (sampleScope\<lparr>providerSpec := zeroProviderSpec, machine := sampleMachine\<lparr>m_Labels := None\<rparr>\<rparr>, sampleWorld) =
     (Err e, (sampleScope\<lparr>providerSpec := zeroProviderSpec, machine := sampleMachine\<lparr>m_Labels := None\<rparr>\<rparr>, sampleWorld)) \<and>
     \<not> isInvalidMachineConfigurationError (Some e)"
proof (rule delete_invalid_spec)
  show "validateMachine (machine (sampleScope\<lparr>providerSpec := zeroProviderSpec, machine := sampleMachine\<lparr>m_Labels := None\<rparr>\<rparr>))
      (providerSpec (sampleScope\<lparr>providerSpec := zeroProviderSpec, machine := sampleMachine\<lparr>m_Labels := None\<rparr>\<rparr>)) =
    Some (InvalidMachineConfiguration (''machine is missing '' @ Quote MachineClusterIDLabel @ '' label''))"
    by (simp add: validateMachine_def zeroProviderSpec_def)
qed (simp add: zeroProviderSpec_def)

section \<open>Update\<close>

fun isUpdateCall :: "bool \<Rightarrow> call \<Rightarrow> bool" where
  "isUpdateCall master (CallTargetPoolsGet _ _ _) = True"
| "isUpdateCall master (CallTargetPoolsAddInstance _ _ _ _) = True"
| "isUpdateCall master (CallBackendServiceGet _ _ _) = master"
| "isUpdateCall master (CallInstanceGroupGet _ _ _) = master"
| "isUpdateCall master (CallInstanceGroupInsert _ _ _) = master"
| "isUpdateCall master (CallAddInstanceGroupToBackendService _ _ _ _) = master"
| "isUpdateCall master (CallInstanceGroupsListInstances _ _ _ _) = master"
| "isUpdateCall master (CallInstanceGroupsAddInstances _ _ _ _) = master"
| "isUpdateCall master _ = False"

text \<open>The part of \<open>update\<close> before the look at the cloud.\<close>

definition updateHead :: "('w, unit) rec" where
  "updateHead =
     seq (processTargetPools True addInstanceToTargetPool) (\<lambda>_.
     seq (getScope (\<lambda>r. isMaster (machine r))) (\<lambda>master.
     if master
     then onErr (errorfV ''failed to register instance to instance group: '') registerInstanceToControlPlaneInstanceGroup
     else ret ()))"

lemma update_split:
  "update = seq validateOrFail (\<lambda>_. seq updateHead (\<lambda>_. reconcileMachineWithCloudState None))"
  by (simp add: update_def updateHead_def seq_assoc)

lemma updateHead_frame:
  assumes "updateHead (s, w) = (r, (s', w'))"
  obtains cs where "s' = s" "calls w' = calls w @ cs" "list_all (isUpdateCall (isMaster (machine s))) cs"
proof -
  have pools: "obeys (onScope (\<lambda>s. s) (logGrows (isUpdateCall m))) (processTargetPools True addInstanceToTargetPool)" for m
    by (intro obeys_intros) simp_all
  have groups: "obeys (onScope (\<lambda>s. s) (logGrows (isUpdateCall True)))
      (onErr (errorfV ''failed to register instance to instance group: '') registerInstanceToControlPlaneInstanceGroup)"
    by (intro obeys_intros) simp_all
  let ?m = "isMaster (machine s)"
  obtain p t v where p: "processTargetPools True addInstanceToTargetPool (s, w) = (p, (t, v))" by (metis prod.exhaust)
  from obeysD [OF pools p] have t: "t = s" and pv: "logGrows (isUpdateCall ?m) w v" by (auto simp: onScope_def)
  have "s' = s \<and> logGrows (isUpdateCall ?m) w w'"
  proof (cases "p = Ok () \<and> ?m")
    case True
    then have "onErr (errorfV ''failed to register instance to instance group: '') registerInstanceToControlPlaneInstanceGroup (s, v)
        = (r, (s', w'))"
      using assms p t by (simp add: updateHead_def seq_run scope_run)
    from obeysD [OF groups this] True pv show ?thesis by (auto simp: onScope_def intro: logGrows_trans)
  next
    case False
    then show ?thesis using assms p t pv
      by (auto simp: updateHead_def seq_run scope_run run_basic split: outcome.splits)
  qed
  with that show ?thesis by (auto simp: logGrows_def)
qed

text \<open>
  C3. \<open>update\<close> refuses an invalid machine with an invalid-configuration error, before any
  request and without touching the scope.  Otherwise it makes target pool calls, instance
  group and backend calls for a master machine only, and looks the instance up at most
  once, as its last call; it never inserts or deletes an instance.  It keeps the provider
  spec and the fixed parts of the scope.  Success means that the lookup was made, that the
  instance runs and that provider id and a true \<open>MachineCreated\<close> condition are recorded.
\<close>

theorem update_spec:
  assumes "update (s, w) = (r, (s', w'))"
  defines "lookup \<equiv> CallInstancesGet (projectID s) (Zone (providerSpec s)) (m_Name (machine s))"
  shows "fixedScope s' = fixedScope s \<and> providerSpec s' = providerSpec s \<and>
    (validateMachine (machine s) (providerSpec s) \<noteq> None \<longrightarrow>
       s' = s \<and> w' = w \<and> (\<exists>e. r = Err e \<and> isInvalidMachineConfigurationError (Some e))) \<and>
    (\<exists>cs tl. calls w' = calls w @ cs @ tl \<and> list_all (isUpdateCall (isMaster (machine s))) cs \<and> tl \<in> {[], [lookup]} \<and>
       (r = Ok () \<longrightarrow> tl = [lookup] \<and> ProviderID (machine s') = Some (providerID s) \<and>
          InstanceState (providerStatus s') = Some ''RUNNING'' \<and>
          saysCondition succeedCondition (Conditions (providerStatus s'))))"
proof (cases "validateMachine (machine s) (providerSpec s)")
  case (Some err)
  then show ?thesis using assms(1)
    by (auto simp: update_def seq_run validateOrFail_run)
next
  case None
  obtain h t v where h: "updateHead (s, w) = (h, (t, v))" by (metis prod.exhaust)
  then obtain cs where t: "t = s" and cs: "calls v = calls w @ cs" "list_all (isUpdateCall (isMaster (machine s))) cs"
    by (rule updateHead_frame)
  show ?thesis
  proof (cases h)
    case (Ok u)
    have run: "reconcileMachineWithCloudState None (s, v) = (r, (s', w'))"
      using assms(1) None h Ok t by (simp add: update_split seq_run validateOrFail_run)
    obtain q e where g: "InstancesGet (computeSvc s) (projectID s) (Zone (providerSpec s)) (m_Name (machine s)) (ext v) = (q, e)"
      by force
    have "fixedScope s' = fixedScope s \<and> providerSpec s' = providerSpec s"
      using run unfolding reconcile_run [OF g]
      by (auto simp: reportedScope_def fixedScope_def specificsMachine_def Let_def
          split: sum.splits option.splits list.splits)
    with None cs reconcile_accepted [OF run] show ?thesis
      by (intro conjI exI [of _ cs] exI [of _ "[lookup]"]) (auto simp: lookup_def)
  qed (use assms(1) None h t cs in \<open>auto simp: update_split seq_run validateOrFail_run\<close>)
qed

theorem update_spec_witness:
  "fst (update (sampleScope, sampleWorld)) = Ok () \<and>
   InstanceState (providerStatus (fst (snd (update (sampleScope, sampleWorld))))) = Some ''RUNNING''"
proof -
  have ok: "fst (update (sampleScope, sampleWorld)) = Ok ()" by code_simp
  then obtain s' w' where run: "update (sampleScope, sampleWorld) = (Ok (), (s', w'))" by (metis prod.exhaust fst_conv)
  show ?thesis using update_spec [OF run] ok run by auto
qed

end
