(* ===== verification/Actuator.thy ===== *)
theory Actuator
  imports Reconciler_Ops
begin

text \<open>
  \<open>machine/actuator.go\<close>: the four entry points the machine controller calls.  Each makes a
  scope, runs one operation of the reconciler and turns its outcome into events, patches
  and a wrapped error.
\<close>

section \<open>Definitions\<close>

text \<open>
  The actuator, less the event recorder, which is part of the world, and the feature gates,
  which nothing reads.
\<close>

record 'w Actuator =
  act_coreClient :: "'w Client"
  act_computeClientBuilder :: "string \<Rightarrow> error + 'w GCPComputeService"
  act_tagsClientBuilder :: "string \<Rightarrow> error + 'w TagService"

record 'w ActuatorParams =
  prm_CoreClient :: "'w Client"
  prm_ComputeClientBuilder :: "string \<Rightarrow> error + 'w GCPComputeService"
  prm_TagsClientBuilder :: "string \<Rightarrow> error + 'w TagService"

definition NewActuator :: "'w ActuatorParams \<Rightarrow> 'w Actuator" where
  "NewActuator params = \<lparr>act_coreClient = prm_CoreClient params,
     act_computeClientBuilder = prm_ComputeClientBuilder params,
     act_tagsClientBuilder = prm_TagsClientBuilder params\<rparr>"

definition createEventAction :: string where
  "createEventAction = ''Create''"

definition updateEventAction :: string where
  "updateEventAction = ''Update''"

definition deleteEventAction :: string where
  "deleteEventAction = ''Delete''"

definition noEventAction :: string where
  "noEventAction = ''''"

definition scopeFail :: "string \<Rightarrow> error \<Rightarrow> error" where
  "scopeFail name err = errorfW (name @ '': failed to create scope for machine: '') err"

definition reconcilerFail :: "string \<Rightarrow> string \<Rightarrow> error \<Rightarrow> error" where
  "reconcilerFail name action err = errorfW (name @ '': reconciler failed to '' @ action @ '' machine: '') err"

definition handleMachineError :: "Machine \<Rightarrow> error \<Rightarrow> string \<Rightarrow> ('w world, 'a) go" where
  "handleMachineError m err eventAction =
     (if eventAction \<noteq> noEventAction
      then seq (recordEvent \<lparr>ev_Object = m_Name m, ev_Type = EventTypeWarning,
                  ev_Reason = ''Failed'' @ eventAction, ev_Message = Error err\<rparr>) (\<lambda>_. raise err)
      else raise err)"

definition normalEvent :: "Machine \<Rightarrow> string \<Rightarrow> string \<Rightarrow> ('w world, unit) go" where
  "normalEvent m reason msg =
     recordEvent \<lparr>ev_Object = m_Name m, ev_Type = EventTypeNormal, ev_Reason = reason, ev_Message = msg\<rparr>"

definition scopeParams :: "'w Actuator \<Rightarrow> Machine \<Rightarrow> 'w machineScopeParams" where
  "scopeParams a m = \<lparr>par_coreClient = act_coreClient a, par_machine = m,
     computeClientBuilder = act_computeClientBuilder a, tagsClientBuilder = act_tagsClientBuilder a\<rparr>"

text \<open>
  The scope works on a deep copy of the caller's machine, so an entry point has both: it runs
  on the caller's machine and the world, and a body that has been given a scope runs the
  reconciler on it.
\<close>

type_synonym ('w, 'a) act = "(Machine \<times> 'w world, 'a) go"

definition runWith :: "'w machineScope \<Rightarrow> ('w, 'a) rec \<Rightarrow> ('w, 'a) act" where
  "runWith s body = (\<lambda>(m, w). case body (s, w) of (r, (s', w')) \<Rightarrow> (r, (m, w')))"

definition withScope ::
    "golib \<Rightarrow> 'w Actuator \<Rightarrow> (Machine \<Rightarrow> error \<Rightarrow> ('w world, 'a) go) \<Rightarrow>
     ('w machineScope \<Rightarrow> Machine \<Rightarrow> ('w, 'a) act) \<Rightarrow> ('w, 'a) act" where
  "withScope lib a fail body = (\<lambda>(m, w).
     case newMachineScope lib (scopeParams a m) w of
       (Ok s, w1) \<Rightarrow> body s m (m, w1)
     | (Err e, w1) \<Rightarrow> (case fail m e w1 of (r, w2) \<Rightarrow> (r, (m, w2)))
     | (Crash c, w1) \<Rightarrow> (Crash c, (m, w1)))"

definition failScope :: "string \<Rightarrow> Machine \<Rightarrow> error \<Rightarrow> ('w world, 'a) go" where
  "failScope action m err = handleMachineError m (scopeFail (m_Name m) err) action"

definition failReconciler :: "string \<Rightarrow> Machine \<Rightarrow> error \<Rightarrow> ('w, 'a) rec" where
  "failReconciler action m err = onSnd (handleMachineError m (reconcilerFail (m_Name m) action err) action)"

definition Create :: "golib \<Rightarrow> 'w Actuator \<Rightarrow> ('w, unit) act" where
  "Create lib a = withScope lib a (failScope createEventAction) (\<lambda>s m. runWith s
     (seq (attempt (create lib)) (\<lambda>res.
      case res of
        Inl err \<Rightarrow> seq (attempt (Close lib)) (\<lambda>_. failReconciler createEventAction m err)
      | Inr _ \<Rightarrow>
          seq (onSnd (normalEvent m createEventAction (''Created Machine '' @ m_Name m))) (\<lambda>_.
          Close lib))))"

definition returnResult :: "error + bool \<Rightarrow> ('s, bool) go" where
  "returnResult res = (case res of Inl e \<Rightarrow> raise e | Inr b \<Rightarrow> ret b)"

definition Exists :: "golib \<Rightarrow> 'w Actuator \<Rightarrow> ('w, bool) act" where
  "Exists lib a = withScope lib a (\<lambda>m err. raise (scopeFail (m_Name m) err)) (\<lambda>s _.
     seq (attempt (runWith s exists)) (\<lambda>res.
     if \<not> isInvalidMachineConfigurationError (case res of Inl e \<Rightarrow> Some e | Inr _ \<Rightarrow> None)
     then returnResult res
     else
       seq (modify (\<lambda>(m, w). (if Phase (m_Status m) = None
              then m\<lparr>m_Status := (m_Status m)\<lparr>Phase := Some ''Failed''\<rparr>\<rparr> else m, w))) (\<lambda>_.
       seq (gets fst) (\<lambda>m.
       seq (deref (Phase (m_Status m))) (\<lambda>phase.
       if phase = ''Deleting'' \<and> ProviderID m = None then ret False
       else returnResult res)))))"

definition Update :: "golib \<Rightarrow> 'w Actuator \<Rightarrow> ('w, unit) act" where
  "Update lib a = withScope lib a (failScope updateEventAction) (\<lambda>s m. runWith s
     (seq (attempt update) (\<lambda>res.
      case res of
        Inl err \<Rightarrow> seq (attempt (Close lib)) (\<lambda>_. failReconciler updateEventAction m err)
      | Inr _ \<Rightarrow>
          seq (getScope (\<lambda>s. ResourceVersion (machine s))) (\<lambda>previousResourceVersion.
          seq (Close lib) (\<lambda>_.
          seq (getScope (\<lambda>s. ResourceVersion (machine s))) (\<lambda>currentResourceVersion.
          if previousResourceVersion \<noteq> currentResourceVersion
          then onSnd (normalEvent m updateEventAction (''Updated Machine '' @ m_Name m))
          else ret ()))))))"

definition Delete :: "golib \<Rightarrow> 'w Actuator \<Rightarrow> ('w, unit) act" where
  "Delete lib a = withScope lib a (failScope deleteEventAction) (\<lambda>s m. runWith s
     (seq (attempt delete) (\<lambda>res.
      case res of
        Inl err \<Rightarrow> failReconciler deleteEventAction m err
      | Inr _ \<Rightarrow> onSnd (normalEvent m deleteEventAction (''Deleted machine '' @ m_Name m)))))"

section \<open>Operations of the reconciler as the actuator sees them\<close>

lemma silent_reconcile [obeys_intros, simp]: "obeys silently (reconcileMachineWithCloudState c)"
proof (rule obeysI)
  fix x r y assume eq: "reconcileMachineWithCloudState c x = (r, y)"
  obtain s w where x: "x = (s, w)" by force
  obtain s' w' where y: "y = (s', w')" by force
  show "silently x y"
  proof (cases c)
    case None
    with eq have "reconcileMachineWithCloudState None (s, w) = (r, (s', w'))" by (simp add: x y)
    from reconcile_accepted [OF this] show ?thesis by (simp add: x y onScope_def sameEvents_def)
  next
    case (Some d)
    with eq show ?thesis by (auto simp: x y onScope_def sameEvents_def reconcileMachineWithCloudState_def go_simps)
  qed
qed

lemma silent_buildInstance [obeys_intros, simp]: "obeys silently (buildInstance lib z)"
  by (rule obeys_mono [OF build_buildInstance]) (auto simp: onScope_def callsOnly_def sameEvents_def)

lemma silent_create: "obeys silently (create lib)"
  unfolding create_def insertInstance_def by (intro obeys_intros; simp)

lemma silent_update: "obeys silently update"
  unfolding update_def by (intro obeys_intros; simp)

lemma silent_exists [obeys_intros, simp]: "obeys silently exists"
  unfolding exists_def existsError_def by (intro obeys_intros; simp)

lemma silent_delete: "obeys silently delete"
  unfolding delete_def deleteExisting_def deleteInstance_def Let_def by (intro obeys_intros; simp)

lemma withScope_run:
  assumes "newMachineScope lib (scopeParams a m) w = (Ok s, w1)"
  shows "withScope lib a fail body (m, w) = body s m (m, w1)"
  using assms by (simp add: withScope_def)

lemma runWith_run: "runWith s body (m, w) = (case body (s, w) of (r, (s', w')) \<Rightarrow> (r, (m, w')))"
  by (simp add: runWith_def)

lemma newMachineScope_events: "newMachineScope lib params w = (r, w1) \<Longrightarrow> events w1 = events w"
  using obeysD [OF silent_newMachineScope] by (fastforce simp: sameEvents_def)

lemma failReconciler_run:
  "action \<noteq> noEventAction \<Longrightarrow> failReconciler action m e (s, w) =
    (Err (reconcilerFail (m_Name m) action e), (s, w\<lparr>events := events w @
       [\<lparr>ev_Object = m_Name m, ev_Type = EventTypeWarning, ev_Reason = ''Failed'' @ action,
         ev_Message = Error (reconcilerFail (m_Name m) action e)\<rparr>]\<rparr>))"
  by (simp add: failReconciler_def handleMachineError_def recordEvent_def go_simps)

lemma reconcilerFail_class [simp]:
  "isInvalidMachineConfigurationError (Some (reconcilerFail n action e)) = isInvalidMachineConfigurationError (Some e)"
  "chain (reconcilerFail n action e) = reconcilerFail n action e # chain e"
  by (simp_all add: reconcilerFail_def) (simp add: errorfW_def)

text \<open>The event of a failed entry point.\<close>

definition failureEvent :: "string \<Rightarrow> error \<Rightarrow> event \<Rightarrow> bool" where
  "failureEvent action e ev \<longleftrightarrow>
     ev_Type ev = EventTypeWarning \<and> ev_Reason ev = ''Failed'' @ action \<and> ev_Message ev = Error e"

text \<open>
  What the actuator relies on: the operation records no event of its own.  Then an entry point
  that runs it under an action records exactly one event when it fails, and passes the
  classification of the error on.
\<close>

locale reconciler_operation =
  fixes op :: "('w, unit) rec" and action :: string
  assumes quiet: "obeys silently op"
    and named: "action \<noteq> noEventAction"
begin

lemma op_events: "op (s, w) = (r, (s1, w1)) \<Longrightarrow> events w1 = events w"
  using obeysD [OF quiet] by (fastforce simp: onScope_def sameEvents_def)

lemma failure:
  assumes scope: "newMachineScope lib (scopeParams a m) w = (Ok s, w0)"
    and op: "op (s, w0) = (Err e, (s1, w1))"
    and body: "body s m (s, w0) = seq (attempt close) (\<lambda>_. failReconciler action m e) (s1, w1)"
    and close: "obeys silently close" "\<And>x c y. close x \<noteq> (Crash c, y)"
  shows "\<exists>e' w' ev. withScope lib a fail (\<lambda>s m. runWith s (body s m)) (m, w) = (Err e', (m, w')) \<and> chain e' = e' # chain e \<and>
     (isInvalidMachineConfigurationError (Some e') \<longleftrightarrow> isInvalidMachineConfigurationError (Some e)) \<and>
     events w' = events w @ [ev] \<and> failureEvent action e' ev"
proof -
  obtain q s2 w2 where c: "close (s1, w1) = (q, (s2, w2))" by (metis prod.exhaust)
  have "events w2 = events w"
    using obeysD [OF close(1) c] op_events [OF op] newMachineScope_events [OF scope]
    by (simp add: onScope_def sameEvents_def)
  moreover have "\<exists>x. attempt close (s1, w1) = (Ok x, (s2, w2))"
    using c close(2) by (cases q) (auto simp: attempt_run)
  ultimately show ?thesis
    by (auto simp: withScope_run [OF scope] runWith_run body seq_run failReconciler_run [OF named] failureEvent_def)
qed

end

interpretation creating: reconciler_operation "create lib" createEventAction
  by unfold_locales (simp_all add: silent_create createEventAction_def noEventAction_def)

interpretation updating: reconciler_operation update updateEventAction
  by unfold_locales (simp_all add: silent_update updateEventAction_def noEventAction_def)

interpretation deleting: reconciler_operation delete deleteEventAction
  by unfold_locales (simp_all add: silent_delete deleteEventAction_def noEventAction_def)

section \<open>Properties\<close>

text \<open>
  C10. A failure of \<open>create\<close>, \<open>update\<close> or \<open>delete\<close> under the entry point of the actuator: the
  error is returned wrapped, so that it is an invalid configuration for the machine
  controller exactly when it was one for the reconciler, and exactly one event is recorded,
  a warning \<open>Failed<action>\<close> with the text of the returned error.  The caller's machine is
  as before, since the scope works on a copy.
\<close>

theorem actuator_reports_failure:
  assumes "newMachineScope lib (scopeParams a m) w = (Ok s, w0)"
    and "(op, entry, action) \<in> {(create lib, Create lib a, ''Create''), (update, Update lib a, ''Update''),
           (delete, Delete lib a, ''Delete'')}"
    and "op (s, w0) = (Err e, (s1, w1))"
  shows "\<exists>e' w' ev. entry (m, w) = (Err e', (m, w')) \<and> chain e' = e' # chain e \<and>
     (isInvalidMachineConfigurationError (Some e') \<longleftrightarrow> isInvalidMachineConfigurationError (Some e)) \<and>
     events w' = events w @ [ev] \<and> failureEvent action e' ev"
proof -
  have close: "Close lib x \<noteq> (Crash c, y)" for x :: "'a machineScope \<times> 'a world" and c y
    by (cases x) (simp add: Close_not_Crash)
  from assms(2) consider
    (c) "op = create lib" "entry = Create lib a" "action = createEventAction"
    | (u) "op = update" "entry = Update lib a" "action = updateEventAction"
    | (d) "op = delete" "entry = Delete lib a" "action = deleteEventAction"
    by (auto simp: createEventAction_def updateEventAction_def deleteEventAction_def)
  then show ?thesis
  proof cases
    case c
    show ?thesis unfolding c Create_def
      by (rule creating.failure [OF assms(1) assms(3) [unfolded c] _ silent_Close close])
        (simp add: seq_run attempt_run assms(3) [unfolded c])
  next
    case u
    show ?thesis unfolding u Update_def
      by (rule updating.failure [OF assms(1) assms(3) [unfolded u] _ silent_Close close])
        (simp add: seq_run attempt_run assms(3) [unfolded u])
  next
    case d
    show ?thesis unfolding d Delete_def
      by (rule deleting.failure [OF assms(1) assms(3) [unfolded d], where close = "ret ()"])
        (simp_all add: seq_run attempt_run assms(3) [unfolded d] run_basic)
  qed
qed

text \<open>An actuator over the sample services, and one whose compute service knows no such zone.\<close>

definition sampleActuator :: "unit Actuator" where
  "sampleActuator = NewActuator \<lparr>prm_CoreClient = sampleClient,
     prm_ComputeClientBuilder = (\<lambda>_. Inr sampleService), prm_TagsClientBuilder = (\<lambda>_. Inr sampleTags)\<rparr>"

definition badZoneService :: "'w GCPComputeService" where
  "badZoneService = sampleService\<lparr>
     InstancesInsert := (\<lambda>_ _ _ e. (Inl (GoogleError 400 ''bad zone'' [] [] [] None), e)),
     InstancesGet := (\<lambda>_ _ _ e. (Inl (GoogleError 400 [] [] []
        [(''invalid'', ''Invalid value for field '' @ sq @ ''zone'' @ sq)] None), e))\<rparr>"

definition badZoneActuator :: "unit Actuator" where
  "badZoneActuator = sampleActuator\<lparr>act_computeClientBuilder := (\<lambda>_. Inr badZoneService)\<rparr>"

lemma sample_scopes:
  "newMachineScope sampleLib (scopeParams sampleActuator sampleMachine) sampleWorld = (Ok sampleScope, sampleWorld)"
  "newMachineScope sampleLib (scopeParams badZoneActuator sampleMachine) sampleWorld =
     (Ok (sampleScope\<lparr>computeSvc := badZoneService\<rparr>), sampleWorld)"
  by (simp_all add: newMachineScope_def scopeParams_def sampleActuator_def badZoneActuator_def NewActuator_def sampleLib_def
      sampleScope_def ProviderSpecFromRawExtension_def ProviderStatusFromRawExtension_def GetCredentialsSecret_def go_simps
      sampleSpec_def zeroProviderSpec_def sampleMachine_def Let_def)

theorem actuator_reports_failure_witness:
  "\<exists>e w ev. Create sampleLib badZoneActuator (sampleMachine, sampleWorld) = (Err e, (sampleMachine, w)) \<and>
     isInvalidMachineConfigurationError (Some e) \<and> events w = [ev] \<and> failureEvent ''Create'' e ev"
proof -
  have run: "(case create sampleLib ((sampleScope :: unit machineScope)\<lparr>computeSvc := badZoneService\<rparr>, sampleWorld) of
      (Err e, _) \<Rightarrow> isInvalidMachineConfigurationError (Some e) | _ \<Rightarrow> False)"
    by code_simp
  then obtain e s1 w1 where
    "create sampleLib ((sampleScope :: unit machineScope)\<lparr>computeSvc := badZoneService\<rparr>, sampleWorld) = (Err e, (s1, w1))"
    and "isInvalidMachineConfigurationError (Some e)"
    by (auto split: prod.splits outcome.splits)
  with actuator_reports_failure [OF sample_scopes(2), of "create sampleLib" "Create sampleLib badZoneActuator" "''Create''" e s1 w1]
  show ?thesis by (auto simp: sampleWorld_def)
qed

text \<open>
  C11. \<open>Exists\<close> passes the answer of the reconciler on, records no event and patches nothing,
  unless the configuration is invalid (unknown project or zone).  Then a machine without
  a phase becomes failed, in the caller's object, and the error is returned; except that a
  machine which is being deleted and has no provider id is reported as absent, without an
  error, so that its deletion can go on.
\<close>

theorem Exists_spec:
  assumes "newMachineScope lib (scopeParams a m) w = (Ok s, w0)"
    and "exists (s, w0) = (q, (s1, w1))" and "Exists lib a (m, w) = (r, (m', w'))"
  defines "invalid \<equiv> \<exists>e. q = Err e \<and> isInvalidMachineConfigurationError (Some e)"
  shows "calls w' = calls w1 \<and> events w' = events w \<and>
    (\<not> invalid \<longrightarrow> r = q \<and> m' = m) \<and>
    (invalid \<longrightarrow>
       m' = m\<lparr>m_Status := (m_Status m)\<lparr>Phase := Some (case Phase (m_Status m) of None \<Rightarrow> ''Failed'' | Some p \<Rightarrow> p)\<rparr>\<rparr> \<and>
       r = (if Phase (m_Status m) = Some ''Deleting'' \<and> ProviderID m = None then Ok False else q))"
proof -
  have "events w1 = events w"
    using obeysD [OF silent_exists assms(2)] newMachineScope_events [OF assms(1)]
    by (simp add: onScope_def sameEvents_def)
  moreover have "Exists lib a (m, w) = (if invalid
      then (if Phase (m_Status m) = Some ''Deleting'' \<and> ProviderID m = None then Ok False else q,
            (m\<lparr>m_Status := (m_Status m)\<lparr>Phase := Some (case Phase (m_Status m) of None \<Rightarrow> ''Failed'' | Some p \<Rightarrow> p)\<rparr>\<rparr>, w1))
      else (q, (m, w1)))"
    using assms(2) unfolding Exists_def withScope_run [OF assms(1)] invalid_def
    by (cases q; cases "Phase (m_Status m)")
      (simp_all add: seq_run attempt_run returnResult_def run_basic runWith_run)
  ultimately show ?thesis using assms(3) by (simp split: if_splits)
qed

theorem Exists_spec_witness:
  "\<exists>w e. Exists sampleLib badZoneActuator (sampleMachine, sampleWorld) =
     (Err e, (sampleMachine\<lparr>m_Status := (m_Status sampleMachine)\<lparr>Phase := Some ''Failed''\<rparr>\<rparr>, w))"
proof -
  let ?s = "(sampleScope :: unit machineScope)\<lparr>computeSvc := badZoneService\<rparr>"
  have "(case exists (?s, sampleWorld) of (Err e, _) \<Rightarrow> isInvalidMachineConfigurationError (Some e) | _ \<Rightarrow> False)"
    by code_simp
  then obtain e s1 w1 where ex: "exists (?s, sampleWorld) = (Err e, (s1, w1))"
    and inv: "isInvalidMachineConfigurationError (Some e)"
    by (auto split: prod.splits outcome.splits)
  obtain r m' w' where run: "Exists sampleLib badZoneActuator (sampleMachine, sampleWorld) = (r, (m', w'))"
    by (metis prod.exhaust)
  have "Phase (m_Status sampleMachine) = None" by (simp add: sampleMachine_def)
  with Exists_spec [OF sample_scopes(2) ex run] inv run show ?thesis by auto
qed

lemma update_fixed: "obeys (scopeFrame (\<lambda>_. True)) update"
  unfolding update_def by (intro obeys_intros; simp)

lemma sameButShielded_fixed: "sameButShielded t' = sameButShielded t \<Longrightarrow> fixedScope t' = fixedScope t"
  by (elim sameButShieldedD) (simp add: fixedScope_def)

lemma create_fixed: "create lib (s, w) = (r, (s', w')) \<Longrightarrow> fixedScope s' = fixedScope s"
proof -
  have "obeys (scopeFrame (\<lambda>_. True)) (buildInstance lib z)" for z
    by (rule obeys_mono [OF build_buildInstance]) (auto simp: onScope_def intro: sameButShielded_fixed callsOnly_logGrows)
  then have "obeys (scopeFrame (\<lambda>_. True)) (create lib)"
    unfolding create_def insertInstance_def by (intro obeys_intros; simp)
  then show "create lib (s, w) = (r, (s', w')) \<Longrightarrow> fixedScope s' = fixedScope s"
    using obeysD by (fastforce simp: onScope_def)
qed

fun isDeletionCall :: "call \<Rightarrow> bool" where
  "isDeletionCall (CallInstancesGet _ _ _) = True"
| "isDeletionCall (CallInstancesDelete _ _ _ _) = True"
| "isDeletionCall c = (isPoolCall c \<or> isGroupCall c)"

lemma delete_keeps: "obeys (onScope (\<lambda>s. s) (logGrows isDeletionCall)) delete"
  unfolding delete_def deleteExisting_def deleteInstance_def exists_def existsError_def Let_def
  by (intro obeys_intros; simp)

text \<open>
  When the reconciler creates the instance, \<open>Create\<close> records one event, \<open>Created Machine\<close>,
  and then closes the scope, whose result it returns: if closing fails, the event has been
  recorded nevertheless and no failure event is.
\<close>

theorem Create_success:
  assumes "newMachineScope lib (scopeParams a m) w = (Ok s, w0)"
    and "create lib (s, w0) = (Ok (), (s1, w1))" and "Create lib a (m, w) = (r, (m', w'))"
  defines "ev \<equiv> \<lparr>ev_Object = m_Name m, ev_Type = EventTypeNormal, ev_Reason = ''Create'',
     ev_Message = ''Created Machine '' @ m_Name m\<rparr>"
  shows "m' = m \<and> r = fst (Close lib (s1, w1\<lparr>events := events w1 @ [ev]\<rparr>)) \<and> events w' = events w @ [ev]"
proof -
  obtain s2 w2 q where c: "Close lib (s1, w1\<lparr>events := events w1 @ [ev]\<rparr>) = (q, (s2, w2))" by (metis prod.exhaust)
  have "events w2 = events w1 @ [ev]" using obeysD [OF silent_Close c] by (simp add: onScope_def sameEvents_def)
  moreover have "events w1 = events w"
    using creating.op_events [OF assms(2)] newMachineScope_events [OF assms(1)] by simp
  moreover have "(r, (m', w')) = (q, (m, w2))"
    using assms(3) c unfolding Create_def withScope_run [OF assms(1)] ev_def
    by (simp add: runWith_run seq_run attempt_run assms(2) scope_run onSnd_run normalEvent_def recordEvent_def run_basic createEventAction_def)
  ultimately show ?thesis using c by simp
qed

lemma Close_sample:
  assumes "coreClient s = sampleClient"
  shows "fst (Close sampleLib (s, w)) = Ok ()"
proof -
  have "\<exists>x. setMachineStatus sampleLib (s, w) = (Ok (), (s\<lparr>machine := x\<rparr>, w))"
    unfolding setMachineStatus_run
    by (cases "providerStatus s = origProviderStatus s \<and> Addresses (m_Status (machine s)) = Addresses (m_Status (origMachine s))")
      (auto simp: sampleLib_def intro: exI [of _ "machine s"])
  then obtain x where x: "setMachineStatus sampleLib (s, w) = (Ok (), (s\<lparr>machine := x\<rparr>, w))" ..
  have "\<exists>y. setMachineSpec sampleLib (s\<lparr>machine := x\<rparr>, w) = (Ok (), (s\<lparr>machine := y\<rparr>, w))"
    by (simp add: setMachineSpec_def RawExtensionFromProviderSpec_def sampleLib_def go_simps) blast
  then obtain y where y: "setMachineSpec sampleLib (s\<lparr>machine := x\<rparr>, w) = (Ok (), (s\<lparr>machine := y\<rparr>, w))" ..
  have "fst (PatchMachine (s\<lparr>machine := y\<rparr>, w)) = Ok ()"
    using assms by (simp add: PatchMachine_def sampleClient_def go_simps Let_def)
  with x y show ?thesis by (auto simp: Close_def seq_run onErrS_run split: prod.splits outcome.splits)
qed

theorem Create_success_witness:
  "fst (Create sampleLib sampleActuator (sampleMachine, sampleWorld)) = Ok () \<and>
   map ev_Reason (events (snd (snd (Create sampleLib sampleActuator (sampleMachine, sampleWorld))))) = [''Create'']"
proof -
  obtain s1 w1 where run: "create sampleLib (sampleScope, sampleWorld) = (Ok (), (s1, w1))"
    using sample_create by (metis prod.exhaust fst_conv)
  obtain r m' w' where c: "Create sampleLib sampleActuator (sampleMachine, sampleWorld) = (r, (m', w'))"
    by (metis prod.exhaust)
  note spec = Create_success [OF sample_scopes(1) run c]
  have "coreClient s1 = sampleClient" using fixedScopeD(1) [OF create_fixed [OF run]] by (simp add: sampleScope_def)
  with Close_sample spec c show ?thesis by (simp add: sampleWorld_def)
qed

text \<open>
  C12. When the reconciler updates the machine, \<open>Update\<close> closes the scope and returns the
  result of that; it records an event, \<open>Updated Machine\<close>, exactly when closing succeeded
  and the API server's answer carries a resource version other than the machine had when
  the call began.
\<close>

theorem Update_success:
  assumes "newMachineScope lib (scopeParams a m) w = (Ok s, w0)"
    and "update (s, w0) = (Ok (), (s1, w1))" and "Close lib (s1, w1) = (q, (s2, w2))"
    and "Update lib a (m, w) = (r, (m', w'))"
  shows "r = q \<and> m' = m \<and> calls w' = calls w2 \<and>
    events w' = events w @ (if q = Ok () \<and> ResourceVersion (machine s2) \<noteq> ResourceVersion m
      then [\<lparr>ev_Object = m_Name m, ev_Type = EventTypeNormal, ev_Reason = ''Update'',
              ev_Message = ''Updated Machine '' @ m_Name m\<rparr>]
      else [])"
proof -
  have "events w2 = events w"
    using obeysD [OF silent_Close assms(3)] updating.op_events [OF assms(2)] newMachineScope_events [OF assms(1)]
    by (simp add: onScope_def sameEvents_def)
  moreover have "ResourceVersion (machine s1) = ResourceVersion m"
  proof -
    have "fixedScope s1 = fixedScope s" using obeysD [OF update_fixed assms(2)] by (simp add: onScope_def)
    from fixedScopeD(12) [OF this] newMachineScope_machine [OF assms(1)] show ?thesis by (simp add: scopeParams_def)
  qed
  moreover have "Update lib a (m, w) = (q, (m,
      if q = Ok () \<and> ResourceVersion (machine s2) \<noteq> ResourceVersion (machine s1)
      then w2\<lparr>events := events w2 @ [\<lparr>ev_Object = m_Name m, ev_Type = EventTypeNormal, ev_Reason = ''Update'',
              ev_Message = ''Updated Machine '' @ m_Name m\<rparr>]\<rparr>
      else w2))"
    using assms(3) unfolding Update_def withScope_run [OF assms(1)]
    by (cases q; cases "ResourceVersion (machine s1) = ResourceVersion (machine s2)")
      (simp_all add: runWith_run seq_run attempt_run assms(2) scope_run onSnd_run normalEvent_def recordEvent_def run_basic
        updateEventAction_def)
  ultimately show ?thesis using assms(4) by (simp split: if_splits)
qed

text \<open>
  C13. \<open>Delete\<close> never writes the machine: the caller's object is as before, no patch is sent,
  and the only calls are the secret read of the scope, target pool and instance group
  calls, the lookup and the delete of the instance.  Success is announced with exactly one
  event, \<open>Deleted machine\<close>, and only then is the reconciler done.
\<close>

theorem Delete_spec:
  assumes "newMachineScope lib (scopeParams a m) w = (Ok s, w0)"
    and "Delete lib a (m, w) = (r, (m', w'))"
  shows "m' = m \<and>
    (\<exists>cs. calls w' = calls w0 @ cs \<and> list_all isDeletionCall cs) \<and>
    (r = Ok () \<longleftrightarrow> fst (delete (s, w0)) = Ok ()) \<and>
    (r = Ok () \<longrightarrow> events w' = events w @ [\<lparr>ev_Object = m_Name m, ev_Type = EventTypeNormal, ev_Reason = ''Delete'',
       ev_Message = ''Deleted machine '' @ m_Name m\<rparr>])"
proof -
  obtain q s1 w1 where d: "delete (s, w0) = (q, (s1, w1))" by (metis prod.exhaust)
  from obeysD [OF delete_keeps d] have s1: "s1 = s" and cs: "\<exists>cs. calls w1 = calls w0 @ cs \<and> list_all isDeletionCall cs"
    by (simp_all add: onScope_def logGrows_def)
  have ev: "events w1 = events w"
    using deleting.op_events [OF d] newMachineScope_events [OF assms(1)] by simp
  have "m' = m \<and> calls w' = calls w1 \<and> (r = Ok () \<longleftrightarrow> q = Ok ()) \<and>
    (r = Ok () \<longrightarrow> events w' = events w @ [\<lparr>ev_Object = m_Name m, ev_Type = EventTypeNormal, ev_Reason = ''Delete'',
       ev_Message = ''Deleted machine '' @ m_Name m\<rparr>])"
    using assms(2) ev unfolding Delete_def withScope_run [OF assms(1)] s1
    by (cases q) (auto simp: runWith_run seq_run attempt_run d s1 scope_run onSnd_run normalEvent_def recordEvent_def run_basic
        failReconciler_run deleteEventAction_def noEventAction_def)
  with cs d show ?thesis by simp
qed

theorem Delete_spec_witness:
  "fst (snd (Delete sampleLib sampleActuator (sampleMachine, sampleWorld))) = sampleMachine"
proof -
  obtain r m' w' where run: "Delete sampleLib sampleActuator (sampleMachine, sampleWorld) = (r, (m', w'))"
    by (metis prod.exhaust)
  from Delete_spec [OF sample_scopes(1) run] run show ?thesis by simp
qed

lemma sample_update: "fst (update (sampleScope, sampleWorld)) = Ok ()"
  by code_simp

theorem Update_success_witness:
  "fst (Update sampleLib sampleActuator (sampleMachine, sampleWorld)) = Ok ()"
proof -
  obtain s1 w1 where run: "update (sampleScope, sampleWorld) = (Ok (), (s1, w1))"
    using sample_update by (metis prod.exhaust fst_conv)
  have "fixedScope s1 = fixedScope sampleScope" using obeysD [OF update_fixed run] by (simp add: onScope_def)
  from fixedScopeD(1) [OF this] have client: "coreClient s1 = sampleClient" by (simp add: sampleScope_def)
  obtain q s2 w2 where c: "Close sampleLib (s1, w1) = (q, (s2, w2))" by (metis prod.exhaust)
  obtain r m' w' where u: "Update sampleLib sampleActuator (sampleMachine, sampleWorld) = (r, (m', w'))"
    by (metis prod.exhaust)
  from Update_success [OF sample_scopes(1) run c u] Close_sample [OF client, of w1] c u show ?thesis by simp
qed

end
