(* ===== verification/Witnesses.thy ===== *)
theory Witnesses
  imports Actuator
begin

text \<open>
  Concrete runs of the components below the reconciler: each applies a property of another
  theory to an input on which its hypotheses hold.
\<close>

section \<open>Compute service\<close>

definition a2Type :: MachineType where
  "a2Type = \<lparr>mt_Name = ''a2-highgpu-1g'', GuestCpus = 12, MemoryMb = 87040,
     Accelerators = [\<lparr>GuestAcceleratorCount = 1, GuestAcceleratorType = ''nvidia-tesla-a100''\<rparr>]\<rparr>"

definition n1Type :: MachineType where
  "n1Type = \<lparr>mt_Name = ''n1-standard-4'', GuestCpus = 4, MemoryMb = 15360, Accelerators = []\<rparr>"

definition failedCall :: "('w, 'a) extcall" where
  "failedCall w = (Inl (PlainError ''unavailable''), w)"

definition sampleAPI :: "unit ComputeAPI" where
  "sampleAPI = \<lparr>api_InstancesInsert = \<lambda>_ _ _. failedCall, api_ZoneOperationsGet = \<lambda>_ _ _. failedCall,
     api_InstancesGet = \<lambda>_ _ _. failedCall, api_InstancesDelete = \<lambda>_ _ _ _. failedCall, api_ZonesGet = \<lambda>_ _. failedCall,
     api_BasePath = ''https://compute.googleapis.com/compute/v1/'', api_TargetPoolsGet = \<lambda>_ _ _. failedCall,
     api_TargetPoolsAddInstance = \<lambda>_ _ _ _. failedCall, api_TargetPoolsRemoveInstance = \<lambda>_ _ _ _. failedCall,
     api_MachineTypesGet = \<lambda>_ _ _. failedCall,
     api_MachineTypesPages = (\<lambda>_ _ w. (([[n1Type], [a2Type]], None), w)),
     api_AcceleratorTypesGet = \<lambda>_ _ _. failedCall, api_RegionsGet = (\<lambda>_ _ w. (Inr None, w)),
     api_InstanceGroupsAddInstances = \<lambda>_ _ _ _. failedCall, api_InstanceGroupsRemoveInstances = \<lambda>_ _ _ _. failedCall,
     api_InstanceGroupsListInstances = \<lambda>_ _ _ _. failedCall, api_InstanceGroupsInsert = \<lambda>_ _ _. failedCall,
     api_InstanceGroupsGet = \<lambda>_ _ _. failedCall, api_RegionBackendServicesUpdate = \<lambda>_ _ _ _. failedCall,
     api_RegionBackendServicesGet = \<lambda>_ _ _. failedCall, api_ImagesGet = \<lambda>_ _. failedCall,
     api_ImageFamilyViewsGet = \<lambda>_ _ _. failedCall\<rparr>"

theorem GPUCompatibleMachineTypesList_spec_witness:
  "\<exists>m. computeService_GPUCompatibleMachineTypesList sampleAPI ''p1'' ''r1-a'' () = (Ok (m, [''n1-standard-4'']), ()) \<and>
     fmlookup m ''a2-highgpu-1g'' = Some \<lparr>gi_Count = 1, gi_Type = ''nvidia-tesla-a100''\<rparr>"
proof -
  have 1: "api_MachineTypesPages sampleAPI ''p1'' ''r1-a'' () = (([[n1Type], [a2Type]], None), ())"
    by (simp add: sampleAPI_def)
  have 2: "gpuTypesListed (concat [[n1Type], [a2Type]])"
    by (simp add: gpuTypesListed_def a2Type_def n1Type_def gpuFamilyPrefix_def HasPrefix_def)
  have 3: "gpuFamilyPrefix ''a2-highgpu-1g''" "filter (\<lambda>n. \<not> gpuFamilyPrefix n \<and> HasPrefix n ''n1'') [mt_Name n1Type, mt_Name a2Type] = [''n1-standard-4'']"
    "lastNamed [n1Type, a2Type] ''a2-highgpu-1g'' = Some a2Type" "gpuInfoOf a2Type = \<lparr>gi_Count = 1, gi_Type = ''nvidia-tesla-a100''\<rparr>"
    by code_simp+
  show ?thesis using GPUCompatibleMachineTypesList_spec [OF 1 2] 3 by fastforce
qed

section \<open>Credentials, labels and tags\<close>

theorem GetCredentialsSecret_classification_witness:
  "\<exists>e. fst (GetCredentialsSecret (sampleClient\<lparr>GetSecret := \<lambda>_ _ w. (Inl (StatusError ''NotFound'' 404 ''gone''), w)\<rparr>) ''ns''
       (sampleSpec\<lparr>CredentialsSecret := Some ''creds''\<rparr>) sampleWorld) = Err e \<and> \<not> isInvalidMachineConfigurationError (Some e)"
  using GetCredentialsSecret_classification [of "sampleSpec\<lparr>CredentialsSecret := Some ''creds''\<rparr>" "''creds''"
      "sampleClient\<lparr>GetSecret := \<lambda>_ _ w. (Inl (StatusError ''NotFound'' 404 ''gone''), w)\<rparr>" "''ns''" sampleWorld]
  by simp

theorem GetLabelsList_spec_witness:
  "\<exists>labels. fst (GetLabelsList sampleClient ''cl'' (Some (fmap_of_list [(''team'', ''a'')])) sampleWorld) = Ok labels \<and>
     fmlookup labels ''team'' = Some ''a'' \<and> fmlookup labels ''kubernetes-io-cluster-cl'' = Some ''owned''"
proof -
  let ?l = "Some (fmap_of_list [(''team'', ''a'')])"
  have 1: "GetInfrastructureObject sampleClient ''cluster'' (ext sampleWorld) = (Inr \<lparr>infra_PlatformStatus = None\<rparr>, ())"
    by (simp add: sampleClient_def)
  have "userKeys ''cl'' ?l None = {''team''}"
    by (auto simp: userKeys_def ocpLabelKey_def layer_def split: if_splits)
  then have 2: "getInfraResourceLabels None = None" "card (userKeys ''cl'' ?l None) \<le> 32" "ocpLabelKey ''cl'' = ''kubernetes-io-cluster-cl''"
    by (simp_all add: getInfraResourceLabels_def ocpLabelKey_def)
  show ?thesis using GetLabelsList_spec [OF 1, of "''cl''" ?l] 2 by (auto simp: layer_def)
qed

theorem GetResourceManagerTags_calls_bounded_witness:
  "\<exists>names. calls (snd (GetResourceManagerTags sampleClient sampleTags [\<lparr>tag_ParentID = ''o'', tag_Key = ''k'', tag_Value = ''v''\<rparr>] sampleWorld))
     = CallGetInfrastructure ''cluster'' # map CallGetNamespacedName names \<and> length names \<le> 50"
proof -
  obtain r w' where run: "GetResourceManagerTags sampleClient sampleTags [\<lparr>tag_ParentID = ''o'', tag_Key = ''k'', tag_Value = ''v''\<rparr>] sampleWorld = (r, w')"
    by (metis surj_pair)
  from GetResourceManagerTags_calls_bounded [OF this] run show ?thesis by (auto simp: sampleWorld_def)
qed

theorem getTagValuesNames_spec_witness:
  "fst (getTagValuesNames sampleTags [\<lparr>tag_ParentID = ''o'', tag_Key = ''k'', tag_Value = ''v''\<rparr>] sampleWorld) =
     Ok (fmap_of_list [(''tagKeys/1'', ''tagValues/1'')])"
proof -
  let ?f = "\<lambda>name. (Inr (Some \<lparr>tv_Parent = ''tagKeys/1'', tv_Name = ''tagValues/1''\<rparr>) :: error + TagValue ptr)"
  have 1: "\<And>name e. GetNamespacedName sampleTags name e = (?f name, e)" by (simp add: sampleTags_def)
  show ?thesis
    using getTagValuesNames_spec [of sampleTags ?f "[\<lparr>tag_ParentID = ''o'', tag_Key = ''k'', tag_Value = ''v''\<rparr>]" sampleWorld, OF 1]
    by (simp add: hardFailure_def inaccessible_def resolve_def)
qed

section \<open>Images\<close>

theorem parseImageReference_roundtrip_witness:
  "parseImageReference ''https://www.googleapis.com/compute/v1/projects/rhcos-cloud/global/images/family/stable'' ''p1'' =
     Inr \<lparr>ir_Project = ''rhcos-cloud'', ir_Image = ''stable'', ir_IsFamily = True\<rparr>"
proof -
  have "\<not> Contains ''https://www.googleapis.com/compute/v1/'' ''projects/''" by code_simp
  from parseImageReference_roundtrip [OF _ _ this, of "''rhcos-cloud''" "''stable''" "''p1''"] show ?thesis by simp
qed

theorem IsUEFICompatible_spec_witness:
  "fst (IsUEFICompatible sampleService (sampleSpec\<lparr>Disks := [Some (sampleDisk\<lparr>dk_Image := ''rhcos''\<rparr>)]\<rparr>) sampleWorld) = Ok True"
proof -
  let ?spec = "sampleSpec\<lparr>Disks := [Some (sampleDisk\<lparr>dk_Image := ''rhcos''\<rparr>)]\<rparr>"
  have "parseImageReference ''rhcos'' pp = Inr \<lparr>ir_Project = pp, ir_Image = ''rhcos'', ir_IsFamily = False\<rparr>" for pp
  proof -
    have "\<not> Contains ''rhcos'' ''/''" by code_simp
    then show ?thesis by (simp add: parseImageReference_def)
  qed
  moreover have "EqualFold ''UEFI_COMPATIBLE'' ''UEFI_COMPATIBLE''" by code_simp
  ultimately show ?thesis using IsUEFICompatible_spec [where spec = ?spec and svc = sampleService and w = sampleWorld]
    by (simp add: sampleDisk_def sampleService_def uefiAnswer_def isUEFI_def)
qed

section \<open>The machine scope\<close>

theorem newMachineScope_spec_witness:
  "providerID (sampleScope :: unit machineScope) = ''gce://p1/r1-a/worker-0'' \<and> projectID (sampleScope :: unit machineScope) = ps_ProjectID sampleSpec"
proof -
  have "ps_ProjectID (providerSpec (sampleScope :: unit machineScope)) \<noteq> ''''" by (simp add: sample_defs)
  moreover have "Zone (providerSpec (sampleScope :: unit machineScope)) = ''r1-a''" "projectID (sampleScope :: unit machineScope) = ''p1''"
    "m_Name sampleMachine = ''worker-0''" "providerSpec (sampleScope :: unit machineScope) = sampleSpec"
    by (simp_all add: sample_defs)
  ultimately show ?thesis using newMachineScope_spec [OF sample_scopes(1)] by (simp add: scopeParams_def)
qed

theorem Close_patches_witness:
  "\<exists>m1 m2. calls (snd (snd (Close sampleLib (sampleScope, sampleWorld)))) =
     [CallPatch m1 sampleMachine, CallStatusPatch m2 sampleMachine] \<and> m_Status m2 = m_Status m1"
proof -
  have "fst (Close sampleLib (sampleScope, sampleWorld)) = Ok ()" by code_simp
  then obtain s' w' where run: "Close sampleLib (sampleScope, sampleWorld) = (Ok (), (s', w'))"
    by (metis prod.exhaust fst_conv)
  have "machineToBePatched (sampleScope :: unit machineScope) = sampleMachine" "calls sampleWorld = []" by (simp_all add: sample_defs)
  with Close_patches [OF run] run show ?thesis by auto
qed

section \<open>Checks of the reconciler\<close>

theorem validateMachine_spec_witness:
  "validateMachine sampleMachine (sampleSpec\<lparr>ProvisioningModel := Some ''Spot''\<rparr>) = None \<and>
   toComputeProvisioningModel (Some ''Spot'') = Inr ''SPOT''"
proof -
  have "validateMachine sampleMachine (sampleSpec\<lparr>ProvisioningModel := Some ''Spot''\<rparr>) = None" "isSpot (sampleSpec\<lparr>ProvisioningModel := Some ''Spot''\<rparr>)"
    by code_simp+
  with validateMachine_spec [of sampleMachine "sampleSpec\<lparr>ProvisioningModel := Some ''Spot''\<rparr>"] show ?thesis by simp
qed

definition n1GpuScope :: "unit machineScope" where
  "n1GpuScope = sampleScope\<lparr>computeSvc := computeService sampleAPI,
     providerSpec := sampleSpec\<lparr>ps_MachineType := ''a2-highgpu-1g''\<rparr>\<rparr>"

theorem validateGuestAccelerators_no_index_panic_witness:
  "fst (validateGuestAccelerators sampleLib (n1GpuScope, sampleWorld)) = Crash NilDereference"
proof -
  have crash: "(case fst (validateGuestAccelerators sampleLib (n1GpuScope, sampleWorld)) of Crash _ \<Rightarrow> True | _ \<Rightarrow> False)"
    by code_simp
  then obtain c st where run: "validateGuestAccelerators sampleLib (n1GpuScope, sampleWorld) = (Crash c, st)"
    by (cases "validateGuestAccelerators sampleLib (n1GpuScope, sampleWorld)") (auto split: outcome.splits)
  have "(case fst (computeService_GPUCompatibleMachineTypesList sampleAPI (ps_ProjectID (providerSpec n1GpuScope))
     (Zone (providerSpec n1GpuScope)) (ext sampleWorld)) of Crash _ \<Rightarrow> True | _ \<Rightarrow> False) = False"
    by code_simp
  with validateGuestAccelerators_no_index_panic [OF _ run, of sampleAPI] have "c = NilDereference"
    by (auto simp: n1GpuScope_def)
  with run show ?thesis by simp
qed

theorem validateGuestAccelerators_added_gpus_witness:
  "fst (validateGuestAccelerators sampleLib ((sampleScope :: unit machineScope)\<lparr>providerSpec :=
     sampleSpec\<lparr>ps_MachineType := ''a3-ultragpu-8g'', GPUs := [\<lparr>gpu_Count = 8, gpu_Type = ''nvidia-h200''\<rparr>]\<rparr>\<rparr>, sampleWorld)) = Ok ()"
  using validateGuestAccelerators_added_gpus [of "(sampleScope :: unit machineScope)\<lparr>providerSpec :=
     sampleSpec\<lparr>ps_MachineType := ''a3-ultragpu-8g'', GPUs := [\<lparr>gpu_Count = 8, gpu_Type = ''nvidia-h200''\<rparr>]\<rparr>\<rparr>" sampleLib sampleWorld]
  by (simp add: HasPrefix_def)

section \<open>The state of the machine\<close>

theorem reconcileMachineWithCloudState_spec_witness:
  "\<exists>s' w'. reconcileMachineWithCloudState None (sampleScope, sampleWorld) = (Ok (), (s', w')) \<and>
     ProviderID (machine s') = Some ''gce://p1/r1-a/worker-0'' \<and>
     map na_Address (Addresses (m_Status (machine s'))) =
       [''10.0.0.1'', ''35.1.2.3'', ''worker-0.r1-a.c.p1.internal'', ''worker-0.c.p1.internal'', ''worker-0'']"
proof -
  let ?s = "sampleScope :: unit machineScope"
  obtain r s' w' where run: "reconcileMachineWithCloudState None (?s, sampleWorld) = (r, (s', w'))"
    by (metis surj_pair)
  have 1: "InstancesGet (computeSvc ?s) (projectID ?s) (Zone (providerSpec ?s)) (m_Name (machine ?s)) (ext sampleWorld) =
     (Inr (Some runningInstance), ())"
    by (simp add: sampleScope_def sampleService_def)
  have 2: "in_NetworkInterfaces runningInstance = \<lparr>cn_Network = ''net'', cn_Subnetwork = ''sub'', NetworkIP = ''10.0.0.1'',
       AccessConfigs = [\<lparr>NatIP = ''35.1.2.3''\<rparr>]\<rparr> # []" "in_Status runningInstance = ''RUNNING''"
    by (simp_all add: runningInstance_def)
  have 3: "projectID ?s = ''p1''" "Zone (providerSpec ?s) = ''r1-a''" "m_Name (machine ?s) = ''worker-0''" "providerID ?s = ''gce://p1/r1-a/worker-0''"
    by (simp_all add: sample_defs)
  show ?thesis using reconcileMachineWithCloudState_spec [OF 1 2(1) run] run 2(2) 3 by simp
qed

end
