(* ===== verification/Cloud_Lifecycle.thy ===== *)
theory Cloud_Lifecycle
  imports Reconciler_Ops
begin

text \<open>
  The reconciler against an abstract cloud, of which only the set of existing instances is
  seen.  The first part is the frame: whatever a service does besides inserting and deleting
  instances changes the cloud only as a given relation allows, and so do the stages of the reconciler.
  The second part states what the operations do to the set of instances.
\<close>

section \<open>Calls within what may happen to the cloud\<close>

definition keeps :: "('w \<Rightarrow> 'w \<Rightarrow> bool) \<Rightarrow> ('w \<Rightarrow> 'r \<times> 'w) \<Rightarrow> bool" where
  "keeps R f \<longleftrightarrow> (\<forall>e. R e (snd (f e)))"

lemma keepsD: "keeps R f \<Longrightarrow> f e = (q, e') \<Longrightarrow> R e e'"
  unfolding keeps_def by (metis snd_conv)

text \<open>Two such relations: an observation of the cloud is the same, and a condition stays true.\<close>

definition sameObs :: "('w \<Rightarrow> 'i) \<Rightarrow> 'w \<Rightarrow> 'w \<Rightarrow> bool" where
  "sameObs obs e e' \<longleftrightarrow> obs e' = obs e"

definition stays :: "('w \<Rightarrow> bool) \<Rightarrow> 'w \<Rightarrow> 'w \<Rightarrow> bool" where
  "stays Q e e' \<longleftrightarrow> (Q e \<longrightarrow> Q e')"

lemma sameObs_star: "(sameObs obs)\<^sup>*\<^sup>* e e' \<Longrightarrow> obs e' = obs e"
  by (induction rule: rtranclp_induct) (simp_all add: sameObs_def)

lemma stays_star: "(stays Q)\<^sup>*\<^sup>* e e' \<Longrightarrow> Q e \<Longrightarrow> Q e'"
  by (induction rule: rtranclp_induct) (simp_all add: stays_def)

definition sameCloud :: "('w \<Rightarrow> 'w \<Rightarrow> bool) \<Rightarrow> 'w world \<Rightarrow> 'w world \<Rightarrow> bool" where
  "sameCloud R w w' \<longleftrightarrow> R\<^sup>*\<^sup>* (ext w) (ext w')"

definition services :: "'w machineScope \<Rightarrow> 'w GCPComputeService \<times> 'w Client \<times> 'w TagService" where
  "services s = (computeSvc s, coreClient s, tagSvc s)"

text \<open>From a scope with the given services: it keeps them, and the cloud changes within the relation.\<close>

definition cloudKept ::
    "'w GCPComputeService \<times> 'w Client \<times> 'w TagService \<Rightarrow> ('w \<Rightarrow> 'w \<Rightarrow> bool) \<Rightarrow>
     'w machineScope \<times> 'w world \<Rightarrow> 'w machineScope \<times> 'w world \<Rightarrow> bool" where
  "cloudKept v R x y \<longleftrightarrow> (services (fst x) = v \<longrightarrow> services (fst y) = v \<and> sameCloud R (snd x) (snd y))"

named_theorems kept_intros

interpretation same: state_preorder "sameCloud R"
  by unfold_locales (auto simp: sameCloud_def)

interpretation cloud: state_preorder "cloudKept v R"
  by unfold_locales (auto simp: cloudKept_def sameCloud_def)

lemma same_invoke [kept_intros]: "keeps R f \<Longrightarrow> obeys (sameCloud R) (invoke c f)"
  by (auto simp: sameCloud_def obeys_def invoke_def dest: keepsD split: prod.splits)

lemma same_invokeGo [kept_intros]: "keeps R f \<Longrightarrow> obeys (sameCloud R) (invokeGo c f)"
  by (auto simp: sameCloud_def obeys_def invokeGo_def dest: keepsD split: prod.splits)

lemma same_pureCall [kept_intros]: "obeys (sameCloud R) (pureCall r)"
  by (cases r) simp_all

lemma cloud_pureCall [kept_intros]: "obeys (cloudKept v R) (pureCall r)"
  by (cases r) simp_all

lemma cloud_onSnd [kept_intros]: "obeys (sameCloud R) m \<Longrightarrow> obeys (cloudKept v R) (onSnd m)"
  by (auto simp: obeys_def cloudKept_def onSnd_def split: prod.splits) (metis snd_conv)

lemma cloud_updScope [kept_intros]: "(\<And>s. services (f s) = services s) \<Longrightarrow> obeys (cloudKept v R) (updScope f)"
  by (auto simp: obeys_def updScope_def modify_def cloudKept_def sameCloud_def)

lemma same_metric [kept_intros]: "obeys (sameCloud R) (registerMetric m)"
  by (simp add: obeys_def registerMetric_def modify_def sameCloud_def)

lemma same_Now [kept_intros]: "obeys (sameCloud R) Now"
  by (simp add: Now_def)

lemma cloud_getScope [kept_intros]: "obeys (cloudKept v R) (getScope f)"
  by (simp add: getScope_def)

text \<open>What is read from the scope comes from the given services.\<close>

lemma cloud_seq_scope:
  assumes "\<And>s. services s = v \<Longrightarrow> obeys (cloudKept v R) (k (f s))"
  shows "obeys (cloudKept v R) (seq (getScope f) k)"
proof (rule obeysI)
  fix x r y assume run: "seq (getScope f) k x = (r, y)"
  obtain s w where x: "x = (s, w)" by force
  with run have "k (f s) (s, w) = (r, y)" by (simp add: seq_run scope_run)
  with assms [of s] show "cloudKept v R x y" unfolding x by (cases "services s = v") (auto dest: obeysD simp: cloudKept_def)
qed

lemmas structural_same = same.obeys_seq same.obeys_onErr same.obeys_attempt same.obeys_foldG same.obeys_if
  same.obeys_case_option same.obeys_case_sum same.obeys_case_prod same.obeys_ret same.obeys_raise same.obeys_deref

lemmas structural_cloud = cloud_seq_scope cloud.obeys_seq cloud.obeys_onErr cloud.obeys_attempt cloud.obeys_foldG
  cloud.obeys_forEach cloud.obeys_if cloud.obeys_case_option cloud.obeys_case_sum cloud.obeys_case_prod
  cloud.obeys_ret cloud.obeys_raise cloud.obeys_panic cloud.obeys_deref cloud.obeys_firstElem

section \<open>The frame of the reconciler\<close>

text \<open>
  What the reconciler relies on: reads, target pools, instance groups, backend services and
  the API server have nothing to do with which instances exist.
\<close>

locale instance_frame =
  fixes svc :: "'w GCPComputeService" and client :: "'w Client" and tags :: "'w TagService" and R :: "'w \<Rightarrow> 'w \<Rightarrow> bool"
  assumes lookup_kept: "keeps R (InstancesGet svc p z n)"
    and read_kept: "keeps R (RegionGet svc p r)" "keeps R (AcceleratorTypeGet svc p z a)" "keeps R (ImageGet svc p i)"
      "keeps R (ImageFamilyGet svc p z i)" "keeps R (GPUCompatibleMachineTypesList svc p z)"
    and pools_kept: "keeps R (TargetPoolsGet svc p r n)" "keeps R (TargetPoolsAddInstance svc p r n l)"
      "keeps R (TargetPoolsRemoveInstance svc p r n l)"
    and groups_kept: "keeps R (InstanceGroupGet svc p z n)" "keeps R (InstanceGroupInsert svc p z g)"
      "keeps R (InstanceGroupsListInstances svc p z n st)" "keeps R (InstanceGroupsAddInstances svc p z l n)"
      "keeps R (InstanceGroupsRemoveInstances svc p z l n)"
    and backends_kept: "keeps R (BackendServiceGet svc p r n)" "keeps R (AddInstanceGroupToBackendService svc p r n b)"
    and api_kept: "keeps R (GetSecret client ns n)" "keeps R (GetInfrastructureObject client n)"
    and tags_kept: "keeps R (GetNamespacedName tags n)"
begin

lemmas laws = lookup_kept read_kept pools_kept groups_kept backends_kept api_kept tags_kept

lemma same_labels: "obeys (sameCloud R) (GetLabelsList client c ls)"
  unfolding GetLabelsList_def GetInfrastructure_def Let_def
  by (rule structural_same kept_intros laws)+

lemma same_tags: "obeys (sameCloud R) (GetResourceManagerTags client tags ts)"
  unfolding GetResourceManagerTags_def getTagValuesNames_def tagStep_def GetInfrastructure_def Let_def
  by (rule structural_same kept_intros laws)+

lemma same_uefi: "obeys (sameCloud R) (uefiLoop svc spec ds)"
proof (induction ds)
  case (Cons d ds)
  show ?case
    unfolding uefiLoop.simps checkImageUEFICompatible_def checkImageFamilyImageUEFICompatible_def
    by (rule structural_same kept_intros laws Cons.IH)+
qed (simp add: structural_same)

lemma kept_checkQuota: "obeys (cloudKept (svc, client, tags) R) (checkQuota lib gs)"
  unfolding checkQuota_def Let_def
  by (rule structural_cloud kept_intros | simp add: services_def laws)+

lemma kept_accelerators: "obeys (cloudKept (svc, client, tags) R) (validateGuestAccelerators lib)"
  unfolding validateGuestAccelerators_def Let_def
  by (rule structural_cloud kept_intros kept_checkQuota | simp add: services_def laws)+

lemma kept_head: "obeys (cloudKept (svc, client, tags) R) instanceHead"
  unfolding instanceHead_def startInstance_def fetchTags_def setRestart_def setShielded_def defaultShielded_def
    IsUEFICompatible_def
  by (rule structural_cloud kept_intros | simp add: services_def same_labels same_tags same_uefi)+

lemma kept_disk: "obeys (cloudKept (svc, client, tags) R) (diskStep lib zone ts ds p)"
  unfolding diskStep_def sourceImage_def
  by (rule structural_cloud kept_intros | simp add: services_def same_labels)+

lemma kept_metadata: "obeys (cloudKept (svc, client, tags) R) instanceMetadata"
  unfolding instanceMetadata_def getCustomUserData_def metadataStep_def Let_def
  by (rule structural_cloud kept_intros | simp add: services_def laws)+

lemma kept_build: "obeys (cloudKept (svc, client, tags) R) (buildInstance lib zone)"
  unfolding buildInstance_def instanceBody_def nicStep_def
  by (rule structural_cloud kept_intros kept_head kept_accelerators kept_disk kept_metadata | simp)+

lemma kept_pools:
  "obeys (cloudKept (svc, client, tags) R) (processTargetPools True addInstanceToTargetPool)"
  "obeys (cloudKept (svc, client, tags) R) (processTargetPools False deleteInstanceFromTargetPool)"
  unfolding processTargetPools_def processPool_def instanceExistsInPool_def addInstanceToTargetPool_def
    deleteInstanceFromTargetPool_def orMetric_def Let_def
  by (rule structural_cloud kept_intros | simp add: services_def laws)+

lemma kept_network: "obeys (cloudKept (svc, client, tags) R) (findNetwork net sub nics)"
proof (induction nics)
  case (Cons n nics)
  show ?case unfolding findNetwork.simps by (rule structural_cloud kept_intros Cons.IH)+
qed simp

lemma kept_ensure: "obeys (cloudKept (svc, client, tags) R) (ensureInstanceGroup g)"
  unfolding ensureInstanceGroup_def insertIfMissing_def ensureBackend_def registerNewInstanceGroup_def
    ensureCorrectNetworkAndSubnetName_def checkRegistrationOfBackend_def updateBackendServiceWithInstanceGroup_def
    getBackendService_def Let_def
  by (rule structural_cloud kept_intros kept_network | simp add: services_def laws)+

lemma kept_groups:
  "obeys (cloudKept (svc, client, tags) R) registerInstanceToControlPlaneInstanceGroup"
  "obeys (cloudKept (svc, client, tags) R) unregisterInstanceFromControlPlaneInstanceGroup"
  unfolding registerInstanceToControlPlaneInstanceGroup_def unregisterInstanceFromControlPlaneInstanceGroup_def
    fetchRunningInstancesInInstanceGroup_def Let_def
  by (rule structural_cloud kept_intros kept_ensure | simp add: services_def laws)+

lemma kept_updateHead: "obeys (cloudKept (svc, client, tags) R) updateHead"
  unfolding updateHead_def by (rule structural_cloud kept_intros kept_pools kept_groups)+

end

text \<open>
  The mock keeps the instance it received, whatever else is asked of it; so the frame holds for
  it with the whole outside world observed.
\<close>

interpretation mock: instance_frame "mockService NewComputeServiceMock" sampleClient NewMockTagService "sameObs (\<lambda>received :: Instance. received)"
  by unfold_locales (simp_all add: keeps_def sameObs_def mockService_def NewComputeServiceMock_def sampleClient_def NewMockTagService_def
    mock_InstancesGet_def mock_RegionGet_def mock_ImageGet_def mock_ImageFamilyGet_def mock_GPUCompatibleMachineTypesList_def
    mock_TargetPoolsGet_def mock_InstanceGroupGet_def mock_InstanceGroupInsert_def mock_InstanceGroupsListInstances_def
    mock_InstanceGroupsAddInstances_def mock_InstanceGroupsRemoveInstances_def mock_BackendServiceGet_def
    mock_AddInstanceGroupToBackendService_def mock_GetNamespacedName_def run_basic)

section \<open>The set of instances\<close>

type_synonym instanceKey = "string \<times> string \<times> string"

definition ownKey :: "'w machineScope \<Rightarrow> instanceKey" where
  "ownKey s = (projectID s, Zone (providerSpec s), m_Name (machine s))"

text \<open>
  The documented behaviour of the compute API about instances: a lookup that returns the
  instance found it, one that answers not found (or that the zone does not exist) did not;
  an insert adds at most the instance it names, a delete removes at most the one it names.  In this
  abstract cloud nothing happens between the calls: an operation takes effect in its own call or
  not at all.  \<open>Request_Isolation\<close> has operations that go on after the reply.
\<close>

definition cloudLaws ::
    "'w GCPComputeService \<Rightarrow> 'w Client \<Rightarrow> 'w TagService \<Rightarrow> ('w \<Rightarrow> instanceKey set) \<Rightarrow> bool" where
  "cloudLaws svc client tags inst \<longleftrightarrow>
     instance_frame svc client tags (sameObs inst) \<and>
     (\<forall>p z n e x e'. InstancesGet svc p z n e = (Inr x, e') \<longrightarrow> (p, z, n) \<in> inst e) \<and>
     (\<forall>p z n e err e'. InstancesGet svc p z n e = (Inl err, e') \<and> (isNotFoundError (Some err) \<or> isInvalidZone err) \<longrightarrow>
        (p, z, n) \<notin> inst e) \<and>
     (\<forall>p z i e. inst (snd (InstancesInsert svc p z i e)) \<in> {inst e, insert (p, z, in_Name i) (inst e)}) \<and>
     (\<forall>q p z n e. inst (snd (InstancesDelete svc q p z n e)) \<in> {inst e, inst e - {(p, z, n)}})"

lemma cloudKeptD:
  assumes "obeys (cloudKept (computeSvc s, coreClient s, tagSvc s) R) m" and "m (s, w) = (r, (s', w'))"
  shows "sameCloud R w w'"
  using obeysD [OF assms] by (simp add: cloudKept_def services_def)

lemma cloudSameD:
  assumes "obeys (cloudKept (computeSvc s, coreClient s, tagSvc s) (sameObs obs)) m" and "m (s, w) = (r, (s', w'))"
  shows "obs (ext w') = obs (ext w)"
  using cloudKeptD [OF assms] by (auto simp: sameCloud_def dest: sameObs_star)

lemma cloud_frame: "cloudLaws (computeSvc s) (coreClient s) (tagSvc s) inst \<Longrightarrow> instance_frame (computeSvc s) (coreClient s) (tagSvc s) (sameObs inst)"
  by (simp add: cloudLaws_def)

lemma lookup_cloud:
  assumes "cloudLaws (computeSvc s) (coreClient s) (tagSvc s) inst"
    and "InstancesGet (computeSvc s) p z n e = (q, e')"
  shows "inst e' = inst e" "q = Inr x \<Longrightarrow> (p, z, n) \<in> inst e"
    "q = Inl err \<Longrightarrow> isNotFoundError (Some err) \<or> isInvalidZone err \<Longrightarrow> (p, z, n) \<notin> inst e"
proof -
  show "inst e' = inst e"
    using keepsD [OF instance_frame.lookup_kept [OF cloud_frame [OF assms(1)]] assms(2)] by (simp add: sameObs_def)
qed (use assms in \<open>auto simp: cloudLaws_def\<close>)

lemma reconcile_cloud:
  assumes "cloudLaws (computeSvc s) (coreClient s) (tagSvc s) inst"
    and "reconcileMachineWithCloudState None (s, w) = (r, (s', w'))"
  shows "inst (ext w') = inst (ext w) \<and> (r = Ok () \<longrightarrow> ownKey s \<in> inst (ext w'))"
proof -
  obtain q e where g: "InstancesGet (computeSvc s) (projectID s) (Zone (providerSpec s)) (m_Name (machine s)) (ext w) = (q, e)"
    by force
  have e: "ext w' = e" and found: "r = Ok () \<Longrightarrow> \<exists>x. q = Inr x"
    using assms(2) unfolding reconcile_run [OF g] by (auto split: sum.splits option.splits list.splits)
  have "inst e = inst (ext w)" using assms(1) g by (rule lookup_cloud)
  moreover have "ownKey s \<in> inst (ext w)" if "q = Inr x" for x
    unfolding ownKey_def using assms(1) g that by (rule lookup_cloud)
  ultimately show ?thesis using found unfolding e by metis
qed

lemma insertInstance_cloud:
  assumes "cloudLaws (computeSvc s) (coreClient s) (tagSvc s) inst"
    and "insertInstance zone i (s, w) = (r, (s', w'))"
  shows "inst (ext w') \<in> {inst (ext w), insert (projectID s, zone, in_Name i) (inst (ext w))} \<and>
    (r = Ok () \<longrightarrow> ownKey s \<in> inst (ext w'))"
proof -
  obtain q e where q: "InstancesInsert (computeSvc s) (projectID s) zone i (ext w) = (q, e)" by force
  then have ins: "inst e \<in> {inst (ext w), insert (projectID s, zone, in_Name i) (inst (ext w))}"
    using assms(1) unfolding cloudLaws_def by (metis snd_conv)
  show ?thesis
  proof (cases q)
    case (Inr x)
    with assms(2) have "reconcileMachineWithCloudState None
        (s, w\<lparr>ext := e, calls := calls w @ [CallInstancesInsert (projectID s) zone i]\<rparr>) = (r, (s', w'))"
      unfolding insertInstance_run [OF q] by simp
    from reconcile_cloud [OF assms(1) this] ins show ?thesis by (elim conjE) simp
  next
    case (Inl err)
    with assms(2) have "ext w' = e" "r \<noteq> Ok ()" unfolding insertInstance_run [OF q] by auto
    with ins show ?thesis by simp
  qed
qed

lemma create_cloud:
  assumes "cloudLaws (computeSvc s) (coreClient s) (tagSvc s) inst" and "create lib (s, w) = (r, (s', w'))"
  shows "inst (ext w') \<in> {inst (ext w), insert (ownKey s) (inst (ext w))} \<and> (r = Ok () \<longrightarrow> ownKey s \<in> inst (ext w'))"
proof (cases "validateMachine (machine s) (providerSpec s)")
  case None
  let ?z = "Zone (providerSpec s)"
  obtain b t v where b: "buildInstance lib ?z (s, w) = (b, (t, v))" by (metis prod.exhaust)
  obtain cfg reads where t: "t = s\<lparr>providerSpec := (providerSpec s)\<lparr>ShieldedInstanceConfig := cfg\<rparr>\<rparr>"
    using b by (rule buildInstance_frame)
  have v: "inst (ext v) = inst (ext w)"
    using instance_frame.kept_build [OF cloud_frame [OF assms(1)]] b by (rule cloudSameD)
  show ?thesis
  proof (cases "\<exists>i. b = Ok i")
    case True
    then obtain i where Ok: "b = Ok i" ..
    have run: "insertInstance ?z i (t, v) = (r, (s', w'))" using assms(2) None b Ok by (simp add: create_run)
    have "in_Name i = m_Name (machine s)"
      using buildInstance_describes [OF b [unfolded Ok]] by (simp add: describesHead_def Let_def)
    moreover have "ownKey t = ownKey s" "projectID t = projectID s" by (simp_all add: t ownKey_def)
    moreover have "cloudLaws (computeSvc t) (coreClient t) (tagSvc t) inst" using assms(1) by (simp add: t)
    note insertInstance_cloud [OF this run]
    ultimately show ?thesis using v by (simp add: ownKey_def)
  next
    case False
    then have "w' = v" "r \<noteq> Ok ()" using assms(2) None b by (auto simp: create_run split: outcome.splits)
    with v show ?thesis by simp
  qed
next
  case (Some err)
  with assms(2) have "w' = w" "r \<noteq> Ok ()" by (auto simp: create_run)
  then show ?thesis by simp
qed

lemma update_cloud:
  assumes "cloudLaws (computeSvc s) (coreClient s) (tagSvc s) inst" and "update (s, w) = (r, (s', w'))"
  shows "inst (ext w') = inst (ext w) \<and> (r = Ok () \<longrightarrow> ownKey s \<in> inst (ext w'))"
proof (cases "validateMachine (machine s) (providerSpec s)")
  case None
  obtain h t v where h: "updateHead (s, w) = (h, (t, v))" by (metis prod.exhaust)
  have t: "t = s" using h by (rule updateHead_frame)
  have v: "inst (ext v) = inst (ext w)"
    using instance_frame.kept_updateHead [OF cloud_frame [OF assms(1)]] h by (rule cloudSameD)
  show ?thesis
  proof (cases "\<exists>u. h = Ok u")
    case True
    then have "reconcileMachineWithCloudState None (s, v) = (r, (s', w'))"
      using assms(2) None h t by (auto simp: update_split seq_run validateOrFail_run)
    from reconcile_cloud [OF assms(1) this] v show ?thesis by metis
  next
    case False
    then have "w' = v" "r \<noteq> Ok ()"
      using assms(2) None h by (auto simp: update_split seq_run validateOrFail_run split: outcome.splits)
    with v show ?thesis by metis
  qed
next
  case (Some err)
  with assms(2) have "w' = w" "r \<noteq> Ok ()" by (auto simp: update_def seq_run validateOrFail_run)
  then show ?thesis by simp
qed

lemma deleteInstance_cloud:
  assumes "cloudLaws (computeSvc s) (coreClient s) (tagSvc s) inst" and "deleteInstance (s, w) = (r, (s', w'))"
  shows "inst (ext w') \<in> {inst (ext w), inst (ext w) - {ownKey s}}"
proof -
  have "ext w' = snd (InstancesDelete (computeSvc s) (m_UID (machine s)) (projectID s) (Zone (providerSpec s)) (m_Name (machine s)) (ext w))"
    using assms(2)
    by (auto simp: deleteInstance_def orMetric_def registerMetric_def Let_def go_simps split: prod.splits sum.splits)
  then show ?thesis using assms(1) unfolding cloudLaws_def ownKey_def by simp
qed

lemma deleteExisting_cloud:
  assumes "cloudLaws (computeSvc s) (coreClient s) (tagSvc s) inst" and "deleteExisting (s, w) = (r, (s', w'))"
  shows "inst (ext w') \<in> {inst (ext w), inst (ext w) - {ownKey s}}"
proof -
  let ?unreg = "if isMaster (machine s)
    then onErr (errorfV (m_Name (machine s) @ '': failed to unregister instance from instance group: ''))
           unregisterInstanceFromControlPlaneInstanceGroup
    else ret ()"
  obtain q t v where q: "?unreg (s, w) = (q, (t, v))" by (metis prod.exhaust)
  have "obeys (cloudKept (computeSvc s, coreClient s, tagSvc s) (sameObs inst)) ?unreg"
    using instance_frame.kept_groups(2) [OF cloud_frame [OF assms(1)]] by (intro structural_cloud)
  then have v: "inst (ext v) = inst (ext w)" using q by (rule cloudSameD)
  have "obeys (onScope (\<lambda>s. s) (logGrows isGroupCall)) ?unreg" by (intro obeys_intros) simp_all
  from obeysD [OF this q] have t: "t = s" by (simp add: onScope_def)
  have run: "(case q of Ok x \<Rightarrow> deleteInstance (s, v) | Err e \<Rightarrow> (Err e, (s, v)) | Crash c \<Rightarrow> (Crash c, (s, v))) = (r, (s', w'))"
    using assms(2) unfolding deleteExisting_def by (simp add: seq_run scope_run q t split: outcome.splits)
  show ?thesis
  proof (cases q)
    case (Ok x)
    with run have "deleteInstance (s, v) = (r, (s', w'))" by simp
    from deleteInstance_cloud [OF assms(1) this] v show ?thesis by simp
  qed (use run v in simp_all)
qed

lemma projectNotFound_404: "isProjectNotFoundError err p \<Longrightarrow> isNotFoundError (Some err)"
  by (cases err) (auto simp: isProjectNotFoundError_def split: if_splits)

lemma delete_cloud:
  assumes "cloudLaws (computeSvc s) (coreClient s) (tagSvc s) inst" and "delete (s, w) = (r, (s', w'))"
  shows "inst (ext w') \<in> {inst (ext w), inst (ext w) - {ownKey s}} \<and> (r = Ok () \<longrightarrow> ownKey s \<notin> inst (ext w'))"
proof -
  obtain p t v where p: "processTargetPools False deleteInstanceFromTargetPool (s, w) = (p, (t, v))"
    by (metis prod.exhaust)
  then have t: "t = s" by (rule delete_pools_frame)
  have v: "inst (ext v) = inst (ext w)"
    using instance_frame.kept_pools(2) [OF cloud_frame [OF assms(1)]] p by (rule cloudSameD)
  show ?thesis
  proof (cases p)
    case (Ok u)
    obtain q e where q: "InstancesGet (computeSvc s) (projectID s) (Zone (providerSpec s)) (m_Name (machine s)) (ext v) = (q, e)"
      by force
    from p t Ok have pools: "processTargetPools False deleteInstanceFromTargetPool (s, w) = (Ok (), (s, v))" by simp
    note run = assms(2) [unfolded delete_tail [OF pools q]]
    have e: "inst e = inst (ext v)" using assms(1) q by (rule lookup_cloud)
    show ?thesis
    proof (cases "validateMachine (machine s) (providerSpec s)")
      case None
      show ?thesis
      proof (cases q)
        case (Inl err)
        have "saysAbsent s err \<Longrightarrow> ownKey s \<notin> inst (ext v)"
          unfolding ownKey_def saysAbsent_def
          by (rule lookup_cloud(3) [OF assms(1) q Inl]) (auto dest: projectNotFound_404)
        moreover have "ext w' = e" "r = Ok () \<longrightarrow> saysAbsent s err" using run None Inl by (auto split: if_splits)
        ultimately show ?thesis using e v by simp
      next
        case (Inr x)
        with run None have ex: "deleteExisting (s, v\<lparr>ext := e, calls := calls v @
            [CallInstancesGet (projectID s) (Zone (providerSpec s)) (m_Name (machine s))]\<rparr>) = (r, (s', w'))" by simp
        then have "r \<noteq> Ok ()" by (rule deleteExisting_cases) auto
        with deleteExisting_cloud [OF assms(1) ex] e v show ?thesis by simp
      qed
    next
      case (Some err)
      with run have "w' = v" "r \<noteq> Ok ()" by auto
      with v show ?thesis by simp
    qed
  next
    case (Err x)
    with assms(2) p have "w' = v" "r \<noteq> Ok ()" by (auto simp: delete_def seq_run)
    with v show ?thesis by simp
  next
    case (Crash x)
    with assms(2) p have "w' = v" "r \<noteq> Ok ()" by (auto simp: delete_def seq_run)
    with v show ?thesis by simp
  qed
qed

lemma exists_cloud:
  assumes "cloudLaws (computeSvc s) (coreClient s) (tagSvc s) inst" and "exists (s, w) = (r, (s', w'))"
  shows "inst (ext w') = inst (ext w) \<and> (\<forall>b. r = Ok b \<longrightarrow> b = (ownKey s \<in> inst (ext w)))"
proof -
  obtain q e where q: "InstancesGet (computeSvc s) (projectID s) (Zone (providerSpec s)) (m_Name (machine s)) (ext w) = (q, e)"
    by force
  have e: "inst e = inst (ext w)" using assms(1) q by (rule lookup_cloud)
  have found: "ownKey s \<in> inst (ext w)" if "q = Inr x" for x
    unfolding ownKey_def using assms(1) q that by (rule lookup_cloud)
  have absent: "ownKey s \<notin> inst (ext w)" if "q = Inl err" "isNotFoundError (Some err)" for err
    unfolding ownKey_def by (rule lookup_cloud(3) [OF assms(1) q that(1)]) (simp add: that(2))
  have "ext w' = e \<or> w' = w" and "r = Ok True \<Longrightarrow> \<exists>x. q = Inr x"
    and "r = Ok False \<Longrightarrow> \<exists>err. q = Inl err \<and> isNotFoundError (Some err)"
    using assms(2) by (auto simp: exists_run [OF q] existsError_run split: option.splits sum.splits if_splits)
  then show ?thesis using e found absent by metis
qed

text \<open>
  The reconciler refines the life cycle of an instance.  Against a cloud that behaves as
  documented, \<open>create\<close> adds at most the machine's own instance, \<open>update\<close> and \<open>exists\<close> change
  nothing, \<open>delete\<close> removes at most the machine's own instance: no operation on one machine
  makes or removes the instance of another.  And what they report is true of the cloud: a
  successful \<open>create\<close> or \<open>update\<close> leaves the instance there, a successful \<open>delete\<close> leaves it
  gone, and the answer of \<open>exists\<close> is whether it is there.
\<close>

theorem operations_refine_cloud:
  assumes "cloudLaws (computeSvc s) (coreClient s) (tagSvc s) inst"
  shows "(case create lib (s, w) of (r, (s', w')) \<Rightarrow>
      inst (ext w') \<in> {inst (ext w), insert (ownKey s) (inst (ext w))} \<and> (r = Ok () \<longrightarrow> ownKey s \<in> inst (ext w'))) \<and>
    (case update (s, w) of (r, (s', w')) \<Rightarrow> inst (ext w') = inst (ext w) \<and> (r = Ok () \<longrightarrow> ownKey s \<in> inst (ext w'))) \<and>
    (case delete (s, w) of (r, (s', w')) \<Rightarrow>
      inst (ext w') \<in> {inst (ext w), inst (ext w) - {ownKey s}} \<and> (r = Ok () \<longrightarrow> ownKey s \<notin> inst (ext w'))) \<and>
    (case exists (s, w) of (r, (s', w')) \<Rightarrow>
      inst (ext w') = inst (ext w) \<and> (\<forall>b. r = Ok b \<longrightarrow> b = (ownKey s \<in> inst (ext w))))"
  by (intro conjI; split prod.split; split prod.split; intro allI impI)
    (rule create_cloud [OF assms] update_cloud [OF assms] delete_cloud [OF assms] exists_cloud [OF assms], blast)+

text \<open>A cloud that is just the set of its instances.\<close>

definition setService :: "instanceKey set GCPComputeService" where
  "setService = sampleService\<lparr>
     InstancesGet := (\<lambda>p z n e. (if (p, z, n) \<in> e then Inr (Some runningInstance) else Inl (GoogleError 404 [] [] [] [] None), e)),
     InstancesInsert := (\<lambda>p z i e. (Inr (Some sampleOperation), insert (p, z, in_Name i) e)),
     InstancesDelete := (\<lambda>_ p z n e. (Inr (Some sampleOperation), e - {(p, z, n)}))\<rparr>"

definition setWorld :: "instanceKey set world" where
  "setWorld = \<lparr>ext = {(''p1'', ''r1-a'', ''worker-9'')}, calls = [], events = [], metrics = [], wallClock = (\<lambda>_. 7)\<rparr>"

lemma setService_laws: "cloudLaws setService sampleClient sampleTags (\<lambda>e. e)"
proof -
  have "instance_frame setService sampleClient sampleTags (sameObs (\<lambda>e. e))"
    by unfold_locales (simp_all add: keeps_def sameObs_def setService_def sampleService_def sampleClient_def sampleTags_def run_basic)
  moreover have "(p, z, n) \<in> e" if "InstancesGet setService p z n e = (Inr x, e')" for p z n e x e'
    using that by (simp add: setService_def sampleService_def split: if_splits)
  moreover have "(p, z, n) \<notin> e" if "InstancesGet setService p z n e = (Inl err, e')" for p z n e err e'
    using that by (simp add: setService_def sampleService_def split: if_splits)
  moreover have "snd (InstancesInsert setService p z i e) = insert (p, z, in_Name i) e"
    "snd (InstancesDelete setService q p z n e) = e - {(p, z, n)}" for p z i e q n
    by (simp_all add: setService_def sampleService_def)
  ultimately show ?thesis unfolding cloudLaws_def by (intro conjI allI impI) (blast | simp)+
qed

lemma added_member: "X \<in> {A, insert k A} \<Longrightarrow> k \<in> X \<Longrightarrow> X = insert k A"
  by auto

theorem operations_refine_cloud_witness:
  "ext (snd (snd (create sampleLib (sampleScope\<lparr>computeSvc := setService\<rparr>, setWorld)))) =
     {(''p1'', ''r1-a'', ''worker-0''), (''p1'', ''r1-a'', ''worker-9'')}"
proof -
  let ?s = "sampleScope\<lparr>computeSvc := setService\<rparr>"
  obtain r s' w' where run: "create sampleLib (?s, setWorld) = (r, (s', w'))" by (metis prod.exhaust)
  have "fst (create sampleLib (?s, setWorld)) = Ok ()" by code_simp
  with run have r: "r = Ok ()" by simp
  have laws: "cloudLaws (computeSvc ?s) (coreClient ?s) (tagSvc ?s) (\<lambda>e. e)" using setService_laws by (simp add: sampleScope_def)
  have own: "ownKey ?s = (''p1'', ''r1-a'', ''worker-0'')" by (simp add: ownKey_def sample_defs)
  have "ext w' \<in> {ext setWorld, insert (ownKey ?s) (ext setWorld)} \<and> (r = Ok () \<longrightarrow> ownKey ?s \<in> ext w')"
    using conjunct1 [OF operations_refine_cloud [OF laws, where lib = sampleLib and w = setWorld]] run by simp
  with r have "ext w' = insert (ownKey ?s) (ext setWorld)" using added_member by blast
  with run own show ?thesis by (simp add: setWorld_def)
qed

end
