(* ===== verification/Actuator_Cloud.thy ===== *)
theory Actuator_Cloud
  imports Actuator Cloud_Lifecycle
begin

text \<open>
  The entry points of the actuator against the abstract cloud: what the machine controller
  sees of the set of instances when it calls \<open>Create\<close>, \<open>Exists\<close>, \<open>Update\<close> and \<open>Delete\<close>.
\<close>

section \<open>Scopes, patches and events keep the cloud\<close>

lemma same_newScope:
  assumes "\<And>ns n. keeps R (GetSecret (par_coreClient params) ns n)"
  shows "obeys (sameCloud R) (newMachineScope lib params)"
  unfolding newMachineScope_def GetCredentialsSecret_def Let_def
  by (rule structural_same kept_intros assms)+

locale patching_frame = instance_frame svc client tags R
  for svc :: "'w GCPComputeService" and client :: "'w Client" and tags and R :: "'w \<Rightarrow> 'w \<Rightarrow> bool" +
  assumes patch_kept: "keeps R (Patch client m b)" "keeps R (StatusPatch client m b)"
begin

lemma kept_Close: "obeys (cloudKept (svc, client, tags) R) (Close lib)"
  unfolding Close_def setMachineStatus_def setMachineSpec_def PatchMachine_def Let_def
  by (rule structural_cloud cloud.obeys_onErrS kept_intros | simp add: services_def patch_kept)+

lemma kept_failReconciler: "obeys (cloudKept (svc, client, tags) R) (failReconciler action m e)"
  unfolding failReconciler_def handleMachineError_def recordEvent_def
  by (rule structural_cloud structural_same kept_intros same.obeys_modify | simp add: sameCloud_def)+

lemma kept_normalEvent: "obeys (cloudKept (svc, client, tags) R) (onSnd (normalEvent m reason msg))"
  unfolding normalEvent_def recordEvent_def
  by (rule structural_cloud structural_same kept_intros same.obeys_modify | simp add: sameCloud_def)+

end

interpretation mockActuator: patching_frame "mockService NewComputeServiceMock" sampleClient NewMockTagService "sameObs (\<lambda>received :: Instance. received)"
  by unfold_locales (simp_all add: keeps_def sameObs_def sampleClient_def)

section \<open>The entry points\<close>

lemma create_services: "create lib (s, w) = (r, (s', w')) \<Longrightarrow> services s' = services s"
  using create_fixed [of lib s w r s' w'] by (auto simp: services_def dest: fixedScopeD)

lemma update_services: "update (s, w) = (r, (s', w')) \<Longrightarrow> services s' = services s"
  using obeysD [OF update_fixed, of "(s, w)" r "(s', w')"] by (auto simp: services_def onScope_def dest: fixedScopeD)

lemma delete_services: "delete (s, w) = (r, (s', w')) \<Longrightarrow> services s' = services s"
  using obeysD [OF delete_keeps, of "(s, w)" r "(s', w')"] by (simp add: onScope_def)

text \<open>What the actuator does after the reconciler: it keeps the cloud, and never turns an error into success.\<close>

lemma tail_cloud:
  assumes run: "seq (attempt op) k (s, w) = (r, (s2, w2))" and op: "op (s, w) = (q, (s1, w1))"
    and services: "services s1 = services s" and kept: "\<And>x. obeys (cloudKept (services s) R) (k x)"
    and fails: "\<And>e x y z. k (Inl e) x \<noteq> (Ok y, z)"
  shows "sameCloud R w1 w2 \<and> (r = Ok () \<longrightarrow> q = Ok ())"
proof -
  have tail: "sameCloud R w1 w2" if "k x (s1, w1) = (r, (s2, w2))" for x
    using obeysD [OF kept that] services by (simp add: cloudKept_def)
  show ?thesis
  proof (cases q)
    case (Ok u)
    with run op have "k (Inr ()) (s1, w1) = (r, (s2, w2))" by (simp add: seq_run attempt_run)
    with tail Ok show ?thesis by simp
  next
    case (Err e)
    with run op have k: "k (Inl e) (s1, w1) = (r, (s2, w2))" by (simp add: seq_run attempt_run)
    with fails have "r \<noteq> Ok ()" by metis
    with tail [OF k] show ?thesis by simp
  next
    case (Crash c)
    with run op have "w2 = w1" "r \<noteq> Ok ()" by (simp_all add: seq_run attempt_run, auto)
    then show ?thesis by (simp add: sameCloud_def)
  qed
qed

lemma failReconciler_never_Ok: "failReconciler action m e x \<noteq> (Ok y, z)"
  by (cases x) (simp add: failReconciler_def handleMachineError_def recordEvent_def go_simps split: if_splits)

lemma failing_tail_never_Ok: "seq (attempt c) (\<lambda>_. failReconciler action m e) x \<noteq> (Ok y, z)"
  by (auto simp: seq_Ok_iff failReconciler_never_Ok)

text \<open>The world at the end of an entry point, from the run of its body.\<close>

lemma entry_run:
  assumes "newMachineScope lib (scopeParams a m) w = (Ok s, w0)"
    and "withScope lib a fail (\<lambda>s m. runWith s (body s m)) (m, w) = (r, (m', w'))"
  obtains s' where "body s m (s, w0) = (r, (s', w'))"
  using assms(2) unfolding withScope_run [OF assms(1)] runWith_run by (auto split: prod.splits)

section \<open>The actuator against the abstract cloud\<close>

lemma newMachineScope_client:
  "newMachineScope lib params w = (Ok s, w1) \<Longrightarrow> coreClient s = par_coreClient params"
  by (auto simp: newMachineScope_def Let_def run_Ok split: if_splits)

text \<open>The laws of the cloud and of patches for the services of a scope.\<close>

definition actuatorLaws :: "'w machineScope \<Rightarrow> ('w \<Rightarrow> instanceKey set) \<Rightarrow> bool" where
  "actuatorLaws s inst \<longleftrightarrow> cloudLaws (computeSvc s) (coreClient s) (tagSvc s) inst \<and>
     (\<forall>m b. keeps (sameObs inst) (Patch (coreClient s) m b) \<and> keeps (sameObs inst) (StatusPatch (coreClient s) m b))"

lemma laws_frame:
  assumes "actuatorLaws s inst"
  shows "patching_frame (computeSvc s) (coreClient s) (tagSvc s) (sameObs inst)"
    and "cloudLaws (computeSvc s) (coreClient s) (tagSvc s) inst"
  using assms cloud_frame [of s inst]
  by (auto simp: actuatorLaws_def patching_frame_def patching_frame_axioms_def)

lemma scope_cloud:
  assumes "actuatorLaws s inst" and "newMachineScope lib (scopeParams a m) w = (Ok s, w0)"
  shows "inst (ext w0) = inst (ext w)"
proof -
  have "keeps (sameObs inst) (GetSecret (par_coreClient (scopeParams a m)) ns n)" for ns n
    using instance_frame.api_kept(1) [OF cloud_frame [OF laws_frame(2) [OF assms(1)]]] newMachineScope_client [OF assms(2)]
    by simp
  from obeysD [OF same_newScope [OF this] assms(2)] show ?thesis by (auto simp: sameCloud_def dest: sameObs_star)
qed

abbreviation scopePatching :: "'w machineScope \<Rightarrow> ('w \<Rightarrow> 'w \<Rightarrow> bool) \<Rightarrow> bool" where
  "scopePatching s R \<equiv> patching_frame (computeSvc s) (coreClient s) (tagSvc s) R"

lemma tails_kept:
  assumes "scopePatching s R"
  shows "obeys (cloudKept (services s) R) (Close lib)"
    and "obeys (cloudKept (services s) R) (failReconciler action m e)"
    and "obeys (cloudKept (services s) R) (onSnd (normalEvent m reason msg))"
  unfolding services_def
  by (rule patching_frame.kept_Close patching_frame.kept_failReconciler patching_frame.kept_normalEvent, rule assms)+

lemma entry_cloud:
  assumes run: "withScope lib a fail (\<lambda>s m. runWith s (seq (attempt op) (k m))) (m, w) = (r, (m', w'))"
    and scope: "newMachineScope lib (scopeParams a m) w = (Ok s, w0)"
    and op: "op (s, w0) = (q, (s1, w1))" and services: "services s1 = services s"
    and kept: "\<And>x. obeys (cloudKept (services s) R) (k m x)" and fails: "\<And>e x y z. k m (Inl e) x \<noteq> (Ok y, z)"
  shows "sameCloud R w1 w' \<and> (r = Ok () \<longrightarrow> q = Ok ())"
proof -
  obtain s' where "seq (attempt op) (k m) (s, w0) = (r, (s', w'))" using run by (rule entry_run [OF scope])
  then show ?thesis using op services kept fails by (rule tail_cloud)
qed

lemma Create_tail:
  assumes "scopePatching s R" and scope: "newMachineScope lib (scopeParams a m) w = (Ok s, w0)"
    and "Create lib a (m, w) = (r, (m', w'))" and op: "create lib (s, w0) = (q, (s1, w1))"
  shows "sameCloud R w1 w' \<and> (r = Ok () \<longrightarrow> q = Ok ())"
  by (rule entry_cloud [OF assms(3) [unfolded Create_def] scope op create_services [OF op]])
    (intro structural_cloud tails_kept [OF assms(1)], simp add: failing_tail_never_Ok)

lemma Update_tail:
  assumes "scopePatching s R" and scope: "newMachineScope lib (scopeParams a m) w = (Ok s, w0)"
    and "Update lib a (m, w) = (r, (m', w'))" and op: "update (s, w0) = (q, (s1, w1))"
  shows "sameCloud R w1 w' \<and> (r = Ok () \<longrightarrow> q = Ok ())"
  by (rule entry_cloud [OF assms(3) [unfolded Update_def] scope op update_services [OF op]])
    (intro structural_cloud tails_kept [OF assms(1)], simp add: failing_tail_never_Ok)

lemma Delete_tail:
  assumes "scopePatching s R" and scope: "newMachineScope lib (scopeParams a m) w = (Ok s, w0)"
    and "Delete lib a (m, w) = (r, (m', w'))" and op: "delete (s, w0) = (q, (s1, w1))"
  shows "sameCloud R w1 w' \<and> (r = Ok () \<longrightarrow> q = Ok ())"
  by (rule entry_cloud [OF assms(3) [unfolded Delete_def] scope op delete_services [OF op]])
    (intro structural_cloud tails_kept [OF assms(1)], simp add: failReconciler_never_Ok)

lemma Create_cloud:
  assumes "actuatorLaws s inst" and scope: "newMachineScope lib (scopeParams a m) w = (Ok s, w0)"
    and "Create lib a (m, w) = (r, (m', w'))"
  shows "inst (ext w') \<in> {inst (ext w), insert (ownKey s) (inst (ext w))} \<and> (r = Ok () \<longrightarrow> ownKey s \<in> inst (ext w'))"
proof -
  obtain q s1 w1 where op: "create lib (s, w0) = (q, (s1, w1))" by (metis prod.exhaust)
  have "inst (ext w') = inst (ext w1) \<and> (r = Ok () \<longrightarrow> q = Ok ())"
    using Create_tail [OF laws_frame(1) [OF assms(1)] scope assms(3) op] by (auto simp: sameCloud_def dest: sameObs_star)
  with create_cloud [OF laws_frame(2) [OF assms(1)] op] scope_cloud [OF assms(1) scope] show ?thesis
    by (elim conjE) simp
qed

lemma Update_cloud:
  assumes "actuatorLaws s inst" and scope: "newMachineScope lib (scopeParams a m) w = (Ok s, w0)"
    and "Update lib a (m, w) = (r, (m', w'))"
  shows "inst (ext w') = inst (ext w) \<and> (r = Ok () \<longrightarrow> ownKey s \<in> inst (ext w'))"
proof -
  obtain q s1 w1 where op: "update (s, w0) = (q, (s1, w1))" by (metis prod.exhaust)
  have "inst (ext w') = inst (ext w1) \<and> (r = Ok () \<longrightarrow> q = Ok ())"
    using Update_tail [OF laws_frame(1) [OF assms(1)] scope assms(3) op] by (auto simp: sameCloud_def dest: sameObs_star)
  with update_cloud [OF laws_frame(2) [OF assms(1)] op] scope_cloud [OF assms(1) scope] show ?thesis
    by (elim conjE) simp
qed

lemma Delete_cloud:
  assumes "actuatorLaws s inst" and scope: "newMachineScope lib (scopeParams a m) w = (Ok s, w0)"
    and "Delete lib a (m, w) = (r, (m', w'))"
  shows "inst (ext w') \<in> {inst (ext w), inst (ext w) - {ownKey s}} \<and> (r = Ok () \<longrightarrow> ownKey s \<notin> inst (ext w'))"
proof -
  obtain q s1 w1 where op: "delete (s, w0) = (q, (s1, w1))" by (metis prod.exhaust)
  have "inst (ext w') = inst (ext w1) \<and> (r = Ok () \<longrightarrow> q = Ok ())"
    using Delete_tail [OF laws_frame(1) [OF assms(1)] scope assms(3) op] by (auto simp: sameCloud_def dest: sameObs_star)
  with delete_cloud [OF laws_frame(2) [OF assms(1)] op] scope_cloud [OF assms(1) scope] show ?thesis
    by (elim conjE) simp
qed

lemma exists_invalid_cloud:
  assumes "cloudLaws (computeSvc s) (coreClient s) (tagSvc s) inst" and "exists (s, w) = (Err err, (s', w'))"
    and "isInvalidMachineConfigurationError (Some err)"
  shows "ownKey s \<notin> inst (ext w)"
proof -
  obtain q e where q: "InstancesGet (computeSvc s) (projectID s) (Zone (providerSpec s)) (m_Name (machine s)) (ext w) = (q, e)"
    by force
  from assms(2,3) obtain x where "q = Inl x" "isProjectNotFoundError x (projectID s) \<or> isInvalidZone x"
    by (auto simp: exists_run [OF q] existsError_run split: option.splits sum.splits if_splits)
  with lookup_cloud(3) [OF assms(1) q] projectNotFound_404 show ?thesis unfolding ownKey_def by blast
qed

text \<open>
  The answer of \<open>Exists\<close> is right, also when it is false for a machine under deletion whose
  project or zone is unknown.
\<close>

lemma Exists_cloud:
  assumes "actuatorLaws s inst" and scope: "newMachineScope lib (scopeParams a m) w = (Ok s, w0)"
    and "Exists lib a (m, w) = (r, (m', w'))"
  shows "inst (ext w') = inst (ext w) \<and> (\<forall>b. r = Ok b \<longrightarrow> b = (ownKey s \<in> inst (ext w)))"
proof -
  obtain q s1 w1 where op: "exists (s, w0) = (q, (s1, w1))" by (metis prod.exhaust)
  have w': "w' = w1"
    and run: "r = q \<or> r = Ok False \<and> (\<exists>e. q = Err e \<and> isInvalidMachineConfigurationError (Some e))"
    using assms(3) op unfolding Exists_def withScope_run [OF scope]
    by (cases q; cases "Phase (m_Status m)";
      auto simp: seq_run attempt_run returnResult_def run_basic runWith_run split: if_splits)+
  have absent: "ownKey s \<notin> inst (ext w0)" if "q = Err e" "isInvalidMachineConfigurationError (Some e)" for e
    using laws_frame(2) [OF assms(1)] op [unfolded that(1)] that(2) by (rule exists_invalid_cloud)
  have kept: "inst (ext w1) = inst (ext w0)" and answer: "\<And>b. q = Ok b \<Longrightarrow> b = (ownKey s \<in> inst (ext w0))"
    using exists_cloud [OF laws_frame(2) [OF assms(1)] op] by simp_all
  have "b = (ownKey s \<in> inst (ext w0))" if b: "r = Ok b" for b
    using run
  proof (elim disjE conjE exE)
    assume "r = q" with answer b show ?thesis by simp
  next
    fix e assume "r = Ok False" "q = Err e" "isInvalidMachineConfigurationError (Some e)"
    with absent b show ?thesis by simp
  qed
  with kept w' scope_cloud [OF assms(1) scope] show ?thesis by simp
qed

section \<open>Actuators over a lawful cloud\<close>

text \<open>
  What the actuator relies on, whatever machine it is asked about: the secret read of a scope
  keeps the instances, and the services its builders return obey the laws of the cloud.
\<close>

definition lawfulActuator :: "'w Actuator \<Rightarrow> ('w \<Rightarrow> instanceKey set) \<Rightarrow> bool" where
  "lawfulActuator a inst \<longleftrightarrow>
     (\<forall>ns n. keeps (sameObs inst) (GetSecret (act_coreClient a) ns n)) \<and>
     (\<forall>m b. keeps (sameObs inst) (Patch (act_coreClient a) m b) \<and> keeps (sameObs inst) (StatusPatch (act_coreClient a) m b)) \<and>
     (\<forall>key svc tags. act_computeClientBuilder a key = Inr svc \<and> act_tagsClientBuilder a key = Inr tags \<longrightarrow>
        cloudLaws svc (act_coreClient a) tags inst)"

lemma newMachineScope_built:
  "newMachineScope lib params w = (Ok s, w1) \<Longrightarrow>
    \<exists>key. computeClientBuilder params key = Inr (computeSvc s) \<and> tagsClientBuilder params key = Inr (tagSvc s)"
  by (auto simp: newMachineScope_def Let_def run_Ok split: if_splits)

lemma lawful_scope:
  assumes "lawfulActuator a inst" and "newMachineScope lib (scopeParams a m) w = (Ok s, w0)"
  shows "actuatorLaws s inst"
proof -
  have "coreClient s = act_coreClient a" using newMachineScope_client [OF assms(2)] by (simp add: scopeParams_def)
  with newMachineScope_built [OF assms(2)] assms(1) show ?thesis
    by (auto simp: lawfulActuator_def actuatorLaws_def scopeParams_def)
qed

text \<open>
  C5. The entry points of the actuator refine the life cycle of an instance.  With services that
  behave as documented, where nothing else acts on the instances during the request (\<open>lawfulActuator\<close>: inserts and deletes take
  effect in their own call or not at all; operations that go on after it are the subject of
  \<open>Request_Isolation\<close>), and a scope that can be made, \<open>Create\<close> adds and \<open>Delete\<close> removes at most the
  machine's own instance, \<open>Update\<close> and \<open>Exists\<close> change none, although all but \<open>Exists\<close> also write
  events and patches.  A successful \<open>Create\<close> or \<open>Update\<close> means that the instance is there, a
  successful \<open>Delete\<close> that it is gone, and every answer of \<open>Exists\<close> is true of the cloud, also
  the answer false for a machine under deletion with an unknown project or zone.
\<close>

theorem actuator_refines_cloud:
  assumes "lawfulActuator a inst" and "newMachineScope lib (scopeParams a m) w = (Ok s, w0)"
  shows "(case Create lib a (m, w) of (r, (m', w')) \<Rightarrow>
      inst (ext w') \<in> {inst (ext w), insert (ownKey s) (inst (ext w))} \<and> (r = Ok () \<longrightarrow> ownKey s \<in> inst (ext w'))) \<and>
    (case Update lib a (m, w) of (r, (m', w')) \<Rightarrow>
      inst (ext w') = inst (ext w) \<and> (r = Ok () \<longrightarrow> ownKey s \<in> inst (ext w'))) \<and>
    (case Delete lib a (m, w) of (r, (m', w')) \<Rightarrow>
      inst (ext w') \<in> {inst (ext w), inst (ext w) - {ownKey s}} \<and> (r = Ok () \<longrightarrow> ownKey s \<notin> inst (ext w'))) \<and>
    (case Exists lib a (m, w) of (r, (m', w')) \<Rightarrow>
      inst (ext w') = inst (ext w) \<and> (\<forall>b. r = Ok b \<longrightarrow> b = (ownKey s \<in> inst (ext w))))"
  by (intro conjI; split prod.split; split prod.split; intro allI impI)
    (rule Create_cloud [OF lawful_scope [OF assms] assms(2)] Update_cloud [OF lawful_scope [OF assms] assms(2)]
      Delete_cloud [OF lawful_scope [OF assms] assms(2)] Exists_cloud [OF lawful_scope [OF assms] assms(2)], blast)+

text \<open>An actuator whose cloud is the set of its instances.\<close>

definition setActuator :: "instanceKey set Actuator" where
  "setActuator = NewActuator \<lparr>prm_CoreClient = sampleClient,
     prm_ComputeClientBuilder = (\<lambda>_. Inr setService), prm_TagsClientBuilder = (\<lambda>_. Inr sampleTags)\<rparr>"

lemma setActuator_lawful: "lawfulActuator setActuator (\<lambda>e. e)"
  unfolding lawfulActuator_def
  by (simp add: setActuator_def NewActuator_def setService_laws) (simp add: keeps_def sameObs_def sampleClient_def)

lemma set_scope:
  "newMachineScope sampleLib (scopeParams setActuator sampleMachine) setWorld = (Ok (sampleScope\<lparr>computeSvc := setService\<rparr>), setWorld)"
  by (simp add: newMachineScope_def scopeParams_def setActuator_def NewActuator_def sampleLib_def
      sampleScope_def ProviderSpecFromRawExtension_def ProviderStatusFromRawExtension_def GetCredentialsSecret_def go_simps
      sampleSpec_def zeroProviderSpec_def sampleMachine_def Let_def)

theorem actuator_refines_cloud_witness:
  "(''p1'', ''r1-a'', ''worker-9'') \<in> ext (snd (snd (Delete sampleLib setActuator (sampleMachine, setWorld)))) \<and>
   fst (Exists sampleLib setActuator (sampleMachine, setWorld)) \<noteq> Ok True"
proof -
  let ?s = "sampleScope\<lparr>computeSvc := setService\<rparr>"
  have own: "ownKey ?s = (''p1'', ''r1-a'', ''worker-0'')" by (simp add: ownKey_def sample_defs)
  note laws = actuator_refines_cloud [OF setActuator_lawful set_scope]
  obtain r m' w' where d: "Delete sampleLib setActuator (sampleMachine, setWorld) = (r, (m', w'))" by (metis prod.exhaust)
  obtain q n' v where e: "Exists sampleLib setActuator (sampleMachine, setWorld) = (q, (n', v))" by (metis prod.exhaust)
  have "ext w' \<in> {ext setWorld, ext setWorld - {ownKey ?s}}" using conjunct1 [OF conjunct2 [OF conjunct2 [OF laws]]] d by simp
  moreover have "(''p1'', ''r1-a'', ''worker-9'') \<in> ext setWorld" "ownKey ?s \<notin> ext setWorld"
    "(''p1'', ''r1-a'', ''worker-9'') \<noteq> ownKey ?s"
    by (simp_all add: setWorld_def own)
  moreover have "\<forall>b. q = Ok b \<longrightarrow> b = (ownKey ?s \<in> ext setWorld)"
    using conjunct2 [OF conjunct2 [OF conjunct2 [OF laws]]] e by simp
  ultimately show ?thesis unfolding d e by (metis Diff_iff fst_conv insertE singletonD snd_conv empty_iff)
qed

end
