(* ===== verification/Request_Isolation.thy ===== *)
theory Request_Isolation
  imports Actuator_Cloud
begin

text \<open>
  Sequences of requests for many machines, against a cloud whose operations go on after the reply:
  an accepted insert or delete may finish during any later call, or between the calls.  An instance that
  is there, or away, and has no operation in progress is disturbed by the requests for a machine
  of its own name only.
\<close>

section \<open>Operations within what may happen to the cloud\<close>

lemma sameCloud_call: "keeps R f \<Longrightarrow> ext w' = snd (f (ext w)) \<Longrightarrow> sameCloud R w w'"
  by (auto simp: sameCloud_def keeps_def)

lemma sameCloud_refl: "ext w' = ext w \<Longrightarrow> sameCloud R w w'"
  by (simp add: sameCloud_def)

lemma sameCloud_trans: "sameCloud R u v \<Longrightarrow> sameCloud R v w \<Longrightarrow> sameCloud R u w"
  unfolding sameCloud_def by (rule rtranclp_trans)

abbreviation scopeFraming :: "'w machineScope \<Rightarrow> ('w \<Rightarrow> 'w \<Rightarrow> bool) \<Rightarrow> bool" where
  "scopeFraming s R \<equiv> instance_frame (computeSvc s) (coreClient s) (tagSvc s) R"

lemma lookup_stays:
  assumes "scopeFraming s R" and "InstancesGet (computeSvc s) p z n (ext w) = (q, e)" and "ext w' = e"
  shows "sameCloud R w w'"
proof -
  have "keeps R (InstancesGet (computeSvc s) p z n)" using assms(1) by (rule instance_frame.lookup_kept)
  then show ?thesis by (rule sameCloud_call) (simp add: assms)
qed

lemma reconcile_stays:
  assumes "scopeFraming s R" and "reconcileMachineWithCloudState None (s, w) = (r, (s', w'))"
  shows "sameCloud R w w'"
proof -
  obtain q e where g: "InstancesGet (computeSvc s) (projectID s) (Zone (providerSpec s)) (m_Name (machine s)) (ext w) = (q, e)"
    by force
  have "ext w' = e" using assms(2) unfolding reconcile_run [OF g] by (auto split: sum.splits option.splits list.splits)
  with assms(1) g show ?thesis by (rule lookup_stays)
qed

lemma insertInstance_stays:
  assumes "scopeFraming s R" and "keeps R (InstancesInsert (computeSvc s) (projectID s) zone i)"
    and "insertInstance zone i (s, w) = (r, (s', w'))"
  shows "sameCloud R w w'"
proof -
  obtain q e where q: "InstancesInsert (computeSvc s) (projectID s) zone i (ext w) = (q, e)" by force
  let ?w = "w\<lparr>ext := e, calls := calls w @ [CallInstancesInsert (projectID s) zone i]\<rparr>"
  have "sameCloud R w ?w" using q by (intro sameCloud_call [OF assms(2)]) simp
  moreover have "sameCloud R ?w w'"
  proof (cases q)
    case (Inr x)
    with assms(3) have "reconcileMachineWithCloudState None (s, ?w) = (r, (s', w'))" unfolding insertInstance_run [OF q] by simp
    with assms(1) show ?thesis by (rule reconcile_stays)
  next
    case (Inl err)
    with assms(3) have "ext w' = e" unfolding insertInstance_run [OF q] by auto
    then show ?thesis by (intro sameCloud_refl) simp
  qed
  ultimately show ?thesis by (rule sameCloud_trans)
qed

lemma create_stays:
  assumes "scopeFraming s R" and ins: "\<And>p z i. in_Name i = m_Name (machine s) \<Longrightarrow> keeps R (InstancesInsert (computeSvc s) p z i)"
    and "create lib (s, w) = (r, (s', w'))"
  shows "sameCloud R w w'"
proof (cases "validateMachine (machine s) (providerSpec s)")
  case None
  let ?z = "Zone (providerSpec s)"
  obtain b t v where b: "buildInstance lib ?z (s, w) = (b, (t, v))" by (metis prod.exhaust)
  obtain cfg reads where t: "t = s\<lparr>providerSpec := (providerSpec s)\<lparr>ShieldedInstanceConfig := cfg\<rparr>\<rparr>"
    using b by (rule buildInstance_frame)
  have v: "sameCloud R w v" using instance_frame.kept_build [OF assms(1)] b by (rule cloudKeptD)
  have "sameCloud R v w'"
  proof (cases "\<exists>i. b = Ok i")
    case True
    then obtain i where Ok: "b = Ok i" ..
    have run: "insertInstance ?z i (t, v) = (r, (s', w'))" using assms(3) None b Ok by (simp add: create_run)
    have "in_Name i = m_Name (machine s)"
      using buildInstance_describes [OF b [unfolded Ok]] by (simp add: describesHead_def Let_def)
    then have "keeps R (InstancesInsert (computeSvc t) (projectID t) ?z i)" using ins by (simp add: t)
    moreover have "scopeFraming t R" using assms(1) by (simp add: t)
    ultimately show ?thesis using run insertInstance_stays by blast
  next
    case False
    then have "w' = v" using assms(3) None b by (auto simp: create_run split: outcome.splits)
    then show ?thesis by (simp add: sameCloud_refl)
  qed
  with v show ?thesis by (rule sameCloud_trans)
next
  case (Some err)
  with assms(3) have "w' = w" by (auto simp: create_run)
  then show ?thesis by (simp add: sameCloud_refl)
qed

lemma update_stays:
  assumes "scopeFraming s R" and "update (s, w) = (r, (s', w'))"
  shows "sameCloud R w w'"
proof (cases "validateMachine (machine s) (providerSpec s)")
  case None
  obtain h t v where h: "updateHead (s, w) = (h, (t, v))" by (metis prod.exhaust)
  have t: "t = s" using h by (rule updateHead_frame)
  have v: "sameCloud R w v" using instance_frame.kept_updateHead [OF assms(1)] h by (rule cloudKeptD)
  have "sameCloud R v w'"
  proof (cases "\<exists>u. h = Ok u")
    case True
    then have "reconcileMachineWithCloudState None (s, v) = (r, (s', w'))"
      using assms(2) None h t by (auto simp: update_split seq_run validateOrFail_run)
    with assms(1) show ?thesis by (rule reconcile_stays)
  next
    case False
    then have "w' = v" using assms(2) None h by (auto simp: update_split seq_run validateOrFail_run split: outcome.splits)
    then show ?thesis by (simp add: sameCloud_refl)
  qed
  with v show ?thesis by (rule sameCloud_trans)
next
  case (Some err)
  with assms(2) have "w' = w" by (auto simp: update_def seq_run validateOrFail_run)
  then show ?thesis by (simp add: sameCloud_refl)
qed

lemma deleteInstance_stays:
  assumes "\<And>u p z. keeps R (InstancesDelete (computeSvc s) u p z (m_Name (machine s)))"
    and "deleteInstance (s, w) = (r, (s', w'))"
  shows "sameCloud R w w'"
proof -
  have "ext w' = snd (InstancesDelete (computeSvc s) (m_UID (machine s)) (projectID s) (Zone (providerSpec s)) (m_Name (machine s)) (ext w))"
    using assms(2)
    by (auto simp: deleteInstance_def orMetric_def registerMetric_def Let_def go_simps split: prod.splits sum.splits)
  then show ?thesis by (rule sameCloud_call [OF assms(1)])
qed

lemma deleteExisting_stays:
  assumes "scopeFraming s R" and del: "\<And>u p z. keeps R (InstancesDelete (computeSvc s) u p z (m_Name (machine s)))"
    and "deleteExisting (s, w) = (r, (s', w'))"
  shows "sameCloud R w w'"
proof -
  let ?unreg = "if isMaster (machine s)
    then onErr (errorfV (m_Name (machine s) @ '': failed to unregister instance from instance group: ''))
           unregisterInstanceFromControlPlaneInstanceGroup
    else ret ()"
  obtain q t v where q: "?unreg (s, w) = (q, (t, v))" by (metis prod.exhaust)
  have "obeys (cloudKept (computeSvc s, coreClient s, tagSvc s) R) ?unreg"
    using instance_frame.kept_groups(2) [OF assms(1)] by (intro structural_cloud)
  then have v: "sameCloud R w v" using q by (rule cloudKeptD)
  have "obeys (onScope (\<lambda>s. s) (logGrows isGroupCall)) ?unreg" by (intro obeys_intros) simp_all
  from obeysD [OF this q] have t: "t = s" by (simp add: onScope_def)
  have run: "(case q of Ok x \<Rightarrow> deleteInstance (s, v) | Err e \<Rightarrow> (Err e, (s, v)) | Crash c \<Rightarrow> (Crash c, (s, v))) = (r, (s', w'))"
    using assms(3) unfolding deleteExisting_def by (simp add: seq_run scope_run q t split: outcome.splits)
  have "sameCloud R v w'"
  proof (cases q)
    case (Ok x)
    with run have "deleteInstance (s, v) = (r, (s', w'))" by simp
    with del show ?thesis by (rule deleteInstance_stays)
  qed (use run in \<open>simp_all add: sameCloud_refl\<close>)
  with v show ?thesis by (rule sameCloud_trans)
qed

lemma delete_stays:
  assumes "scopeFraming s R" and del: "\<And>u p z. keeps R (InstancesDelete (computeSvc s) u p z (m_Name (machine s)))"
    and "delete (s, w) = (r, (s', w'))"
  shows "sameCloud R w w'"
proof -
  obtain p t v where p: "processTargetPools False deleteInstanceFromTargetPool (s, w) = (p, (t, v))"
    by (metis prod.exhaust)
  then have t: "t = s" by (rule delete_pools_frame)
  have v: "sameCloud R w v" using instance_frame.kept_pools(2) [OF assms(1)] p by (rule cloudKeptD)
  have "sameCloud R v w'"
  proof (cases "\<exists>u. p = Ok u")
    case True
    obtain q e where q: "InstancesGet (computeSvc s) (projectID s) (Zone (providerSpec s)) (m_Name (machine s)) (ext v) = (q, e)"
      by force
    let ?v = "v\<lparr>ext := e, calls := calls v @ [CallInstancesGet (projectID s) (Zone (providerSpec s)) (m_Name (machine s))]\<rparr>"
    have e: "sameCloud R v ?v" using assms(1) q by (rule lookup_stays) simp
    from p t True have pools: "processTargetPools False deleteInstanceFromTargetPool (s, w) = (Ok (), (s, v))" by simp
    have "w' = v \<or> w' = ?v \<or> deleteExisting (s, ?v) = (r, (s', w'))"
      using assms(3) unfolding delete_tail [OF pools q] by (auto split: option.splits sum.splits)
    moreover have "sameCloud R ?v w'" if "deleteExisting (s, ?v) = (r, (s', w'))"
      using assms(1) del that by (rule deleteExisting_stays)
    ultimately show ?thesis using e sameCloud_refl sameCloud_trans by metis
  next
    case False
    with assms(3) p have "w' = v" by (cases p) (auto simp: delete_def seq_run)
    then show ?thesis by (simp add: sameCloud_refl)
  qed
  with v show ?thesis by (rule sameCloud_trans)
qed

lemma exists_stays:
  assumes "scopeFraming s R" and "exists (s, w) = (r, (s', w'))"
  shows "sameCloud R w w'"
proof -
  obtain q e where q: "InstancesGet (computeSvc s) (projectID s) (Zone (providerSpec s)) (m_Name (machine s)) (ext w) = (q, e)"
    by force
  have "ext w' = e \<or> w' = w"
    using assms(2) by (auto simp: exists_run [OF q] existsError_run split: option.splits sum.splits if_splits)
  then show ?thesis
  proof
    assume "ext w' = e"
    with assms(1) q show ?thesis by (rule lookup_stays)
  qed (simp add: sameCloud_refl)
qed

section \<open>Requests\<close>

datatype request = ReqCreate | ReqExists | ReqUpdate | ReqDelete

fun serve :: "golib \<Rightarrow> 'w Actuator \<Rightarrow> request \<Rightarrow> Machine \<Rightarrow> 'w world \<Rightarrow> 'w world" where
  "serve lib a ReqCreate m w = snd (snd (Create lib a (m, w)))"
| "serve lib a ReqExists m w = snd (snd (Exists lib a (m, w)))"
| "serve lib a ReqUpdate m w = snd (snd (Update lib a (m, w)))"
| "serve lib a ReqDelete m w = snd (snd (Delete lib a (m, w)))"

text \<open>
  A relation within which all but the inserts and deletes of an actuator's services stay, and its
  inserts, or deletes, of instances of a given name.
\<close>

definition servicesKeep :: "'w Actuator \<Rightarrow> ('w \<Rightarrow> 'w \<Rightarrow> bool) \<Rightarrow> bool" where
  "servicesKeep a R \<longleftrightarrow>
     (\<forall>ns n. keeps R (GetSecret (act_coreClient a) ns n)) \<and>
     (\<forall>m b. keeps R (Patch (act_coreClient a) m b) \<and> keeps R (StatusPatch (act_coreClient a) m b)) \<and>
     (\<forall>key svc tags. act_computeClientBuilder a key = Inr svc \<and> act_tagsClientBuilder a key = Inr tags \<longrightarrow>
        instance_frame svc (act_coreClient a) tags R)"

definition insertsKeep :: "'w Actuator \<Rightarrow> ('w \<Rightarrow> 'w \<Rightarrow> bool) \<Rightarrow> string \<Rightarrow> bool" where
  "insertsKeep a R n \<longleftrightarrow>
     (\<forall>key svc p z i. act_computeClientBuilder a key = Inr svc \<and> in_Name i = n \<longrightarrow> keeps R (InstancesInsert svc p z i))"

definition deletesKeep :: "'w Actuator \<Rightarrow> ('w \<Rightarrow> 'w \<Rightarrow> bool) \<Rightarrow> string \<Rightarrow> bool" where
  "deletesKeep a R n \<longleftrightarrow>
     (\<forall>key svc u p z. act_computeClientBuilder a key = Inr svc \<longrightarrow> keeps R (InstancesDelete svc u p z n))"

lemma servicesKeep_scope:
  assumes "servicesKeep a R" and "newMachineScope lib (scopeParams a m) w = (Ok s, w0)"
  obtains key where "act_computeClientBuilder a key = Inr (computeSvc s)" and "scopePatching s R" and "scopeFraming s R"
    and "machine s = m"
proof -
  have "coreClient s = act_coreClient a" using newMachineScope_client [OF assms(2)] by (simp add: scopeParams_def)
  moreover obtain key where "act_computeClientBuilder a key = Inr (computeSvc s)" "act_tagsClientBuilder a key = Inr (tagSvc s)"
    using newMachineScope_built [OF assms(2)] by (auto simp: scopeParams_def)
  moreover have "machine s = m" using newMachineScope_machine(1) [OF assms(2)] by (simp add: scopeParams_def)
  ultimately show ?thesis using assms(1) that [of key]
    by (auto simp: servicesKeep_def patching_frame_def patching_frame_axioms_def)
qed

lemma newScope_stays:
  assumes "servicesKeep a R" and "newMachineScope lib (scopeParams a m) w = (q, w0)"
  shows "sameCloud R w w0"
proof -
  have "keeps R (GetSecret (par_coreClient (scopeParams a m)) ns n)" for ns n
    using assms(1) by (simp add: servicesKeep_def scopeParams_def)
  from obeysD [OF same_newScope [OF this] assms(2)] show ?thesis .
qed

lemma failed_scope_world:
  assumes "newMachineScope lib (scopeParams a m) w = (q, w0)" and "\<nexists>s. q = Ok s"
  shows "ext (serve lib a req m w) = ext w0"
  using assms
  by (cases req; cases q)
    (simp_all add: Create_def Exists_def Update_def Delete_def withScope_def failScope_def handleMachineError_def
      recordEvent_def go_simps)

lemma Exists_world:
  assumes "newMachineScope lib (scopeParams a m) w = (Ok s, w0)" and "exists (s, w0) = (q, (s1, w1))"
  shows "snd (snd (Exists lib a (m, w))) = w1"
  using assms(2) unfolding Exists_def withScope_run [OF assms(1)]
  by (cases q; cases "Phase (m_Status m)")
    (auto simp: seq_run attempt_run returnResult_def run_basic runWith_run split: if_splits)

text \<open>One request stays within a relation that its own insert or delete, if it makes one, stays within.\<close>

lemma serve_stays:
  assumes "servicesKeep a R" and ins: "req = ReqCreate \<Longrightarrow> insertsKeep a R (m_Name m)"
    and del: "req = ReqDelete \<Longrightarrow> deletesKeep a R (m_Name m)"
  shows "sameCloud R w (serve lib a req m w)"
proof -
  obtain q w0 where scope: "newMachineScope lib (scopeParams a m) w = (q, w0)" by force
  have "sameCloud R w0 (serve lib a req m w)"
  proof (cases "\<exists>s. q = Ok s")
    case False
    from failed_scope_world [OF scope this] show ?thesis by (rule sameCloud_refl)
  next
    case True
    then obtain s where "q = Ok s" ..
    note scope = scope [unfolded this]
    obtain key where key: "act_computeClientBuilder a key = Inr (computeSvc s)" and tail: "scopePatching s R"
      and frame: "scopeFraming s R" and m: "machine s = m"
      using assms(1) scope by (rule servicesKeep_scope)
    show ?thesis
    proof (cases req)
      case ReqCreate
      obtain r m' w' where run: "Create lib a (m, w) = (r, (m', w'))" by (metis prod.exhaust)
      obtain q s1 w1 where op: "create lib (s, w0) = (q, (s1, w1))" by (metis prod.exhaust)
      have "sameCloud R w0 w1"
        using ins [OF ReqCreate] key m by (intro create_stays [OF frame _ op]) (auto simp: insertsKeep_def)
      then show ?thesis using Create_tail [OF tail scope run op] sameCloud_trans run ReqCreate by auto
    next
      case ReqExists
      obtain q s1 w1 where op: "exists (s, w0) = (q, (s1, w1))" by (metis prod.exhaust)
      from exists_stays [OF frame op] Exists_world [OF scope op] ReqExists show ?thesis by simp
    next
      case ReqUpdate
      obtain r m' w' where run: "Update lib a (m, w) = (r, (m', w'))" by (metis prod.exhaust)
      obtain q s1 w1 where op: "update (s, w0) = (q, (s1, w1))" by (metis prod.exhaust)
      from update_stays [OF frame op] Update_tail [OF tail scope run op] sameCloud_trans run ReqUpdate show ?thesis by auto
    next
      case ReqDelete
      obtain r m' w' where run: "Delete lib a (m, w) = (r, (m', w'))" by (metis prod.exhaust)
      obtain q s1 w1 where op: "delete (s, w0) = (q, (s1, w1))" by (metis prod.exhaust)
      have "sameCloud R w0 w1"
        using del [OF ReqDelete] key m by (intro delete_stays [OF frame _ op]) (auto simp: deletesKeep_def)
      then show ?thesis using Delete_tail [OF tail scope run op] sameCloud_trans run ReqDelete by auto
    qed
  qed
  with newScope_stays [OF assms(1) scope] show ?thesis by (rule sameCloud_trans)
qed

section \<open>A cloud with operations in progress\<close>

text \<open>
  Of the cloud one sees the instances that exist, those an accepted insert is making and those an
  accepted delete is removing.  An instance is at rest as long as it is there and is not being
  removed, or is away and is not being made.
\<close>

record cloudView =
  existing :: "instanceKey set"
  creating :: "instanceKey set"
  deleting :: "instanceKey set"

definition there :: "('w \<Rightarrow> cloudView) \<Rightarrow> instanceKey \<Rightarrow> 'w \<Rightarrow> bool" where
  "there view k e \<longleftrightarrow> k \<in> existing (view e) \<and> k \<notin> deleting (view e)"

definition away :: "('w \<Rightarrow> cloudView) \<Rightarrow> instanceKey \<Rightarrow> 'w \<Rightarrow> bool" where
  "away view k e \<longleftrightarrow> k \<notin> existing (view e) \<and> k \<notin> creating (view e)"

text \<open>
  The documented behaviour: no call but a delete that names it disturbs an instance that is there
  and at rest, and no call but an insert that names it one that is away and at rest.  What
  is being made or removed may appear or disappear during any call, and when time passes.
\<close>

definition asynchronous :: "'w Actuator \<Rightarrow> ('w \<Rightarrow> cloudView) \<Rightarrow> bool" where
  "asynchronous a view \<longleftrightarrow> (\<forall>k.
     servicesKeep a (stays (there view k)) \<and> servicesKeep a (stays (away view k)) \<and>
     (\<forall>n. insertsKeep a (stays (there view k)) n \<and> deletesKeep a (stays (away view k)) n) \<and>
     (\<forall>n. n \<noteq> snd (snd k) \<longrightarrow> deletesKeep a (stays (there view k)) n \<and> insertsKeep a (stays (away view k)) n))"

definition timePasses :: "('w \<Rightarrow> cloudView) \<Rightarrow> ('w \<Rightarrow> 'w) \<Rightarrow> bool" where
  "timePasses view f \<longleftrightarrow> (\<forall>k e. (there view k e \<longrightarrow> there view k (f e)) \<and> (away view k e \<longrightarrow> away view k (f e)))"

lemma timePassesD:
  assumes "timePasses view f"
  shows "there view k e \<Longrightarrow> there view k (f e)" and "away view k e \<Longrightarrow> away view k (f e)"
  using assms unfolding timePasses_def by blast+

text \<open>Requests of the machine controller, and time between them.\<close>

datatype 'w activity = Request request Machine | Elapse "'w \<Rightarrow> 'w"

fun perform :: "golib \<Rightarrow> 'w Actuator \<Rightarrow> 'w activity \<Rightarrow> 'w world \<Rightarrow> 'w world" where
  "perform lib a (Request req m) w = serve lib a req m w"
| "perform lib a (Elapse f) w = w\<lparr>ext := f (ext w)\<rparr>"

definition performAll :: "golib \<Rightarrow> 'w Actuator \<Rightarrow> 'w activity list \<Rightarrow> 'w world \<Rightarrow> 'w world" where
  "performAll lib a = fold (perform lib a)"

lemma perform_rests:
  assumes "asynchronous a view" and "\<And>f. x = Elapse f \<Longrightarrow> timePasses view f"
  shows "there view k (ext w) \<Longrightarrow> (\<And>m. x = Request ReqDelete m \<Longrightarrow> m_Name m \<noteq> snd (snd k)) \<Longrightarrow>
      there view k (ext (perform lib a x w))"
    and "away view k (ext w) \<Longrightarrow> (\<And>m. x = Request ReqCreate m \<Longrightarrow> m_Name m \<noteq> snd (snd k)) \<Longrightarrow>
      away view k (ext (perform lib a x w))"
proof -
  note laws = assms(1) [unfolded asynchronous_def, rule_format, of k]
  show "there view k (ext (perform lib a x w))" if "there view k (ext w)" "\<And>m. x = Request ReqDelete m \<Longrightarrow> m_Name m \<noteq> snd (snd k)"
  proof (cases x)
    case (Request req m)
    then have "sameCloud (stays (there view k)) w (serve lib a req m w)" using laws that(2) by (intro serve_stays) auto
    with that(1) Request show ?thesis by (auto simp: sameCloud_def dest: stays_star)
  qed (use assms(2) that(1) in \<open>auto dest: timePassesD\<close>)
  show "away view k (ext (perform lib a x w))" if "away view k (ext w)" "\<And>m. x = Request ReqCreate m \<Longrightarrow> m_Name m \<noteq> snd (snd k)"
  proof (cases x)
    case (Request req m)
    then have "sameCloud (stays (away view k)) w (serve lib a req m w)" using laws that(2) by (intro serve_stays) auto
    with that(1) Request show ?thesis by (auto simp: sameCloud_def dest: stays_star)
  qed (use assms(2) that(1) in \<open>auto dest: timePassesD\<close>)
qed

text \<open>
  C6. Requests for one machine do not disturb the instances of others, against a cloud that disturbs an
  instance at rest only by an insert or delete that names it (\<open>asynchronous\<close>, \<open>timePasses\<close>), and that may finish
  accepted inserts and deletes at any later time.  Over any sequence of requests for any machines, with time
  passing between them: an instance that is there with no delete in progress stays there as long as no \<open>Delete\<close> of a
  machine of its name is among the requests, and one that is away with no insert in progress stays
  away as long as no \<open>Create\<close> of a machine of its name is; failing requests, scopes that cannot be
  made and requests for other machines never touch it.
\<close>

theorem requests_isolated:
  assumes "asynchronous a view" and "\<And>f. Elapse f \<in> set acts \<Longrightarrow> timePasses view f"
  shows "((p, z, n) \<in> existing (view (ext w)) \<and> (p, z, n) \<notin> deleting (view (ext w)) \<and>
      (\<forall>m. m_Name m = n \<longrightarrow> Request ReqDelete m \<notin> set acts) \<longrightarrow>
      (p, z, n) \<in> existing (view (ext (performAll lib a acts w)))) \<and>
    ((p, z, n) \<notin> existing (view (ext w)) \<and> (p, z, n) \<notin> creating (view (ext w)) \<and>
      (\<forall>m. m_Name m = n \<longrightarrow> Request ReqCreate m \<notin> set acts) \<longrightarrow>
      (p, z, n) \<notin> existing (view (ext (performAll lib a acts w))))"
proof -
  let ?k = "(p, z, n)"
  have "(there view ?k (ext w) \<and> (\<forall>m. m_Name m = n \<longrightarrow> Request ReqDelete m \<notin> set acts) \<longrightarrow>
        there view ?k (ext (performAll lib a acts w))) \<and>
      (away view ?k (ext w) \<and> (\<forall>m. m_Name m = n \<longrightarrow> Request ReqCreate m \<notin> set acts) \<longrightarrow>
        away view ?k (ext (performAll lib a acts w)))"
    using assms(2)
  proof (induction acts arbitrary: w)
    case (Cons x acts)
    note rests = perform_rests [OF assms(1), of x ?k w lib]
    from Cons.IH [of "perform lib a x w"] Cons.prems rests show ?case by (auto simp: performAll_def)
  qed (simp add: performAll_def)
  then show ?thesis by (simp add: there_def away_def)
qed

section \<open>Such a cloud\<close>

text \<open>
  The outside world is what one sees of the cloud.  Inserts and deletes are only noted; every lookup finds
  the cloud with all of them finished.
\<close>

definition finish :: "cloudView \<Rightarrow> cloudView" where
  "finish v = \<lparr>existing = (existing v \<union> creating v) - deleting v, creating = {}, deleting = {}\<rparr>"

definition pendingService :: "cloudView GCPComputeService" where
  "pendingService = sampleService\<lparr>
     InstancesGet := (\<lambda>p z n v. (if (p, z, n) \<in> existing (finish v) then Inr (Some runningInstance)
        else Inl (GoogleError 404 [] [] [] [] None), finish v)),
     InstancesInsert := (\<lambda>p z i v. (Inr (Some sampleOperation), v\<lparr>creating := insert (p, z, in_Name i) (creating v)\<rparr>)),
     InstancesDelete := (\<lambda>_ p z n v. (Inr (Some sampleOperation), v\<lparr>deleting := insert (p, z, n) (deleting v)\<rparr>))\<rparr>"

definition pendingActuator :: "cloudView Actuator" where
  "pendingActuator = NewActuator \<lparr>prm_CoreClient = sampleClient,
     prm_ComputeClientBuilder = (\<lambda>_. Inr pendingService), prm_TagsClientBuilder = (\<lambda>_. Inr sampleTags)\<rparr>"

definition pendingWorld :: "cloudView world" where
  "pendingWorld = \<lparr>ext = \<lparr>existing = {(''p1'', ''r1-a'', ''worker-9'')}, creating = {}, deleting = {}\<rparr>,
     calls = [], events = [], metrics = [], wallClock = (\<lambda>_. 7)\<rparr>"

lemma finish_rests: "timePasses (\<lambda>v. v) finish"
  by (simp add: timePasses_def there_def away_def finish_def)

lemma pending_frame:
  assumes "\<And>v. Q v \<Longrightarrow> Q (finish v)"
  shows "servicesKeep pendingActuator (stays Q)"
proof -
  have "instance_frame pendingService sampleClient sampleTags (stays Q)"
    by unfold_locales
      (use assms in \<open>simp_all add: keeps_def stays_def pendingService_def sampleService_def sampleClient_def sampleTags_def run_basic\<close>)
  then show ?thesis
    by (simp add: servicesKeep_def pendingActuator_def NewActuator_def) (simp add: keeps_def stays_def sampleClient_def)
qed

lemma pending_asynchronous: "asynchronous pendingActuator (\<lambda>v. v)"
  unfolding asynchronous_def
proof (intro allI conjI impI)
  fix k :: instanceKey
  show "servicesKeep pendingActuator (stays (there (\<lambda>v. v) k))" "servicesKeep pendingActuator (stays (away (\<lambda>v. v) k))"
    by (rule pending_frame, erule timePassesD [OF finish_rests])+
qed (auto simp: insertsKeep_def deletesKeep_def keeps_def stays_def there_def away_def pendingActuator_def NewActuator_def
    pendingService_def)

text \<open>
  A machine is created and deleted, the cloud taking its time: its instance is there after the
  creation has finished and gone after the deletion has, and the instance of another machine is
  there all along.
\<close>

lemma pending_creates:
  "(''p1'', ''r1-a'', ''worker-0'') \<in> existing (ext (performAll sampleLib pendingActuator
     [Request ReqCreate sampleMachine, Elapse finish] pendingWorld))"
  by code_simp

lemma pending_deletes:
  "(''p1'', ''r1-a'', ''worker-0'') \<notin> existing (ext (performAll sampleLib pendingActuator
     [Request ReqCreate sampleMachine, Elapse finish, Request ReqDelete sampleMachine, Elapse finish] pendingWorld))"
  by code_simp

theorem requests_isolated_witness:
  "(''p1'', ''r1-a'', ''worker-9'') \<in> existing (ext (performAll sampleLib pendingActuator
     [Request ReqCreate sampleMachine, Elapse finish, Request ReqDelete sampleMachine, Elapse finish] pendingWorld))"
proof -
  let ?acts = "[Request ReqCreate sampleMachine, Elapse finish, Request ReqDelete sampleMachine, Elapse finish]"
  have "\<And>f. Elapse f \<in> set ?acts \<Longrightarrow> timePasses (\<lambda>v. v) f" using finish_rests by auto
  note requests_isolated [where acts = ?acts, OF pending_asynchronous this, where p = "''p1''" and z = "''r1-a''" and n = "''worker-9''" and w = pendingWorld
      and lib = sampleLib]
  moreover have "m_Name sampleMachine = ''worker-0''" by (simp add: sample_defs)
  ultimately show ?thesis by (auto simp: pendingWorld_def)
qed

end
