(* ===== verification/Panic_Freedom.thy ===== *)
theory Panic_Freedom
  imports Actuator_Cloud
begin

text \<open>
  Panics.  A panic ends the manager for all machines, so which ones are possible matters.  The
  first part is a small logic of operations that keep an invariant and crash in allowed ways
  only; the second part runs it over the reconciler.
\<close>

section \<open>Operations that crash in allowed ways only\<close>

definition safe :: "('s \<Rightarrow> bool) \<Rightarrow> (crash \<Rightarrow> bool) \<Rightarrow> ('s, 'a) go \<Rightarrow> bool" where
  "safe I A m \<longleftrightarrow> (\<forall>s r t. I s \<longrightarrow> m s = (r, t) \<longrightarrow> I t \<and> (\<forall>c. r = Crash c \<longrightarrow> A c))"

text \<open>What a successful run returns.\<close>

definition yields :: "('a \<Rightarrow> bool) \<Rightarrow> ('s, 'a) go \<Rightarrow> bool" where
  "yields Q m \<longleftrightarrow> (\<forall>s x t. m s = (Ok x, t) \<longrightarrow> Q x)"

named_theorems safe_intros

lemma safeI: "(\<And>s r t. I s \<Longrightarrow> m s = (r, t) \<Longrightarrow> I t \<and> (\<forall>c. r = Crash c \<longrightarrow> A c)) \<Longrightarrow> safe I A m"
  by (simp add: safe_def)

lemma safeD: "safe I A m \<Longrightarrow> I s \<Longrightarrow> m s = (r, t) \<Longrightarrow> I t \<and> (\<forall>c. r = Crash c \<longrightarrow> A c)"
  by (simp add: safe_def)

lemma safe_basic [safe_intros]: "safe I A (ret x)" "safe I A (raise e)" "safe I A (gets f)"
  by (simp_all add: safe_def run_basic)

lemma safe_modify: "(\<And>s. I s \<Longrightarrow> I (f s)) \<Longrightarrow> safe I A (modify f)"
  by (simp add: safe_def run_basic)

lemma safe_panic: "A c \<Longrightarrow> safe I A (panic c)"
  by (simp add: safe_def run_basic)

lemma safe_seq_yields:
  assumes "safe I A m" and "yields Q m" and "\<And>x. Q x \<Longrightarrow> safe I A (k x)"
  shows "safe I A (seq m k)"
proof (rule safeI)
  fix s r t assume s: "I s" and run: "seq m k s = (r, t)"
  obtain q u where m: "m s = (q, u)" by force
  note mid = safeD [OF assms(1) s m]
  show "I t \<and> (\<forall>c. r = Crash c \<longrightarrow> A c)"
  proof (cases q)
    case (Ok x)
    with assms(2) m have "Q x" by (auto simp: yields_def)
    moreover from run m Ok have "k x u = (r, t)" by (simp add: seq_run)
    ultimately show ?thesis using safeD [OF assms(3)] mid by blast
  qed (use mid run m in \<open>auto simp: seq_run\<close>)
qed

lemma yields_True: "yields (\<lambda>_. True) m"
  by (simp add: yields_def)

lemma safe_seq [safe_intros]: "safe I A m \<Longrightarrow> (\<And>x. safe I A (k x)) \<Longrightarrow> safe I A (seq m k)"
  by (rule safe_seq_yields [OF _ yields_True])

lemma safe_onErr [safe_intros]: "safe I A m \<Longrightarrow> safe I A (onErr f m)"
  by (fastforce simp: safe_def onErr_run split: prod.splits outcome.splits)

lemma safe_onErrS [safe_intros]: "safe I A m \<Longrightarrow> safe I A (onErrS f m)"
  by (fastforce simp: safe_def onErrS_run split: prod.splits outcome.splits)

lemma safe_attempt [safe_intros]: "safe I A m \<Longrightarrow> safe I A (attempt m)"
  by (fastforce simp: safe_def attempt_run split: prod.splits outcome.splits)

lemma safe_if [safe_intros]: "(b \<Longrightarrow> safe I A m) \<Longrightarrow> (\<not> b \<Longrightarrow> safe I A k) \<Longrightarrow> safe I A (if b then m else k)"
  by simp

lemma safe_case_option [safe_intros]:
  "(p = None \<Longrightarrow> safe I A m) \<Longrightarrow> (\<And>x. p = Some x \<Longrightarrow> safe I A (k x)) \<Longrightarrow> safe I A (case p of None \<Rightarrow> m | Some x \<Rightarrow> k x)"
  by (cases p) simp_all

lemma safe_case_sum [safe_intros]:
  "(\<And>e. res = Inl e \<Longrightarrow> safe I A (f e)) \<Longrightarrow> (\<And>x. res = Inr x \<Longrightarrow> safe I A (g x)) \<Longrightarrow>
    safe I A (case res of Inl e \<Rightarrow> f e | Inr x \<Rightarrow> g x)"
  by (cases res) simp_all

lemma safe_case_prod [safe_intros]: "(\<And>a b. p = (a, b) \<Longrightarrow> safe I A (f a b)) \<Longrightarrow> safe I A (case p of (a, b) \<Rightarrow> f a b)"
  by (cases p) simp

lemma safe_case_list:
  "(xs = [] \<Longrightarrow> safe I A m) \<Longrightarrow> (\<And>x ys. xs = x # ys \<Longrightarrow> safe I A (k x ys)) \<Longrightarrow>
    safe I A (case xs of [] \<Rightarrow> m | x # ys \<Rightarrow> k x ys)"
  by (cases xs) simp_all

lemma safe_let [safe_intros]: "safe I A (m x) \<Longrightarrow> safe I A (let y = x in m y)"
  by simp

text \<open>A pointer that is not nil, the first element of a slice that is not empty.\<close>

lemma safe_deref [safe_intros]: "p \<noteq> None \<Longrightarrow> safe I A (deref p)"
  by (auto simp: safe_basic)

lemma yields_deref: "yields (\<lambda>x. p = Some x) (deref p)"
  by (cases p) (simp_all add: yields_def run_basic)

lemma safe_firstElem [safe_intros]: "xs \<noteq> [] \<Longrightarrow> safe I A (firstElem xs)"
  by (cases xs) (simp_all add: safe_basic)

lemma yields_firstElem: "yields (\<lambda>x. x \<in> set xs) (firstElem xs)"
  by (cases xs) (simp_all add: yields_def run_basic)

lemma safe_foldG_acc:
  assumes "P acc" and "\<And>a x. P a \<Longrightarrow> x \<in> set xs \<Longrightarrow> safe I A (body a x) \<and> yields P (body a x)"
  shows "safe I A (foldG body acc xs)"
  using assms
proof (induction xs arbitrary: acc)
  case (Cons x xs)
  then have "safe I A (body acc x)" "yields P (body acc x)" by simp_all
  then show ?case unfolding foldG.simps
    by (rule safe_seq_yields) (use Cons in simp)
qed (simp add: safe_basic)

lemma safe_foldG [safe_intros]:
  "(\<And>a x. x \<in> set xs \<Longrightarrow> safe I A (body a x)) \<Longrightarrow> safe I A (foldG body acc xs)"
  by (rule safe_foldG_acc [where P = "\<lambda>_. True"]) (simp_all add: yields_True)

lemma safe_forEach [safe_intros]: "(\<And>x. x \<in> set xs \<Longrightarrow> safe I A (body x)) \<Longrightarrow> safe I A (forEach xs body)"
  unfolding forEach_def by (rule safe_foldG)

lemma safe_pureCall [safe_intros]: "safe I A (pureCall r)"
  by (cases r) (simp_all add: safe_basic)

lemma safe_invoke [safe_intros]: "safe (\<lambda>_. True) A (invoke c f)"
  by (auto simp: safe_def invoke_def split: prod.splits sum.splits)

text \<open>An answer that is never nil.\<close>

definition answered :: "('w, 'a ptr) extcall \<Rightarrow> bool" where
  "answered f \<longleftrightarrow> (\<forall>e e'. f e \<noteq> (Inr None, e'))"

lemma yields_answer:
  assumes "answered f"
  shows "yields (\<lambda>p. p \<noteq> None) (onErr g (invoke c f))" "yields (\<lambda>p. p \<noteq> None) (onErr g (onSnd (invoke c f)))"
  using assms
  by (auto simp: answered_def yields_def go_simps invoke_def split: prod.splits sum.splits) (metis not_None_eq)+

lemma safe_answer:
  assumes "answered f" and "\<And>x. safe I A (k x)" and "safe I A (onErr g (onSnd (invoke c f)))"
  shows "safe I A (seq (onErr g (onSnd (invoke c f))) (\<lambda>p. seq (deref p) k))"
  using assms(3) yields_answer(2) [OF assms(1)]
  by (rule safe_seq_yields) (intro safe_intros assms(2))

lemma safe_answer_world:
  assumes "answered f" and "\<And>x. safe (\<lambda>_. True) A (k x)"
  shows "safe (\<lambda>_. True) A (seq (onErr g (invoke c f)) (\<lambda>p. seq (deref p) k))"
  by (rule safe_seq_yields [OF _ yields_answer(1) [OF assms(1)]]) (intro safe_intros assms(2))+

section \<open>The reconciler\<close>

text \<open>
  A provider spec whose lists of pointers hold no nil (the decoder makes a nil of a null
  element) and which has a network interface, and plain image names that are parts of a URL.
\<close>

definition wellSpec :: "GCPMachineProviderSpec \<Rightarrow> bool" where
  "wellSpec spec \<longleftrightarrow> None \<notin> set (Disks spec) \<and> None \<notin> set (Metadata spec) \<and>
     None \<notin> set (NetworkInterfaces spec) \<and> NetworkInterfaces spec \<noteq> []"

definition imagesResolve :: "golib \<Rightarrow> string \<Rightarrow> string \<Rightarrow> GCPDisk ptr list \<Rightarrow> bool" where
  "imagesResolve lib base project disks \<longleftrightarrow>
     (\<forall>d. Some d \<in> set disks \<and> dk_Image d \<noteq> '''' \<and> \<not> Contains (dk_Image d) ''/'' \<longrightarrow>
       resolveRelative lib base (''projects/'' @ project @ ''/global/images/'' @ dk_Image d) \<noteq> None)"

text \<open>What of a scope stays as it is: the services, the project and the disks.\<close>

definition anchor ::
    "'w machineScope \<Rightarrow> ('w GCPComputeService \<times> 'w Client \<times> 'w TagService) \<times> string \<times> GCPDisk ptr list" where
  "anchor s = (services s, projectID s, Disks (providerSpec s))"

definition scopeOk ::
    "('w GCPComputeService \<times> 'w Client \<times> 'w TagService) \<times> string \<times> GCPDisk ptr list \<Rightarrow> 'w machineScope \<times> 'w world \<Rightarrow> bool" where
  "scopeOk v x \<longleftrightarrow> anchor (fst x) = v \<and> wellSpec (providerSpec (fst x))"

lemma wellSpec_elem:
  "wellSpec spec \<Longrightarrow> d \<in> set (Disks spec) \<Longrightarrow> d \<noteq> None"
  "wellSpec spec \<Longrightarrow> n \<in> set (NetworkInterfaces spec) \<Longrightarrow> n \<noteq> None"
  unfolding wellSpec_def by metis+

definition isLogFatal :: "crash \<Rightarrow> bool" where
  "isLogFatal c \<longleftrightarrow> (\<exists>e. c = LogFatal e)"

lemma safe_onSnd [safe_intros]: "safe (\<lambda>_. True) A m \<Longrightarrow> safe (scopeOk v) A (onSnd m)"
  by (fastforce simp: safe_def onSnd_def scopeOk_def split: prod.splits)

lemma safe_seq_scope:
  assumes "\<And>s. anchor s = v \<Longrightarrow> wellSpec (providerSpec s) \<Longrightarrow> safe (scopeOk v) A (k (f s))"
  shows "safe (scopeOk v) A (seq (getScope f) k)"
proof (rule safeI)
  fix x r t assume x: "scopeOk v x" and run: "seq (getScope f) k x = (r, t)"
  obtain s w where s: "x = (s, w)" by force
  from x have "safe (scopeOk v) A (k (f s))" unfolding s by (intro assms) (simp_all add: scopeOk_def)
  moreover from run have "k (f s) x = (r, t)" by (simp add: s seq_run scope_run)
  ultimately show "scopeOk v t \<and> (\<forall>c. r = Crash c \<longrightarrow> A c)" using x by (blast dest: safeD)
qed

lemma safe_updScope [safe_intros]:
  "(\<And>s. anchor (f s) = anchor s) \<Longrightarrow> (\<And>s. wellSpec (providerSpec s) \<Longrightarrow> wellSpec (providerSpec (f s))) \<Longrightarrow>
    safe (scopeOk v) A (updScope f)"
  unfolding updScope_def by (rule safe_modify) (auto simp: scopeOk_def)

lemma safe_getScope [safe_intros]: "safe (scopeOk v) A (getScope f)"
  by (simp add: getScope_def safe_basic)

lemma safe_metric [safe_intros]: "safe (\<lambda>_. True) A (registerMetric m)"
  by (simp add: registerMetric_def safe_modify)

lemma safe_Now [safe_intros]: "safe (\<lambda>_. True) A Now"
  by (simp add: Now_def safe_basic)

lemma safe_orMetric [safe_intros]: "safe (scopeOk v) A m \<Longrightarrow> safe (scopeOk v) A (orMetric x f m)"
  unfolding orMetric_def by (intro safe_intros)

lemmas safe_all = safe_seq_scope safe_intros

text \<open>
  What the reconciler relies on: an answer without an error is not nil, the image of a family
  neither; listing machine types only ever ends the process through \<open>log.Fatal\<close>, and no type it
  lists as N1 is one of the A2 and A3 types.
\<close>

locale answering =
  fixes svc :: "'w GCPComputeService" and tags :: "'w TagService"
  assumes lookup_answer: "answered (InstancesGet svc p z n)"
    and pool_answer: "answered (TargetPoolsGet svc p r n)"
    and region_answer: "answered (RegionGet svc p r)"
    and image_answer: "answered (ImageGet svc p n)" "answered (ImageFamilyGet svc p z n)"
    and family_answer: "ImageFamilyGet svc p z n e = (Inr (Some family), e') \<Longrightarrow> fv_Image family \<noteq> None"
    and group_answer: "answered (InstanceGroupsListInstances svc p z n st)"
    and backend_answer: "answered (BackendServiceGet svc p r n)"
    and tag_answer: "answered (GetNamespacedName tags n)"
    and listing_fatal: "GPUCompatibleMachineTypesList svc p z e = (Crash c, e') \<Longrightarrow> isLogFatal c"
    and listing_families: "GPUCompatibleMachineTypesList svc p z e = (Ok (m, ns), e') \<Longrightarrow> n \<in> set ns \<Longrightarrow>
      \<not> HasPrefix n ''a2-'' \<and> \<not> HasPrefix n ''a3-''"
begin

lemmas answers = lookup_answer pool_answer region_answer image_answer group_answer backend_answer tag_answer

lemma safe_specifics: "safe (scopeOk v) A (setMachineCloudProviderSpecifics inst)"
  by (rule safeI) (auto simp: setMachineCloudProviderSpecifics_run scopeOk_def anchor_def services_def split: prod.splits)

lemma safe_state: "safe (scopeOk ((svc, client, tags), project, disks)) A (reconcileMachineWithCloudState c)"
  unfolding reconcileMachineWithCloudState_def applyCondition_def Let_def
  by (rule safe_answer safe_all safe_case_list safe_specifics | simp add: anchor_def services_def answers)+

lemma safe_pools:
  "safe (scopeOk ((svc, client, tags), project, disks)) A (processTargetPools True addInstanceToTargetPool)"
  "safe (scopeOk ((svc, client, tags), project, disks)) A (processTargetPools False deleteInstanceFromTargetPool)"
  unfolding processTargetPools_def processPool_def instanceExistsInPool_def addInstanceToTargetPool_def
    deleteInstanceFromTargetPool_def Let_def
  by (rule safe_answer safe_all | simp add: anchor_def services_def answers)+

lemma safe_findNetwork: "None \<notin> set nics \<Longrightarrow> safe I A (findNetwork net sub nics)"
proof (induction nics)
  case (Cons n nics)
  then show ?case by (cases n) (simp_all add: safe_basic safe_if)
qed (simp add: safe_basic)

lemma not_nil: "None \<notin> set xs \<Longrightarrow> p \<in> set xs \<Longrightarrow> p \<noteq> None"
  by metis

lemma safe_network: "safe (scopeOk v) A ensureCorrectNetworkAndSubnetName"
  unfolding ensureCorrectNetworkAndSubnetName_def Let_def
proof (rule safe_seq_scope)
  fix s :: "'a machineScope" assume "wellSpec (providerSpec s)"
  then have nics: "None \<notin> set (NetworkInterfaces (providerSpec s))" "NetworkInterfaces (providerSpec s) \<noteq> []"
    by (simp_all add: wellSpec_def)
  have first: "safe (scopeOk v) A (seq (firstElem (NetworkInterfaces (providerSpec s)))
      (\<lambda>p. seq (deref p) (\<lambda>nic. ret (ni_Network nic, ni_Subnetwork nic))))"
    by (rule safe_seq_yields [OF safe_firstElem yields_firstElem]) (use nics in \<open>auto intro!: safe_intros dest: not_nil\<close>)
  show "safe (scopeOk v) A (seq (findNetwork (clusterID s @ ''-network'') (clusterID s @ ''-'' @ machineRole s @ ''-subnet'')
        (NetworkInterfaces (providerSpec s)))
      (\<lambda>found. if found then ret (clusterID s @ ''-network'', clusterID s @ ''-'' @ machineRole s @ ''-subnet'')
        else seq (firstElem (NetworkInterfaces (providerSpec s)))
          (\<lambda>p. seq (deref p) (\<lambda>nic. ret (ni_Network nic, ni_Subnetwork nic)))))"
    by (rule safe_seq [OF safe_findNetwork [OF nics(1)] safe_if [OF safe_basic(1) first]])
qed

lemma safe_backend: "safe (scopeOk ((svc, client, tags), project, disks)) A getBackendService"
  unfolding getBackendService_def
  by (rule safe_seq_scope, rule safe_seq_yields [OF _ yields_answer(2)])
    (rule safe_all | simp add: anchor_def services_def answers)+

lemma safe_groups:
  "safe (scopeOk ((svc, client, tags), project, disks)) A registerInstanceToControlPlaneInstanceGroup"
  "safe (scopeOk ((svc, client, tags), project, disks)) A unregisterInstanceFromControlPlaneInstanceGroup"
  unfolding registerInstanceToControlPlaneInstanceGroup_def unregisterInstanceFromControlPlaneInstanceGroup_def
    fetchRunningInstancesInInstanceGroup_def ensureInstanceGroup_def insertIfMissing_def ensureBackend_def
    registerNewInstanceGroup_def checkRegistrationOfBackend_def updateBackendServiceWithInstanceGroup_def Let_def
  by (rule safe_answer safe_network safe_backend safe_all | simp add: anchor_def services_def answers)+

lemma safe_update: "safe (scopeOk ((svc, client, tags), project, disks)) A update"
  unfolding update_def validateOrFail_def by (rule safe_pools safe_groups safe_state safe_all)+

lemma safe_exists: "safe (scopeOk ((svc, client, tags), project, disks)) A exists"
  unfolding exists_def existsError_def by (rule safe_all)+

lemma safe_delete: "safe (scopeOk ((svc, client, tags), project, disks)) A delete"
  unfolding delete_def deleteExisting_def deleteInstance_def Let_def
  by (rule safe_pools safe_groups safe_exists safe_all)+

text \<open>Building the instance.\<close>

lemma safe_labels: "safe (\<lambda>_. True) A (GetLabelsList client' cid ls)"
  unfolding GetLabelsList_def GetInfrastructure_def Let_def by (rule safe_intros)+

lemma safe_tagStep: "safe (\<lambda>_. True) A (tagStep tags acc tag)"
proof -
  let ?call = "attempt (invoke (CallGetNamespacedName (tagName tag)) (GetNamespacedName tags (tagName tag)))"
  have "yields (\<lambda>res. res \<noteq> Inr None) ?call"
    using tag_answer [of "tagName tag"]
    by (auto simp: yields_def answered_def attempt_run invoke_def split: prod.splits sum.splits) (metis not_None_eq)
  then show ?thesis
    unfolding tagStep_def Let_def
    by (rule safe_seq_yields [rotated]) (auto intro!: safe_intros)
qed

lemma safe_tags: "safe (\<lambda>_. True) A (GetResourceManagerTags client' tags ts)"
  unfolding GetResourceManagerTags_def getTagValuesNames_def GetInfrastructure_def Let_def
  by (rule safe_tagStep safe_intros)+

lemma safe_family: "safe (\<lambda>_. True) A (checkImageFamilyImageUEFICompatible svc p z n)"
proof -
  let ?call = "onErr (errorfW (''unable to retrieve image family '' @ Quote n @ '' in project '' @ Quote p @ '': ''))
    (invoke (CallImageFamilyGet p z n) (ImageFamilyGet svc p z n))"
  have "yields (\<lambda>r. \<exists>family. r = Some family \<and> fv_Image family \<noteq> None) ?call"
    using image_answer(2) [of p z n] family_answer [of p z n]
    by (auto simp: yields_def answered_def go_simps invoke_def split: prod.splits sum.splits) (metis not_None_eq)
  then show ?thesis
    unfolding checkImageFamilyImageUEFICompatible_def
    by (rule safe_seq_yields [rotated]) (clarsimp | rule safe_intros)+
qed

lemma safe_uefi: "None \<notin> set ds \<Longrightarrow> safe (\<lambda>_. True) A (uefiLoop svc spec ds)"
proof (induction ds)
  case (Cons d ds)
  have image: "safe (\<lambda>_. True) A (checkImageUEFICompatible svc p n)" for p n
    unfolding checkImageUEFICompatible_def by (rule safe_answer_world safe_intros | simp add: answers)+
  from Cons show ?case by (cases d) (auto intro!: safe_intros safe_family image)
qed (simp add: safe_basic)

lemma safe_checkQuota: "gs \<noteq> [] \<Longrightarrow> safe (scopeOk ((svc, client, tags), project, disks)) A (checkQuota lib' gs)"
  unfolding checkQuota_def Let_def
  by (rule safe_answer safe_all | simp add: anchor_def services_def answers)+

lemma safe_listed:
  assumes "\<forall>n\<in>set ns. \<not> HasPrefix n ''a2-'' \<and> \<not> HasPrefix n ''a3-''" and "\<not> noAcceleratorCheck spec"
  shows "safe (scopeOk ((svc, client, tags), project, disks)) A (case fmlookup m (ps_MachineType spec) of
      Some gpuInfo \<Rightarrow> checkQuota lib' [\<lparr>gpu_Count = ucast (gi_Count gpuInfo), gpu_Type = gi_Type gpuInfo\<rparr>]
    | None \<Rightarrow> if containsString ns (ps_MachineType spec) then checkQuota lib' (GPUs spec) else raise e)"
proof (rule safe_case_option, rule safe_if)
  assume "containsString ns (ps_MachineType spec)"
  with assms have "GPUs spec \<noteq> []" by (auto simp: containsString_iff noAcceleratorCheck_def)
  then show "safe (scopeOk ((svc, client, tags), project, disks)) A (checkQuota lib' (GPUs spec))" by (rule safe_checkQuota)
qed (simp_all add: safe_basic safe_checkQuota)

lemma safe_accelerators: "safe (scopeOk ((svc, client, tags), project, disks)) isLogFatal (validateGuestAccelerators lib')"
proof -
  have listed: "safe (\<lambda>_. True) isLogFatal (invokeGo c (GPUCompatibleMachineTypesList svc p z))" for c p z
    using listing_fatal by (auto simp: safe_def invokeGo_def split: prod.splits)
  have families: "yields (\<lambda>(m, ns). \<forall>n\<in>set ns. \<not> HasPrefix n ''a2-'' \<and> \<not> HasPrefix n ''a3-'')
      (onSnd (invokeGo c (GPUCompatibleMachineTypesList svc p z)))" for c p z
    using listing_families by (auto simp: yields_def onSnd_def invokeGo_def split: prod.splits)
  have listing: "safe (scopeOk ((svc, client, tags), project, disks)) isLogFatal
      (seq (onSnd (invokeGo c (GPUCompatibleMachineTypesList (computeSvc s) p z))) (\<lambda>(m, ns). k m ns))"
    if "anchor s = ((svc, client, tags), project, disks)"
      and "\<And>m ns. \<forall>n\<in>set ns. \<not> HasPrefix n ''a2-'' \<and> \<not> HasPrefix n ''a3-'' \<Longrightarrow>
        safe (scopeOk ((svc, client, tags), project, disks)) isLogFatal (k m ns)"
    for s c p z and k :: "_ \<Rightarrow> _ \<Rightarrow> ('w, unit) rec"
  proof -
    from that(1) have svc: "computeSvc s = svc" by (simp add: anchor_def services_def)
    show ?thesis unfolding svc
      by (rule safe_seq_yields [OF safe_onSnd [OF listed] families]) (auto intro: that(2))
  qed
  show ?thesis
    unfolding validateGuestAccelerators_def Let_def
    by (rule safe_seq_scope safe_if safe_basic listing safe_listed | assumption)+
qed

lemma safe_metadata: "safe (scopeOk ((svc, client, tags), project, disks)) A instanceMetadata"
proof -
  have fold: "safe I A (foldG (metadataStep k) [item] ms)" if "None \<notin> set ms" for I :: "'s \<Rightarrow> bool" and A k item ms
  proof (rule safe_foldG_acc [where P = "\<lambda>items. items \<noteq> []"])
    fix items :: "MetadataItem list" and p :: "GCPMetadata ptr" assume "items \<noteq> []" "p \<in> set ms"
    with that obtain m where "p = Some m" by (metis not_None_eq)
    with \<open>items \<noteq> []\<close> have "safe I A (metadataStep k items p)" by (cases items) (simp_all add: metadataStep_def safe_basic)
    moreover have "yields (\<lambda>items. items \<noteq> []) (metadataStep k items p)"
      using \<open>items \<noteq> []\<close> \<open>p = Some m\<close> by (cases items) (simp_all add: metadataStep_def yields_def run_basic)
    ultimately show "safe I A (metadataStep k items p) \<and> yields (\<lambda>items. items \<noteq> []) (metadataStep k items p)" ..
  qed simp
  have user: "safe (scopeOk ((svc, client, tags), project, disks)) A getCustomUserData"
    unfolding getCustomUserData_def Let_def by (rule safe_all)+
  show ?thesis
    unfolding instanceMetadata_def Let_def
    by (rule user fold safe_all | simp add: wellSpec_def)+
qed

lemma safe_disk:
  assumes "imagesResolve lib (BasePath svc) project disks" and "p \<in> set disks" and "p \<noteq> None"
  shows "safe (scopeOk ((svc, client, tags), project, disks)) A (diskStep lib zone ts ds p)"
proof -
  obtain disk where p: "p = Some disk" using assms(3) by blast
  have image: "safe I A (sourceImage lib s disk)" if "anchor s = ((svc, client, tags), project, disks)"
    for s and I :: "'s \<Rightarrow> bool"
    unfolding sourceImage_def
    by (intro safe_if safe_case_option safe_basic)
      (use assms that p in \<open>auto simp: imagesResolve_def anchor_def services_def\<close>)
  show ?thesis
    unfolding diskStep_def p deref_simps seq_ret by (rule image safe_labels safe_all | assumption)+
qed

lemma yields_start: "yields (\<lambda>i. in_Scheduling i \<noteq> None \<and> in_ShieldedInstanceConfig i \<noteq> None) startInstance"
  unfolding yields_def
proof (intro allI impI)
  fix x i t assume "startInstance x = (Ok i, t)"
  moreover obtain s w where "x = (s, w)" by force
  ultimately show "in_Scheduling i \<noteq> None \<and> in_ShieldedInstanceConfig i \<noteq> None"
    by (auto elim!: startInstance_Ok simp: baseInstance_def Let_def)
qed

lemma yields_restart:
  "in_ShieldedInstanceConfig i \<noteq> None \<Longrightarrow> yields (\<lambda>j. in_ShieldedInstanceConfig j \<noteq> None) (setRestart i)"
  unfolding yields_def
proof (intro allI impI)
  fix x j t assume "in_ShieldedInstanceConfig i \<noteq> None" "setRestart i x = (Ok j, t)"
  moreover obtain s w where "x = (s, w)" by force
  ultimately show "in_ShieldedInstanceConfig j \<noteq> None" by (auto elim!: setRestart_Ok)
qed

lemma safe_head: "safe (scopeOk ((svc, client, tags), project, disks)) A instanceHead"
proof -
  have start: "safe (scopeOk ((svc, client, tags), project, disks)) A startInstance"
    unfolding startInstance_def by (rule safe_labels safe_all)+
  have fetch: "safe (scopeOk ((svc, client, tags), project, disks)) A fetchTags"
    unfolding fetchTags_def by (rule safe_all | simp add: anchor_def services_def safe_tags)+
  have restart: "safe (scopeOk ((svc, client, tags), project, disks)) A (setRestart i)" if "in_Scheduling i \<noteq> None" for i
    unfolding setRestart_def by (rule safe_all | simp add: that)+
  have shielded: "safe (scopeOk ((svc, client, tags), project, disks)) A (setShielded i)" if "in_ShieldedInstanceConfig i \<noteq> None" for i
    unfolding setShielded_def defaultShielded_def IsUEFICompatible_def
    by (rule safe_all | simp add: anchor_def services_def safe_uefi wellSpec_def that)+
  show ?thesis
    unfolding instanceHead_def
  proof (rule safe_seq_yields [OF start yields_start], rule safe_seq [OF fetch])
    fix i :: Instance and ts assume i: "in_Scheduling i \<noteq> None \<and> in_ShieldedInstanceConfig i \<noteq> None"
    show "safe (scopeOk ((svc, client, tags), project, disks)) A (seq (setRestart (i\<lparr>in_Params := Some ts\<rparr>)) (\<lambda>j.
        seq (setShielded j) (\<lambda>j. ret (j, ts))))"
      by (rule safe_seq_yields [OF restart yields_restart]) (use i in \<open>auto intro!: safe_seq shielded safe_basic\<close>)
  qed
qed

lemma safe_create:
  assumes "imagesResolve lib (BasePath svc) project disks"
  shows "safe (scopeOk ((svc, client, tags), project, disks)) isLogFatal (create lib)"
proof -
  have body: "safe (scopeOk ((svc, client, tags), project, disks)) isLogFatal (instanceBody lib zone ts i)" for zone ts i
    unfolding instanceBody_def nicStep_def
    by (rule safe_accelerators safe_metadata safe_disk [OF assms] safe_all | erule (1) wellSpec_elem | simp add: anchor_def)+
  show ?thesis
    unfolding create_def validateOrFail_def buildInstance_def insertInstance_def
    by (rule safe_head body safe_state safe_all)+
qed

end

section \<open>The real compute service\<close>

text \<open>
  The same of the generated client behind the real service: it returns a value or an error,
  and the A2 and A3 machine types it lists have an accelerator.
\<close>

locale google_api =
  fixes api :: "'w ComputeAPI" and tags :: "'w TagService"
  assumes api_answers: "answered (api_InstancesGet api p z n)" "answered (api_TargetPoolsGet api p z n)"
      "answered (api_RegionsGet api p z)" "answered (api_ImagesGet api p n)" "answered (api_ImageFamilyViewsGet api p z n)"
      "answered (api_InstanceGroupsListInstances api p z n st)" "answered (api_RegionBackendServicesGet api p z n)"
    and api_family: "api_ImageFamilyViewsGet api p z n e = (Inr (Some family), e') \<Longrightarrow> fv_Image family \<noteq> None"
    and api_tags: "answered (GetNamespacedName tags n)"
    and api_types: "api_MachineTypesPages api p z e = ((pages, err), e') \<Longrightarrow> t \<in> set (concat pages) \<Longrightarrow>
      gpuFamilyPrefix (mt_Name t) \<Longrightarrow> Accelerators t \<noteq> []"
begin

lemma listing_crash:
  assumes "computeService_GPUCompatibleMachineTypesList api p z e = (Crash c, e')"
  shows "isLogFatal c"
proof -
  obtain pages err e1 where pages: "api_MachineTypesPages api p z e = ((pages, err), e1)" by (metis prod.exhaust)
  have collect: "safe (\<lambda>_. True) isLogFatal (collectMachineType acc t)" if "t \<in> set (concat pages)" for acc t
    unfolding collectMachineType_def using api_types [OF pages that] by (intro safe_intros)
  have "safe (\<lambda>_. True) isLogFatal (seq (foldG collectMachineType (fmempty, []) (concat pages))
      (\<lambda>acc. case err of None \<Rightarrow> ret acc | Some x \<Rightarrow> panic (LogFatal x)))"
    by (rule collect safe_intros safe_panic | simp add: isLogFatal_def)+
  with assms pages show ?thesis
    by (auto simp: computeService_GPUCompatibleMachineTypesList_def dest: safeD)
qed

end

sublocale google_api \<subseteq> google: answering "computeService api" tags
  by unfold_locales
    (simp_all add: computeService_def api_answers api_tags api_family listing_crash catalog.n1_not_gpu)

context google_api
begin

lemma real_service: "answering (computeService api) tags"
  by (rule google.answering_axioms)

end

lemmas real_safe = answering.safe_create [OF google_api.real_service] answering.safe_update [OF google_api.real_service]
  answering.safe_delete [OF google_api.real_service] answering.safe_exists [OF google_api.real_service]

text \<open>A client that answers every request, for the sample machine and its pool.\<close>

definition answeringAPI :: "'w ComputeAPI" where
  "answeringAPI = \<lparr>api_InstancesInsert = (\<lambda>_ _ _ e. (Inr (Some sampleOperation), e)),
     api_ZoneOperationsGet = (\<lambda>_ _ _ e. (Inr (Some sampleOperation), e)),
     api_InstancesGet = (\<lambda>_ _ _ e. (Inr (Some runningInstance), e)),
     api_InstancesDelete = (\<lambda>_ _ _ _ e. (Inr (Some sampleOperation), e)), api_ZonesGet = (\<lambda>_ z e. (Inr (Some z), e)),
     api_BasePath = ''https://compute.googleapis.com/compute/v1/'',
     api_TargetPoolsGet = (\<lambda>_ _ _ e. (Inr (Some \<lparr>tp_Instances = []\<rparr>), e)),
     api_TargetPoolsAddInstance = (\<lambda>_ _ _ _ e. (Inr (Some sampleOperation), e)),
     api_TargetPoolsRemoveInstance = (\<lambda>_ _ _ _ e. (Inr (Some sampleOperation), e)),
     api_MachineTypesGet = (\<lambda>_ _ _ e. (Inr None, e)),
     api_MachineTypesPages = (\<lambda>_ _ e. (([], Some (PlainError ''unavailable'')), e)),
     api_AcceleratorTypesGet = (\<lambda>_ _ a e. (Inr (Some a), e)), api_RegionsGet = (\<lambda>_ _ e. (Inr (Some \<lparr>Quotas = []\<rparr>), e)),
     api_InstanceGroupsAddInstances = (\<lambda>_ _ _ _ e. (Inr (Some sampleOperation), e)),
     api_InstanceGroupsRemoveInstances = (\<lambda>_ _ _ _ e. (Inr (Some sampleOperation), e)),
     api_InstanceGroupsListInstances = (\<lambda>_ _ _ _ e. (Inr (Some []), e)),
     api_InstanceGroupsInsert = (\<lambda>_ _ _ e. (Inr (Some sampleOperation), e)),
     api_InstanceGroupsGet = (\<lambda>_ _ _ e. (Inr None, e)),
     api_RegionBackendServicesUpdate = (\<lambda>_ _ _ _ e. (Inr (Some sampleOperation), e)),
     api_RegionBackendServicesGet = (\<lambda>_ _ _ e. (Inr (Some \<lparr>Backends = [], bs_Rest = ''''\<rparr>), e)),
     api_ImagesGet = (\<lambda>_ _ e. (Inr (Some \<lparr>GuestOsFeatures = []\<rparr>), e)),
     api_ImageFamilyViewsGet = (\<lambda>_ _ _ e. (Inr (Some \<lparr>fv_Image = Some \<lparr>GuestOsFeatures = []\<rparr>\<rparr>), e))\<rparr>"

interpretation google_sample: google_api answeringAPI sampleTags
  by unfold_locales (auto simp: answeringAPI_def sampleTags_def answered_def)

section \<open>The actuator\<close>

text \<open>
  The builders of the actuator return the real compute service over a client that answers; the
  provider spec of the machine, if it decodes, is not null and well-formed.
\<close>

definition answeringActuator :: "'w Actuator \<Rightarrow> bool" where
  "answeringActuator a \<longleftrightarrow> (\<forall>key svc tags. act_computeClientBuilder a key = Inr svc \<and> act_tagsClientBuilder a key = Inr tags \<longrightarrow>
     (\<exists>api. svc = computeService api \<and> google_api api tags))"

definition wellMachine :: "golib \<Rightarrow> Machine \<Rightarrow> bool" where
  "wellMachine lib m \<longleftrightarrow> (\<forall>p. ProviderSpecFromRawExtension lib (ProviderSpecValue m) = Inr p \<longrightarrow>
     (\<exists>spec. p = Some spec \<and> wellSpec spec \<and> (\<forall>base project. imagesResolve lib base project (Disks spec))))"

lemma newMachineScope_safe: "wellMachine lib (par_machine params) \<Longrightarrow> newMachineScope lib params w \<noteq> (Crash c, w')"
proof -
  assume well: "wellMachine lib (par_machine params)"
  let ?spec = "onErr (\<lambda>err. InvalidMachineConfiguration (''failed to get machine config: '' @ Error err))
    (pureCall (ProviderSpecFromRawExtension lib (ProviderSpecValue (par_machine params))))"
  have "yields (\<lambda>p. p \<noteq> None) ?spec"
    using well by (cases "ProviderSpecFromRawExtension lib (ProviderSpecValue (par_machine params))")
      (auto simp: yields_def wellMachine_def run_basic)
  then have "safe (\<lambda>_. True) (\<lambda>_. False) (newMachineScope lib params)"
    unfolding newMachineScope_def GetCredentialsSecret_def Let_def
    by (rule safe_seq_yields [rotated]) (rule safe_intros | assumption)+
  then show ?thesis by (auto dest: safeD)
qed

lemma newMachineScope_decoded:
  "newMachineScope lib params w = (Ok s, w1) \<Longrightarrow>
    ProviderSpecFromRawExtension lib (ProviderSpecValue (par_machine params)) = Inr (Some (providerSpec s))"
  by (auto simp: newMachineScope_def Let_def run_Ok split: if_splits)

lemma scope_ok:
  assumes "answeringActuator a" and "wellMachine lib m" and "newMachineScope lib (scopeParams a m) w = (Ok s, w0)"
  obtains api where "google_api api (tagSvc s)" "computeSvc s = computeService api"
    "scopeOk ((computeService api, coreClient s, tagSvc s), projectID s, Disks (providerSpec s)) (s, w0)"
    "imagesResolve lib (BasePath (computeService api)) (projectID s) (Disks (providerSpec s))"
proof -
  from newMachineScope_built [OF assms(3)] obtain key where
    "act_computeClientBuilder a key = Inr (computeSvc s)" "act_tagsClientBuilder a key = Inr (tagSvc s)"
    by (auto simp: scopeParams_def)
  with assms(1) obtain api where "google_api api (tagSvc s)" "computeSvc s = computeService api"
    unfolding answeringActuator_def by metis
  moreover from newMachineScope_decoded [OF assms(3)] assms(2)
  have "wellSpec (providerSpec s)" "\<And>base project. imagesResolve lib base project (Disks (providerSpec s))"
    by (auto simp: wellMachine_def scopeParams_def)
  ultimately show ?thesis using that by (simp add: scopeOk_def anchor_def services_def)
qed

text \<open>An entry point crashes only as its operation does.\<close>

lemma safe_run:
  assumes "safe I A op" and "I st" and "\<And>x. safe (\<lambda>_. True) A (k x)" and "seq (attempt op) k st = (Crash c, st')"
  shows "A c"
proof -
  obtain q t where op: "op st = (q, t)" by force
  show ?thesis
  proof (cases q)
    case (Crash x)
    with op assms(4) have "c = x" by (simp add: seq_run attempt_run)
    with safeD [OF assms(1,2) op] Crash show ?thesis by simp
  next
    case (Ok x)
    with op assms(4) have "k (Inr x) t = (Crash c, st')" by (simp add: seq_run attempt_run)
    from safeD [OF assms(3) TrueI this] show ?thesis by simp
  next
    case (Err e)
    with op assms(4) have "k (Inl e) t = (Crash c, st')" by (simp add: seq_run attempt_run)
    from safeD [OF assms(3) TrueI this] show ?thesis by simp
  qed
qed

lemma safe_tails [safe_intros]:
  "safe (\<lambda>_. True) A (Close lib)"
  "safe (\<lambda>_. True) A (failReconciler action m e)"
  "safe (\<lambda>_. True) A (onSnd (normalEvent m reason msg))"
  "safe (\<lambda>_. True) A (getScope f)"
proof -
  show "safe (\<lambda>_. True) A (Close lib)" by (auto simp: safe_def Close_not_Crash)
  show "safe (\<lambda>_. True) A (failReconciler action m e)"
    by (auto simp: safe_def failReconciler_def handleMachineError_def recordEvent_def go_simps split: if_splits)
  show "safe (\<lambda>_. True) A (onSnd (normalEvent m reason msg))"
    by (auto simp: safe_def normalEvent_def recordEvent_def go_simps)
  show "safe (\<lambda>_. True) A (getScope f)" by (simp add: getScope_def safe_basic)
qed

lemma withScope_crash:
  assumes "wellMachine lib m" and "withScope lib a fail body (m, w) = (Crash c, x)" and "\<And>e w c w'. fail m e w \<noteq> (Crash c, w')"
  obtains s w0 where "newMachineScope lib (scopeParams a m) w = (Ok s, w0)" "body s m (m, w0) = (Crash c, x)"
proof -
  obtain q w0 where scope: "newMachineScope lib (scopeParams a m) w = (q, w0)" by force
  have "\<nexists>c. q = Crash c" using newMachineScope_safe [of lib "scopeParams a m" w] scope assms(1) by (auto simp: scopeParams_def)
  with assms(2,3) scope that show ?thesis by (cases q) (auto simp: withScope_def split: prod.splits)
qed

lemma runWith_crash: "runWith s body (m, w) = (Crash c, x) \<Longrightarrow> \<exists>y. body (s, w) = (Crash c, y)"
  by (auto simp: runWith_run split: prod.splits)

lemma failScope_safe: "failScope action m e w \<noteq> (Crash c, w')"
  by (simp add: failScope_def handleMachineError_def recordEvent_def go_simps)

lemma entry_crash:
  assumes "answeringActuator a" and "wellMachine lib m"
    and "withScope lib a (failScope action) (\<lambda>s m. runWith s (seq (attempt op) (k m))) (m, w) = (Crash c, x)"
    and "\<And>y. safe (\<lambda>_. True) A (k m y)"
    and "\<And>api client tags project disks. google_api api tags \<Longrightarrow> imagesResolve lib (BasePath (computeService api)) project disks \<Longrightarrow>
      safe (scopeOk ((computeService api, client, tags), project, disks)) A op"
  shows "A c"
proof -
  obtain s w0 where scope: "newMachineScope lib (scopeParams a m) w = (Ok s, w0)"
    and run: "runWith s (seq (attempt op) (k m)) (m, w0) = (Crash c, x)"
    using assms(3) by (rule withScope_crash [OF assms(2) _ failScope_safe])
  obtain api where api: "google_api api (tagSvc s)" "computeSvc s = computeService api"
    "scopeOk ((computeService api, coreClient s, tagSvc s), projectID s, Disks (providerSpec s)) (s, w0)"
    "imagesResolve lib (BasePath (computeService api)) (projectID s) (Disks (providerSpec s))"
    using assms(1,2) scope by (rule scope_ok)
  obtain y where "seq (attempt op) (k m) (s, w0) = (Crash c, y)" using runWith_crash [OF run] ..
  then show ?thesis by (rule safe_run [OF assms(5) [OF api(1,4)] api(3) assms(4)])
qed

lemma Exists_not_Crash:
  assumes "answeringActuator a" and "wellMachine lib m"
  shows "Exists lib a (m, w) \<noteq> (Crash c, x)"
proof
  assume "Exists lib a (m, w) = (Crash c, x)"
  then obtain s w0 where scope: "newMachineScope lib (scopeParams a m) w = (Ok s, w0)"
    unfolding Exists_def by (rule withScope_crash [OF assms(2)]) (simp add: run_basic)
  obtain q s1 w1 where op: "exists (s, w0) = (q, (s1, w1))" by (metis prod.exhaust)
  obtain api where api: "google_api api (tagSvc s)"
    "scopeOk ((computeService api, coreClient s, tagSvc s), projectID s, Disks (providerSpec s)) (s, w0)"
    using assms scope by (rule scope_ok)
  have "q \<noteq> Crash c'" for c'
    using safeD [OF real_safe(4) [OF api(1), where A = "\<lambda>_. False"] api(2) op] by simp
  with \<open>Exists lib a (m, w) = (Crash c, x)\<close> op show False
    unfolding Exists_def withScope_run [OF scope]
    by (cases q; cases "Phase (m_Status m)")
      (auto simp: seq_run attempt_run returnResult_def run_basic runWith_run split: if_splits)
qed

text \<open>
  C7. Panics at the entry points of the actuator.  With the real compute service over a client that
  answers with a value or an error and lists A2 and A3 machine types with an accelerator
  (\<open>answeringActuator\<close>), and a provider spec that is not null, has a network interface,
  no null in its lists and image names that can be part of a URL, \<open>Update\<close>, \<open>Delete\<close> and \<open>Exists\<close>
  never panic, whatever the services answer.  \<open>Create\<close> can end the process in one way only: through
  \<open>log.Fatal\<close>, when the machine types of the zone cannot be listed.
\<close>

theorem actuator_panics:
  assumes "answeringActuator a" and "wellMachine lib m"
  shows "(\<forall>c x. Create lib a (m, w) = (Crash c, x) \<longrightarrow> (\<exists>e. c = LogFatal e)) \<and>
    (\<forall>c x. Update lib a (m, w) \<noteq> (Crash c, x)) \<and>
    (\<forall>c x. Delete lib a (m, w) \<noteq> (Crash c, x)) \<and>
    (\<forall>c x. Exists lib a (m, w) \<noteq> (Crash c, x))"
proof (intro conjI allI impI notI)
  fix c x assume "Create lib a (m, w) = (Crash c, x)"
  from this [unfolded Create_def] show "\<exists>e. c = LogFatal e"
    unfolding isLogFatal_def [symmetric] by (rule entry_crash [OF assms]) (rule safe_intros real_safe(1) | assumption)+
next
  fix c x assume "Update lib a (m, w) = (Crash c, x)"
  from this [unfolded Update_def] show False
    by (rule entry_crash [OF assms, where A = "\<lambda>_. False"]) (rule safe_intros real_safe(2) | assumption)+
next
  fix c x assume "Delete lib a (m, w) = (Crash c, x)"
  from this [unfolded Delete_def] show False
    by (rule entry_crash [OF assms, where A = "\<lambda>_. False"]) (rule safe_intros real_safe(3) | assumption)+
next
  fix c x assume "Exists lib a (m, w) = (Crash c, x)"
  with Exists_not_Crash [OF assms] show False by blast
qed

text \<open>
  The sample machine with an A2 type, over a client that answers everything but the listing of
  machine types.
\<close>

definition a2Lib :: golib where
  "a2Lib = sampleLib\<lparr>unmarshalSpec := (\<lambda>_. Inr (Some (sampleSpec\<lparr>ps_MachineType := ''a2-highgpu-1g''\<rparr>)))\<rparr>"

definition answeringSample :: "unit Actuator" where
  "answeringSample = NewActuator \<lparr>prm_CoreClient = sampleClient,
     prm_ComputeClientBuilder = (\<lambda>_. Inr (computeService answeringAPI)), prm_TagsClientBuilder = (\<lambda>_. Inr sampleTags)\<rparr>"

lemma answeringSample_ok: "answeringActuator answeringSample"
  using google_sample.google_api_axioms by (auto simp: answeringActuator_def answeringSample_def NewActuator_def)

lemma a2_ok: "wellMachine a2Lib sampleMachine"
  by (auto simp: wellMachine_def ProviderSpecFromRawExtension_def a2Lib_def wellSpec_def imagesResolve_def sample_defs)

theorem actuator_panics_witness:
  "(\<exists>e x. Create a2Lib answeringSample (sampleMachine, sampleWorld) = (Crash (LogFatal e), x)) \<and>
   (\<forall>c. fst (Update a2Lib answeringSample (sampleMachine, sampleWorld)) \<noteq> Crash c)"
proof -
  have "(case fst (Create a2Lib answeringSample (sampleMachine, sampleWorld)) of Crash _ \<Rightarrow> True | _ \<Rightarrow> False)"
    by code_simp
  then obtain c x where "Create a2Lib answeringSample (sampleMachine, sampleWorld) = (Crash c, x)"
    by (cases "Create a2Lib answeringSample (sampleMachine, sampleWorld)") (auto split: outcome.splits)
  with actuator_panics [OF answeringSample_ok a2_ok, of sampleWorld] show ?thesis by (metis prod.collapse)
qed

end
