(* ===== verification/Status_Invariant.thy ===== *)
theory Status_Invariant
  imports Actuator "HOL-Library.Sublist"
begin

text \<open>
  The provider status as a type with an invariant.  No two conditions have the same type, and
  the id and the state of the instance are known together: every operation keeps this, and
  every status that the actuator sends to the API server satisfies it if the one it was
  given did.
\<close>

section \<open>How a provider status may change\<close>

definition conditionTypes :: "GCPMachineProviderStatus \<Rightarrow> string list" where
  "conditionTypes st = map co_Type (Conditions st)"

definition wellStatus :: "GCPMachineProviderStatus \<Rightarrow> bool" where
  "wellStatus st \<longleftrightarrow> distinct (conditionTypes st) \<and> (InstanceID st = None \<longleftrightarrow> InstanceState st = None)"

definition evolves :: "GCPMachineProviderStatus \<Rightarrow> GCPMachineProviderStatus \<Rightarrow> bool" where
  "evolves st st' \<longleftrightarrow> (wellStatus st \<longrightarrow> wellStatus st') \<and> prefix (conditionTypes st) (conditionTypes st') \<and>
     (InstanceID st' = None \<longrightarrow> InstanceID st = None)"

lemma evolves_refl [simp]: "evolves st st"
  by (simp add: evolves_def)

lemma evolves_trans: "evolves a b \<Longrightarrow> evolves b c \<Longrightarrow> evolves a c"
  unfolding evolves_def by (auto intro: prefix_order.trans)

lemma reconcileConditions_types:
  "map co_Type (reconcileConditions now cs new) =
     (if co_Type new \<in> co_Type ` set cs then map co_Type cs else map co_Type cs @ [co_Type new])"
proof (cases "findCondition cs (co_Type new)")
  case None
  moreover from this have "co_Type new \<notin> co_Type ` set cs" by (simp add: findCondition_None_iff)
  ultimately show ?thesis by (simp add: reconcileConditions_def)
next
  case (Some i)
  from findCondition_Some [OF this] have i: "i < length cs" "co_Type (cs ! i) = co_Type new" by auto
  then have "co_Type new \<in> co_Type ` set cs" by (metis image_eqI nth_mem)
  moreover have "map co_Type (cs[i := c]) = map co_Type cs" if "co_Type c = co_Type new" for c
    using i that by (simp add: map_update list_update_same_conv)
  ultimately show ?thesis using i by (simp add: reconcileConditions_def Some Let_def)
qed

lemma evolves_conditions: "evolves st (st\<lparr>Conditions := reconcileConditions now (Conditions st) new\<rparr>)"
  by (auto simp: evolves_def wellStatus_def conditionTypes_def reconcileConditions_types)

lemma evolves_instance: "evolves st (st\<lparr>InstanceState := Some state, InstanceID := Some name\<rparr>)"
  by (simp add: evolves_def wellStatus_def conditionTypes_def)

section \<open>The operations of the reconciler\<close>

fun isPatch :: "call \<Rightarrow> bool" where
  "isPatch (CallPatch _ _) = True"
| "isPatch (CallStatusPatch _ _) = True"
| "isPatch c = False"

lemma readOnly_no_patch: "readOnly c \<Longrightarrow> \<not> isPatch c"
  by (cases c) simp_all

text \<open>
  The scope keeps what the reconciler must not touch, no patch is sent and the status evolves.
\<close>

definition reports :: "'w machineScope \<times> 'w world \<Rightarrow> 'w machineScope \<times> 'w world \<Rightarrow> bool" where
  "reports x y \<longleftrightarrow> scopeFrame (\<lambda>c. \<not> isPatch c) x y \<and> evolves (providerStatus (fst x)) (providerStatus (fst y))"

interpretation reporting: state_preorder reports
  by unfold_locales (auto simp: reports_def onScope_def intro: logGrows_refl logGrows_trans evolves_trans)

text \<open>A part that keeps the scope, one that keeps it but for the shielded options, one that reports.\<close>

lemma reports_kept: "obeys (onScope (\<lambda>s. s) (logGrows (\<lambda>c. \<not> isPatch c))) m \<Longrightarrow> obeys reports m"
  by (erule obeys_mono) (auto simp: reports_def onScope_def)

lemma reports_build: "obeys reports (buildInstance lib zone)"
proof (rule obeys_mono [OF build_buildInstance])
  fix x y :: "'a machineScope \<times> 'a world" assume "buildFrame x y"
  then have same: "sameButShielded (fst y) = sameButShielded (fst x)" and "callsOnly readOnly (snd x) (snd y)"
    by (simp_all add: onScope_def)
  then have "logGrows (\<lambda>c. \<not> isPatch c) (snd x) (snd y)"
    by (auto simp: callsOnly_def logGrows_def list_all_iff readOnly_no_patch)
  moreover have "providerStatus (fst y) = providerStatus (fst x)" using same by (elim sameButShieldedD) simp
  ultimately show "reports x y" using sameButShielded_fixed [OF same] by (simp add: reports_def onScope_def)
qed

lemma evolves_reported: "evolves (providerStatus s) (providerStatus (reportedScope now inst nic s))"
  using evolves_trans [OF evolves_instance [of "providerStatus s" "in_Name inst" "in_Status inst"]
      evolves_conditions [of _ now succeedCondition]]
  by (simp add: reportedScope_def)

lemma reports_reconcile: "obeys reports (reconcileMachineWithCloudState c)"
proof (rule obeysI)
  fix x r y assume eq: "reconcileMachineWithCloudState c x = (r, y)"
  obtain s w where x: "x = (s, w)" by force
  have "evolves (providerStatus s) (providerStatus (fst y))"
  proof (cases c)
    case None
    obtain q e where g: "InstancesGet (computeSvc s) (projectID s) (Zone (providerSpec s)) (m_Name (machine s)) (ext w) = (q, e)"
      by force
    show ?thesis
      using eq unfolding x None reconcile_run [OF g]
      by (auto simp: evolves_reported split: sum.splits option.splits list.splits)
  next
    case (Some cond)
    with eq x show ?thesis by (auto simp: reconcileMachineWithCloudState_def applyCondition_def go_simps evolves_conditions)
  qed
  moreover have "scopeFrame (\<lambda>c. \<not> isPatch c) x y" using obeysD [OF frame_reconcile eq] by simp
  ultimately show "reports x y" by (simp add: reports_def x)
qed

lemma reports_create: "obeys reports (create lib)"
  unfolding create_def insertInstance_def
  by (rule reporting.obeys_seq reporting.obeys_attempt reporting.obeys_case_sum reporting.obeys_raise reports_build
      reports_reconcile reports_kept | simp | (intro obeys_intros; simp))+

lemma reports_update: "obeys reports update"
  unfolding update_def
  by (rule reporting.obeys_seq reporting.obeys_if reporting.obeys_onErr reporting.obeys_ret reports_reconcile reports_kept
      | (intro obeys_intros; simp; fail))+

lemma reports_delete: "obeys reports delete"
  by (rule reports_kept, rule obeys_mono [OF delete_keeps])
    (auto simp: onScope_def elim!: logGrows_weaken elim: isDeletionCall.elims isPatch.elims)

lemma reports_exists: "obeys reports exists"
  unfolding exists_def existsError_def by (rule reports_kept) (intro obeys_intros; simp)

section \<open>What is sent\<close>

definition storedStatus :: "golib \<Rightarrow> Machine \<Rightarrow> error + GCPMachineProviderStatus" where
  "storedStatus lib m = ProviderStatusFromRawExtension lib (ProviderStatus (m_Status m))"

text \<open>
  What is relied on of the JSON codec: what it encodes can be decoded, with the types of the
  conditions and the id and state of the instance as they were.  (Times lose their fractions
  of seconds.)
\<close>

definition statusCodec :: "golib \<Rightarrow> bool" where
  "statusCodec lib \<longleftrightarrow> (\<forall>st raw. marshalStatus lib st = Inr raw \<longrightarrow> (\<exists>st'. unmarshalStatus lib raw = Inr st' \<and>
     conditionTypes st' = conditionTypes st \<and> InstanceID st' = InstanceID st \<and> InstanceState st' = InstanceState st))"

definition sentWell :: "golib \<Rightarrow> GCPMachineProviderStatus \<Rightarrow> call \<Rightarrow> bool" where
  "sentWell lib st c \<longleftrightarrow> (\<forall>m base. c = CallPatch m base \<or> c = CallStatusPatch m base \<longrightarrow>
     (\<exists>st'. storedStatus lib m = Inr st' \<and> evolves st st'))"

lemma sentWell_other: "\<not> isPatch c \<Longrightarrow> sentWell lib st c"
  by (auto simp: sentWell_def)

lemma codec_evolves:
  assumes "statusCodec lib" and "marshalStatus lib st1 = Inr raw" and "evolves st st1"
  shows "\<exists>st'. unmarshalStatus lib raw = Inr st' \<and> evolves st st'"
  using assms unfolding statusCodec_def by (fastforce simp: evolves_def wellStatus_def)

text \<open>The scope between an operation and the end: what is stored in its machine, what it will send.\<close>

definition pending :: "golib \<Rightarrow> GCPMachineProviderStatus \<Rightarrow> 'w machineScope \<Rightarrow> bool" where
  "pending lib st s \<longleftrightarrow> storedStatus lib (machine s) = Inr st \<and> evolves st (providerStatus s)"

lemma pending_reports: "pending lib st s \<Longrightarrow> reports (s, w) (s', w') \<Longrightarrow> pending lib st s'"
  using fixedScopeD(15) [of s' s] evolves_trans by (simp add: pending_def reports_def onScope_def storedStatus_def) blast

lemma PatchMachine_sends:
  assumes "storedStatus lib (machine s) = Inr st'" and "evolves st st'" and "PatchMachine (s, w) = (r, (s', w'))"
  shows "logGrows (sentWell lib st) w w'"
proof -
  have "sentWell lib st (CallPatch (machine s) b)" "sentWell lib st (CallStatusPatch (a\<lparr>m_Status := m_Status (machine s)\<rparr>) b)" for a b
    using assms(1,2) by (auto simp: sentWell_def storedStatus_def)
  with assms(3) show ?thesis
    by (auto simp: PatchMachine_def Let_def go_simps logGrows_def split: prod.splits sum.splits)
qed

lemma setMachineStatus_pending:
  assumes "statusCodec lib" and "pending lib st s" and "setMachineStatus lib (s, w) = (Ok (), (s', w'))"
  shows "w' = w \<and> (\<exists>st'. storedStatus lib (machine s') = Inr st' \<and> evolves st st')"
proof (cases "providerStatus s = origProviderStatus s \<and> Addresses (m_Status (machine s)) = Addresses (m_Status (origMachine s))")
  case True
  with assms(2,3) have "w' = w" "storedStatus lib (machine s') = Inr st" by (auto simp: setMachineStatus_run pending_def)
  then show ?thesis using evolves_refl by blast
next
  case False
  with assms(3) obtain raw where raw: "marshalStatus lib (providerStatus s) = Inr raw" "w' = w"
    "ProviderStatus (m_Status (machine s')) = Some raw"
    by (auto simp: setMachineStatus_run simp del: de_Morgan_conj split: sum.splits)
  obtain st' where "unmarshalStatus lib raw = Inr st'" "evolves st st'"
    using codec_evolves [OF assms(1) raw(1)] assms(2) by (auto simp: pending_def)
  with raw show ?thesis by (simp add: storedStatus_def ProviderStatusFromRawExtension_def)
qed

lemma setMachineSpec_stored:
  "setMachineSpec lib (s, w) = (r, (s', w')) \<Longrightarrow> w' = w \<and> storedStatus lib (machine s') = storedStatus lib (machine s)"
  by (auto simp: setMachineSpec_def go_simps RawExtensionFromProviderSpec_def storedStatus_def split: sum.splits)

lemma Close_sends:
  assumes "statusCodec lib" and "pending lib st s" and "Close lib (s, w) = (r, (s', w'))"
  shows "logGrows (sentWell lib st) w w'"
proof -
  obtain q s1 w1 where status: "setMachineStatus lib (s, w) = (q, (s1, w1))" by (metis prod.exhaust)
  obtain q2 s2 w2 where spec: "setMachineSpec lib (s1, w1) = (q2, (s2, w2))" by (metis prod.exhaust)
  obtain q3 s3 w3 where patch: "PatchMachine (s2, w2) = (q3, (s3, w3))" by (metis prod.exhaust)
  have w1: "w1 = w" using status by (auto simp: setMachineStatus_run split: if_splits sum.splits)
  have w2: "w2 = w1" using setMachineSpec_stored [OF spec] by simp
  have "setMachineSpec lib (s1, w) = (q2, (s2, w))" "PatchMachine (s2, w) = (q3, (s3, w3))" using spec patch w1 w2 by simp_all
  then have "w' = (if q = Ok () \<and> q2 = Ok () then w3 else w)"
    using assms(3) w1 by (auto simp: Close_def seq_run onErrS_run status split: outcome.splits)
  moreover have "logGrows (sentWell lib st) w w3" if "q = Ok ()"
    using setMachineStatus_pending [OF assms(1,2) status [unfolded that]] setMachineSpec_stored [OF spec]
      PatchMachine_sends [OF _ _ patch] by metis
  ultimately show ?thesis by (simp add: logGrows_refl)
qed

lemma scope_sends: "obeys (logGrows (sentWell lib st)) (newMachineScope lib params)"
  unfolding newMachineScope_def Let_def by (intro obeys_intros; simp add: sentWell_other)

lemma failure_sends: "obeys (logGrows P) (handleMachineError m err action)"
  unfolding handleMachineError_def by (intro obeys_intros)

text \<open>A scope after an operation of the reconciler has run in it.\<close>

lemma operation_sends:
  assumes "storedStatus lib m = Inr st" and "newMachineScope lib (scopeParams a m) w = (Ok s, w0)"
    and "obeys reports op" and "op (s, w0) = (r, (s1, w1))"
  shows "pending lib st s1 \<and> logGrows (sentWell lib st) w w1"
proof -
  have "reports (s, w0) (s1, w1)" using obeysD [OF assms(3,4)] .
  moreover have "machine s = m" using newMachineScope_machine(1) [OF assms(2)] by (simp add: scopeParams_def)
  moreover have "storedStatus lib m = Inr (providerStatus s)"
    using assms(2) by (auto simp: scopeParams_def storedStatus_def newMachineScope_def Let_def run_Ok split: if_splits)
  ultimately have "pending lib st s1" using assms(1) evolves_refl pending_reports [of lib st s w0 s1 w1] by (simp add: pending_def)
  moreover have "logGrows (sentWell lib st) w0 w1"
    using \<open>reports _ _\<close> by (auto simp: reports_def onScope_def intro: logGrows_weaken sentWell_other)
  ultimately show ?thesis using obeysD [OF scope_sends assms(2)] logGrows_trans by blast
qed

lemma withScope_sends:
  assumes "storedStatus lib m = Inr st" and "withScope lib a fail body (m, w) = (r, (m', w'))"
    and "\<And>err. obeys (logGrows (sentWell lib st)) (fail m err)"
    and "\<And>s w0. newMachineScope lib (scopeParams a m) w = (Ok s, w0) \<Longrightarrow> body s m (m, w0) = (r, (m', w')) \<Longrightarrow>
      logGrows (sentWell lib st) w w'"
  shows "logGrows (sentWell lib st) w w'"
proof -
  obtain q w1 where scope: "newMachineScope lib (scopeParams a m) w = (q, w1)" by force
  note log = obeysD [OF scope_sends [of lib st] scope]
  show ?thesis
  proof (cases q)
    case (Err e)
    with assms(2) scope have "fail m e w1 = (r, w')" by (auto simp: withScope_def split: prod.splits)
    from obeysD [OF assms(3) this] log show ?thesis by (blast intro: logGrows_trans)
  qed (use assms(2,4) scope log in \<open>auto simp: withScope_def\<close>)
qed

text \<open>What follows the operation in an entry point.\<close>

definition sends :: "golib \<Rightarrow> GCPMachineProviderStatus \<Rightarrow> ('w, 'a) rec \<Rightarrow> bool" where
  "sends lib st k \<longleftrightarrow> (\<forall>s w r s' w'. pending lib st s \<longrightarrow> k (s, w) = (r, (s', w')) \<longrightarrow> logGrows (sentWell lib st) w w')"

lemma sends_Close: "statusCodec lib \<Longrightarrow> sends lib st (Close lib)"
  unfolding sends_def using Close_sends by blast

lemma sends_onSnd: "obeys (logGrows (sentWell lib st)) m \<Longrightarrow> sends lib st (onSnd m)"
  by (auto simp: sends_def onSnd_def dest: obeysD split: prod.splits)

lemma sends_seq_kept:
  assumes "obeys (onScope (\<lambda>s. s) (logGrows (sentWell lib st))) m" and "\<And>x. sends lib st (k x)"
  shows "sends lib st (seq m k)"
  unfolding sends_def
proof (intro allI impI)
  fix s w r s' w' assume pend: "pending lib st s" and run: "seq m k (s, w) = (r, (s', w'))"
  obtain q s1 w1 where m: "m (s, w) = (q, (s1, w1))" by (metis prod.exhaust)
  then have log: "s1 = s" "logGrows (sentWell lib st) w w1" using obeysD [OF assms(1)] by (fastforce simp: onScope_def)+
  show "logGrows (sentWell lib st) w w'"
  proof (cases q)
    case (Ok x)
    with run m have "k x (s1, w1) = (r, (s', w'))" by (simp add: seq_run)
    with assms(2) pend log show ?thesis unfolding sends_def by (metis logGrows_trans)
  qed (use run m log in \<open>auto simp: seq_run\<close>)
qed

lemma sends_seq_last:
  assumes "sends lib st m" and "\<And>x. obeys (onScope (\<lambda>_. ()) (logGrows (sentWell lib st))) (k x)"
  shows "sends lib st (seq m k)"
  unfolding sends_def
proof (intro allI impI)
  fix s w r s' w' assume pend: "pending lib st s" and run: "seq m k (s, w) = (r, (s', w'))"
  obtain q s1 w1 where m: "m (s, w) = (q, (s1, w1))" by (metis prod.exhaust)
  then have log: "logGrows (sentWell lib st) w w1" using assms(1) pend unfolding sends_def by blast
  show "logGrows (sentWell lib st) w w'"
  proof (cases q)
    case (Ok x)
    with run m have "k x (s1, w1) = (r, (s', w'))" by (simp add: seq_run)
    from obeysD [OF assms(2) this] log show ?thesis by (auto simp: onScope_def intro: logGrows_trans)
  qed (use run m log in \<open>auto simp: seq_run\<close>)
qed

lemma sends_attempt: "sends lib st m \<Longrightarrow> sends lib st (attempt m)"
  by (fastforce simp: sends_def attempt_run split: prod.splits outcome.splits)

lemma entry_sends:
  assumes "storedStatus lib m = Inr st" and "newMachineScope lib (scopeParams a m) w = (Ok s, w0)"
    and "obeys reports op" and "\<And>res. sends lib st (k res)"
    and "runWith s (seq (attempt op) k) (m, w0) = (r, (m', w'))"
  shows "logGrows (sentWell lib st) w w'"
proof -
  obtain q s1 w1 where op: "op (s, w0) = (q, (s1, w1))" by (metis prod.exhaust)
  note after = operation_sends [OF assms(1,2,3) op]
  show ?thesis
  proof (cases "\<exists>c. q = Crash c")
    case True
    with op assms(5) after show ?thesis by (auto simp: runWith_run seq_run attempt_run)
  next
    case False
    then obtain res where "attempt op (s, w0) = (Ok res, (s1, w1))" using op by (cases q) (auto simp: attempt_run)
    with assms(5) obtain s2 where "k res (s1, w1) = (r, (s2, w'))" by (auto simp: runWith_run seq_run split: prod.splits)
    with assms(4) after show ?thesis unfolding sends_def by (metis logGrows_trans)
  qed
qed

section \<open>The entry points\<close>

interpretation logged: scope_log "logGrows P" P "\<lambda>_. ()"
  by unfold_locales (simp add: logGrows_def)

lemma logged_failReconciler: "obeys (onScope (\<lambda>_. ()) (logGrows P)) (failReconciler action m err)"
  unfolding failReconciler_def by (intro logged.obeys_onScope failure_sends)

lemma logged_normalEvent: "obeys (logGrows P) (normalEvent m reason msg)"
  unfolding normalEvent_def by (intro obeys_intros)

lemma Create_sends:
  assumes "statusCodec lib" and "storedStatus lib m = Inr st" and "Create lib a (m, w) = (r, (m', w'))"
  shows "logGrows (sentWell lib st) w w'"
proof (rule withScope_sends [OF assms(2) assms(3) [unfolded Create_def]])
  fix s w0 assume scope: "newMachineScope lib (scopeParams a m) w = (Ok s, w0)"
    and run: "runWith s (seq (attempt (create lib)) (\<lambda>res.
        case res of Inl err \<Rightarrow> seq (attempt (Close lib)) (\<lambda>_. failReconciler createEventAction m err)
        | Inr _ \<Rightarrow> seq (onSnd (normalEvent m createEventAction (''Created Machine '' @ m_Name m))) (\<lambda>_. Close lib))) (m, w0) = (r, m', w')"
  show "logGrows (sentWell lib st) w w'"
    by (rule entry_sends [OF assms(2) scope reports_create _ run])
      (auto intro!: sends_seq_last [OF sends_attempt [OF sends_Close [OF assms(1)]] logged_failReconciler]
        sends_seq_kept [OF kept.obeys_onScope [OF logged_normalEvent] sends_Close [OF assms(1)]] split: sum.split)
qed (simp add: failScope_def failure_sends)

lemma Update_sends:
  assumes "statusCodec lib" and "storedStatus lib m = Inr st" and "Update lib a (m, w) = (r, (m', w'))"
  shows "logGrows (sentWell lib st) w w'"
proof (rule withScope_sends [OF assms(2) assms(3) [unfolded Update_def]])
  let ?k = "\<lambda>res. case res of
      Inl err \<Rightarrow> seq (attempt (Close lib)) (\<lambda>_. failReconciler updateEventAction m err)
    | Inr u \<Rightarrow>
        seq (getScope (\<lambda>s. ResourceVersion (machine s))) (\<lambda>previousResourceVersion.
        seq (Close lib) (\<lambda>_.
        seq (getScope (\<lambda>s. ResourceVersion (machine s))) (\<lambda>currentResourceVersion.
        if previousResourceVersion \<noteq> currentResourceVersion
        then onSnd (normalEvent m updateEventAction (''Updated Machine '' @ m_Name m))
        else ret ())))"
  fix s w0 assume scope: "newMachineScope lib (scopeParams a m) w = (Ok s, w0)"
    and run: "runWith s (seq (attempt update) ?k) (m, w0) = (r, m', w')"
  show "logGrows (sentWell lib st) w w'"
    by (rule entry_sends [OF assms(2) scope reports_update _ run])
      (auto intro!: sends_seq_kept [OF kept.obeys_getScope] sends_seq_last sends_attempt sends_Close assms(1)
        logged_failReconciler logged.scope.obeys_seq logged.obeys_getScope logged.obeys_onScope logged_normalEvent split: sum.split)
qed (simp add: failScope_def failure_sends)

lemma Delete_sends:
  assumes "storedStatus lib m = Inr st" and "Delete lib a (m, w) = (r, (m', w'))"
  shows "logGrows (sentWell lib st) w w'"
proof (rule withScope_sends [OF assms(1) assms(2) [unfolded Delete_def]])
  let ?k = "\<lambda>res. case res of Inl err \<Rightarrow> failReconciler deleteEventAction m err
    | Inr u \<Rightarrow> onSnd (normalEvent m deleteEventAction (''Deleted machine '' @ m_Name m))"
  fix s w0 assume scope: "newMachineScope lib (scopeParams a m) w = (Ok s, w0)"
    and run: "runWith s (seq (attempt delete) ?k) (m, w0) = (r, m', w')"
  show "logGrows (sentWell lib st) w w'"
    by (rule entry_sends [OF assms(1) scope reports_delete _ run])
      (auto intro!: sends_onSnd failure_sends logged_normalEvent simp: failReconciler_def split: sum.split)
qed (simp add: failScope_def failure_sends)

lemma Exists_sends:
  assumes "storedStatus lib m = Inr st" and "Exists lib a (m, w) = (r, (m', w'))"
  shows "logGrows (sentWell lib st) w w'"
proof (rule withScope_sends [OF assms(1) assms(2) [unfolded Exists_def]])
  fix s w0 assume scope: "newMachineScope lib (scopeParams a m) w = (Ok s, w0)"
  obtain q s1 w1 where ex: "exists (s, w0) = (q, (s1, w1))" by (metis prod.exhaust)
  assume "seq (attempt (runWith s exists)) (\<lambda>res.
      if \<not> isInvalidMachineConfigurationError (case res of Inl e \<Rightarrow> Some e | Inr _ \<Rightarrow> None) then returnResult res
      else seq (modify (\<lambda>(m, w). (if Phase (m_Status m) = None then m\<lparr>m_Status := (m_Status m)\<lparr>Phase := Some ''Failed''\<rparr>\<rparr> else m, w))) (\<lambda>_.
        seq (gets fst) (\<lambda>m. seq (deref (Phase (m_Status m))) (\<lambda>phase.
        if phase = ''Deleting'' \<and> ProviderID m = None then ret False else returnResult res)))) (m, w0) = (r, m', w')"
  then have "w' = w1"
    by (auto simp: seq_run attempt_run runWith_run ex run_basic returnResult_def
        split: outcome.splits if_splits sum.splits option.splits prod.splits)
  with operation_sends [OF assms(1) scope reports_exists ex] show "logGrows (sentWell lib st) w w'" by simp
qed simp

section \<open>Properties\<close>

text \<open>
  C8. The provider status as the API server gets to see it.  Whatever the cloud and the API server
  answer, and whether the entry point succeeds, fails or panics: every patch it sends carries
  a provider status that can be decoded, in which no two conditions have the same type and
  the instance's id and state are both set or both unset, if that held of the status it was
  given.  The types of the given conditions come first and in order, and an instance id is
  never withdrawn.
\<close>

theorem status_well_formed:
  assumes "statusCodec lib" and "storedStatus lib m = Inr st"
    and "Create lib a (m, w) = (r, (m', w')) \<or> Update lib a (m, w) = (r, (m', w')) \<or> Delete lib a (m, w) = (r, (m', w')) \<or>
      (\<exists>b. Exists lib a (m, w) = (b, (m', w')))"
  shows "\<exists>cs. calls w' = calls w @ cs \<and>
    (\<forall>sent base. CallPatch sent base \<in> set cs \<or> CallStatusPatch sent base \<in> set cs \<longrightarrow>
      (\<exists>st'. storedStatus lib sent = Inr st' \<and> (wellStatus st \<longrightarrow> wellStatus st') \<and>
         prefix (conditionTypes st) (conditionTypes st') \<and> (InstanceID st' = None \<longrightarrow> InstanceID st = None)))"
proof -
  have "logGrows (sentWell lib st) w w'"
    using assms(3) Create_sends [OF assms(1,2)] Update_sends [OF assms(1,2)] Delete_sends [OF assms(2)] Exists_sends [OF assms(2)]
    by blast
  then show ?thesis unfolding logGrows_def list_all_iff sentWell_def evolves_def by blast
qed

text \<open>A codec with the required property, which keeps the types, the id and the state.\<close>

fun encodeString :: "string \<Rightarrow> string" where
  "encodeString [] = ''.''"
| "encodeString (c # cs) = CHR ''+'' # c # encodeString cs"

fun decodeString :: "string \<Rightarrow> string \<times> string" where
  "decodeString (a # b # cs) = (if a = CHR ''+'' then apfst (Cons b) (decodeString cs) else ([], b # cs))"
| "decodeString [a] = ([], [])"
| "decodeString [] = ([], [])"

fun encodeOption :: "string ptr \<Rightarrow> string" where
  "encodeOption None = ''-''"
| "encodeOption (Some s) = CHR ''+'' # encodeString s"

definition decodeOption :: "string \<Rightarrow> string ptr \<times> string" where
  "decodeOption raw = (if hd raw = CHR ''+'' then apfst Some (decodeString (tl raw)) else (None, tl raw))"

fun decodeMany :: "nat \<Rightarrow> string \<Rightarrow> string list" where
  "decodeMany 0 raw = []"
| "decodeMany (Suc n) raw = fst (decodeString raw) # decodeMany n (snd (decodeString raw))"

definition encodeTypes :: "string list \<Rightarrow> string" where
  "encodeTypes ts = replicate (length ts) CHR ''|'' @ ''.'' @ concat (map encodeString ts)"

definition decodeTypes :: "string \<Rightarrow> string list" where
  "decodeTypes raw = decodeMany (length (takeWhile (\<lambda>c. c = CHR ''|'') raw)) (tl (dropWhile (\<lambda>c. c = CHR ''|'') raw))"

definition typedCondition :: "string \<Rightarrow> Condition" where
  "typedCondition t = \<lparr>co_Type = t, co_Status = [], co_ObservedGeneration = 0, co_LastTransitionTime = 0, co_Reason = [], co_Message = []\<rparr>"

definition encodeStatus :: "GCPMachineProviderStatus \<Rightarrow> string" where
  "encodeStatus st = encodeOption (InstanceID st) @ encodeOption (InstanceState st) @ encodeTypes (conditionTypes st)"

definition decodeStatus :: "string \<Rightarrow> GCPMachineProviderStatus" where
  "decodeStatus raw = (let (i, raw1) = decodeOption raw; (state, raw2) = decodeOption raw1 in
     \<lparr>pst_Meta = [], InstanceID = i, InstanceState = state, Conditions = map typedCondition (decodeTypes raw2)\<rparr>)"

definition codecLib :: golib where
  "codecLib = sampleLib\<lparr>marshalStatus := (\<lambda>st. Inr (encodeStatus st)), unmarshalStatus := (\<lambda>raw. Inr (decodeStatus raw))\<rparr>"

lemma decode_string [simp]: "raw \<noteq> [] \<Longrightarrow> decodeString (encodeString s @ raw) = (s, raw)" "decodeString (encodeString s) = (s, [])"
  by (induction s) (auto simp: neq_Nil_conv)

lemma decode_option [simp]: "raw \<noteq> [] \<Longrightarrow> decodeOption (encodeOption p @ raw) = (p, raw)"
  by (cases p) (simp_all add: decodeOption_def)

lemma decode_many: "decodeMany (length ts) (concat (map encodeString ts)) = ts"
proof (induction ts)
  case (Cons t ts)
  have "encodeString s \<noteq> []" for s by (cases s) simp_all
  with Cons show ?case by (cases ts) simp_all
qed simp

lemma decode_types [simp]: "decodeTypes (encodeTypes ts) = ts"
proof -
  have "takeWhile (\<lambda>c. c = CHR ''|'') (replicate n (CHR ''|'') @ CHR ''.'' # raw) = replicate n (CHR ''|'')"
    "dropWhile (\<lambda>c. c = CHR ''|'') (replicate n (CHR ''|'') @ CHR ''.'' # raw) = CHR ''.'' # raw" for n raw
    by (induction n) simp_all
  then show ?thesis by (simp add: decodeTypes_def encodeTypes_def decode_many)
qed

lemma codecLib_codec: "statusCodec codecLib"
proof -
  have "encodeTypes ts \<noteq> []" "encodeOption p @ raw \<noteq> []" for ts p raw by (cases p; simp add: encodeTypes_def)+
  then have "decodeStatus (encodeStatus st) = \<lparr>pst_Meta = [], InstanceID = InstanceID st, InstanceState = InstanceState st,
      Conditions = map typedCondition (conditionTypes st)\<rparr>" for st
    by (simp add: decodeStatus_def encodeStatus_def)
  then show ?thesis by (simp add: statusCodec_def codecLib_def conditionTypes_def typedCondition_def comp_def)
qed


fun isStatusPatch :: "call \<Rightarrow> bool" where
  "isStatusPatch (CallStatusPatch _ _) = True"
| "isStatusPatch c = False"

lemma codec_update: "list_ex isStatusPatch (calls (snd (snd (Update codecLib sampleActuator (sampleMachine, sampleWorld)))))"
  by code_simp

theorem status_well_formed_witness:
  "\<exists>sent base st. CallStatusPatch sent base \<in> set (calls (snd (snd (Update codecLib sampleActuator (sampleMachine, sampleWorld))))) \<and>
     storedStatus codecLib sent = Inr st \<and> wellStatus st"
proof -
  obtain r m' w' where run: "Update codecLib sampleActuator (sampleMachine, sampleWorld) = (r, (m', w'))" by (metis prod.exhaust)
  have stored: "storedStatus codecLib sampleMachine = Inr zeroProviderStatus"
    by (simp add: storedStatus_def sampleMachine_def ProviderStatusFromRawExtension_def)
  have well: "wellStatus zeroProviderStatus" by (simp add: wellStatus_def conditionTypes_def zeroProviderStatus_def)
  from codec_update run obtain c where "c \<in> set (calls w')" "isStatusPatch c" by (auto simp: list_ex_iff)
  then obtain sent base where sent: "CallStatusPatch sent base \<in> set (calls w')" by (metis isStatusPatch.elims(2))
  moreover have "calls (sampleWorld :: unit world) = []" by (simp add: sampleWorld_def)
  ultimately obtain st where "storedStatus codecLib sent = Inr st" "wellStatus st"
    using status_well_formed [OF codecLib_codec stored disjI2 [OF disjI1 [OF run]]] well by auto
  with sent show ?thesis unfolding run by auto
qed

end
