(* ===== verification/Deletion_Liveness.thy ===== *)
theory Deletion_Liveness
  imports Cloud_Lifecycle
begin

text \<open>
  Deleting an instance is an operation that goes on in the cloud after the reply, so \<open>delete\<close>
  asks to be called again until the instance is gone.  Here: it is called only finitely often.
\<close>

section \<open>A cloud that gets on with a deletion\<close>

text \<open>
  What is relied on: a lookup finds the instance as long as something is left to do and answers
  404 afterwards, a delete is accepted, and every delete brings the cloud closer to the end.
\<close>

definition progressing :: "'w GCPComputeService \<Rightarrow> instanceKey \<Rightarrow> ('w \<Rightarrow> nat) \<Rightarrow> bool" where
  "progressing svc key left \<longleftrightarrow> (case key of (p, z, n) \<Rightarrow> \<forall>e uid.
     (0 < left e \<longrightarrow> (\<exists>x e'. InstancesGet svc p z n e = (Inr x, e') \<and> left e' = left e) \<and>
        (\<exists>op e'. InstancesDelete svc uid p z n e = (Inr op, e') \<and> left e' < left e)) \<and>
     (left e = 0 \<longrightarrow> (\<exists>err e'. InstancesGet svc p z n e = (Inl err, e') \<and> isNotFoundError (Some err) \<and>
        \<not> isProjectNotFoundError err p)))"

text \<open>The requests about target pools and instance groups are answered and have nothing to do with it.\<close>

definition sideCalls :: "'w GCPComputeService \<Rightarrow> ('w \<Rightarrow> nat) \<Rightarrow> bool" where
  "sideCalls svc left \<longleftrightarrow> (\<forall>p r n l st e.
     (\<exists>x e'. TargetPoolsGet svc p r n e = (Inr (Some x), e') \<and> left e' = left e) \<and>
     (\<exists>x e'. TargetPoolsRemoveInstance svc p r n l e = (Inr x, e') \<and> left e' = left e) \<and>
     (\<exists>x e'. InstanceGroupsListInstances svc p r n st e = (Inr (Some x), e') \<and> left e' = left e) \<and>
     (\<exists>x e'. InstanceGroupsRemoveInstances svc p r l n e = (Inr x, e') \<and> left e' = left e))"

section \<open>Stages that succeed\<close>

text \<open>An operation that succeeds in a scope from every world, keeps the scope and what is left to do.\<close>

definition succeeds :: "('w \<Rightarrow> nat) \<Rightarrow> 'w machineScope \<Rightarrow> ('w, 'a) rec \<Rightarrow> bool" where
  "succeeds left s m \<longleftrightarrow> (\<forall>w. \<exists>x w'. m (s, w) = (Ok x, (s, w')) \<and> left (ext w') = left (ext w))"

lemma succeedsI: "(\<And>w. \<exists>x w'. m (s, w) = (Ok x, (s, w')) \<and> left (ext w') = left (ext w)) \<Longrightarrow> succeeds left s m"
  by (simp add: succeeds_def)

lemma succeedsE:
  assumes "succeeds left s m"
  obtains x w' where "m (s, w) = (Ok x, (s, w'))" and "left (ext w') = left (ext w)"
  using assms unfolding succeeds_def by blast

lemma succeeds_ret: "succeeds left s (ret x)"
  by (simp add: succeeds_def run_basic)

lemma succeeds_scope: "succeeds left s (k (f s)) \<Longrightarrow> succeeds left s (seq (getScope f) k)"
  by (simp add: succeeds_def go_simps)

lemma succeeds_seq:
  assumes "succeeds left s m" and "\<And>x. succeeds left s (k x)"
  shows "succeeds left s (seq m k)"
proof (rule succeedsI)
  fix w
  obtain x w1 where m: "m (s, w) = (Ok x, (s, w1))" "left (ext w1) = left (ext w)" using assms(1) by (rule succeedsE)
  obtain y w2 where "k x (s, w1) = (Ok y, (s, w2))" "left (ext w2) = left (ext w1)" using assms(2) by (rule succeedsE)
  with m show "\<exists>y w2. seq m k (s, w) = (Ok y, (s, w2)) \<and> left (ext w2) = left (ext w)" by (simp add: seq_run)
qed

lemma succeeds_onErr: "succeeds left s m \<Longrightarrow> succeeds left s (onErr f m)"
proof (rule succeedsI)
  fix w assume "succeeds left s m"
  then show "\<exists>x w'. onErr f m (s, w) = (Ok x, (s, w')) \<and> left (ext w') = left (ext w)"
    by (rule succeedsE [where w = w]) (simp add: onErr_run)
qed

lemma succeeds_orMetric: "succeeds left s m \<Longrightarrow> succeeds left s (orMetric x f m)"
proof (rule succeedsI)
  fix w assume "succeeds left s m"
  then show "\<exists>y w'. orMetric x f m (s, w) = (Ok y, (s, w')) \<and> left (ext w') = left (ext w)"
    by (rule succeedsE [where w = w]) (simp add: orMetric_def seq_run attempt_run run_basic)
qed

lemma succeeds_invoke:
  fixes s :: "'w machineScope"
  assumes "\<And>e. \<exists>x e'. f e = (Inr x, e') \<and> left e' = left e"
  shows "succeeds left s (onSnd (invoke c f))"
proof (rule succeedsI)
  fix w :: "'w world"
  obtain x e' where "f (ext w) = (Inr x, e')" "left e' = left (ext w)" using assms by blast
  then show "\<exists>x w'. onSnd (invoke c f) (s, w) = (Ok x, (s, w')) \<and> left (ext w') = left (ext w)"
    by (simp add: onSnd_run invoke_def)
qed

lemma succeeds_answer:
  fixes s :: "'w machineScope"
  assumes "\<And>e. \<exists>x e'. f e = (Inr (Some x), e') \<and> left e' = left e" and "\<And>x. succeeds left s (k x)"
  shows "succeeds left s (seq (onErr g (onSnd (invoke c f))) (\<lambda>p. seq (deref p) k))"
proof (rule succeedsI)
  fix w :: "'w world"
  obtain x e where f: "f (ext w) = (Inr (Some x), e)" "left e = left (ext w)" using assms(1) by blast
  obtain y v where "k x (s, w\<lparr>ext := e, calls := calls w @ [c]\<rparr>) = (Ok y, (s, v))"
    "left (ext v) = left (ext (w\<lparr>ext := e, calls := calls w @ [c]\<rparr>))"
    using assms(2) by (rule succeedsE)
  with f show "\<exists>y v. seq (onErr g (onSnd (invoke c f))) (\<lambda>p. seq (deref p) k) (s, w) = (Ok y, (s, v)) \<and> left (ext v) = left (ext w)"
    by (simp add: seq_run onErr_run onSnd_run invoke_def run_basic)
qed

lemma succeeds_foldG: "(\<And>a x. succeeds left s (body a x)) \<Longrightarrow> succeeds left s (foldG body acc xs)"
  by (induction xs arbitrary: acc) (simp_all add: succeeds_ret succeeds_seq)

lemma succeeds_pools:
  assumes "sideCalls (computeSvc s) left"
  shows "succeeds left s (processTargetPools False deleteInstanceFromTargetPool)"
proof -
  have "succeeds left s (instanceExistsInPool l pool)" for l pool
    unfolding instanceExistsInPool_def
    by (intro succeeds_scope succeeds_answer succeeds_ret) (use assms in \<open>simp add: sideCalls_def\<close>)
  moreover have "succeeds left s (deleteInstanceFromTargetPool l pool)" for l pool
    unfolding deleteInstanceFromTargetPool_def Let_def
    by (intro succeeds_scope succeeds_seq succeeds_orMetric succeeds_invoke succeeds_ret) (use assms in \<open>simp add: sideCalls_def\<close>)
  ultimately have "succeeds left s (processPool False deleteInstanceFromTargetPool l pool)" for l pool
    unfolding processPool_def by (intro succeeds_seq) (simp_all add: succeeds_ret)
  then show ?thesis unfolding processTargetPools_def forEach_def by (intro succeeds_scope succeeds_foldG)
qed

lemma succeeds_unregister:
  assumes "sideCalls (computeSvc s) left"
  shows "succeeds left s unregisterInstanceFromControlPlaneInstanceGroup"
proof -
  have "succeeds left s (fetchRunningInstancesInInstanceGroup p z g)" for p z g
    unfolding fetchRunningInstancesInInstanceGroup_def
    by (intro succeeds_scope succeeds_answer succeeds_ret) (use assms in \<open>simp add: sideCalls_def\<close>)
  moreover have "succeeds left s (onSnd (invoke c (InstanceGroupsRemoveInstances (computeSvc s) p z l n)))" for c p z l n
    by (rule succeeds_invoke) (use assms in \<open>simp add: sideCalls_def\<close>)
  ultimately show ?thesis
    unfolding unregisterInstanceFromControlPlaneInstanceGroup_def Let_def
    by (intro succeeds_scope succeeds_seq succeeds_onErr) (auto intro!: succeeds_seq succeeds_onErr succeeds_ret)
qed

section \<open>One call of delete\<close>

lemma delete_gone:
  assumes "progressing (computeSvc s) (ownKey s) left" and "sideCalls (computeSvc s) left"
    and "validateMachine (machine s) (providerSpec s) = None" and "left (ext w) = 0"
  shows "\<exists>w'. delete (s, w) = (Ok (), (s, w'))"
proof -
  obtain v where pools: "processTargetPools False deleteInstanceFromTargetPool (s, w) = (Ok (), (s, v))" and v: "left (ext v) = 0"
    using succeedsE [OF succeeds_pools [OF assms(2)], of w] assms(4) by auto
  obtain err e where q: "InstancesGet (computeSvc s) (projectID s) (Zone (providerSpec s)) (m_Name (machine s)) (ext v) = (Inl err, e)"
    and err: "isNotFoundError (Some err)" "\<not> isProjectNotFoundError err (projectID s)"
    using assms(1) v unfolding progressing_def ownKey_def by simp blast
  with assms(3) err show ?thesis by (simp add: delete_tail [OF pools q] saysAbsent_def)
qed

lemma deleteExisting_progresses:
  assumes "progressing (computeSvc s) (ownKey s) left" and "sideCalls (computeSvc s) left" and "0 < left (ext w)"
  shows "\<exists>w'. deleteExisting (s, w) = (Err (RequeueAfterError 20), (s, w')) \<and> left (ext w') < left (ext w)"
proof -
  let ?unreg = "if isMaster (machine s)
    then onErr (errorfV (m_Name (machine s) @ '': failed to unregister instance from instance group: ''))
           unregisterInstanceFromControlPlaneInstanceGroup
    else ret ()"
  have "succeeds left s ?unreg" by (simp add: succeeds_ret succeeds_onErr succeeds_unregister [OF assms(2)])
  then obtain v where v: "?unreg (s, w) = (Ok (), (s, v))" "left (ext v) = left (ext w)" by (rule succeedsE) auto
  obtain op e where d: "InstancesDelete (computeSvc s) (m_UID (machine s)) (projectID s) (Zone (providerSpec s)) (m_Name (machine s)) (ext v) =
      (Inr op, e)" and e: "left e < left (ext v)"
    using assms(1,3) unfolding progressing_def ownKey_def prod.case v(2) [symmetric] by blast
  have "deleteInstance (s, v) = (Err (RequeueAfterError 20), (s, v\<lparr>ext := e, calls := calls v @
      [CallInstancesDelete (m_UID (machine s)) (projectID s) (Zone (providerSpec s)) (m_Name (machine s))]\<rparr>))"
    using d by (simp add: deleteInstance_def orMetric_def Let_def go_simps requeueAfterSeconds_def)
  with v e show ?thesis unfolding deleteExisting_def by (simp add: seq_run scope_run)
qed

lemma delete_progresses:
  assumes "progressing (computeSvc s) (ownKey s) left" and "sideCalls (computeSvc s) left"
    and "validateMachine (machine s) (providerSpec s) = None" and "0 < left (ext w)"
  shows "\<exists>w'. delete (s, w) = (Err (RequeueAfterError 20), (s, w')) \<and> left (ext w') < left (ext w)"
proof -
  obtain v where pools: "processTargetPools False deleteInstanceFromTargetPool (s, w) = (Ok (), (s, v))"
    and v: "left (ext v) = left (ext w)"
    using succeedsE [OF succeeds_pools [OF assms(2)], of w] by auto
  obtain x e where q: "InstancesGet (computeSvc s) (projectID s) (Zone (providerSpec s)) (m_Name (machine s)) (ext v) = (Inr x, e)"
    and e: "left e = left (ext v)"
    using assms(1,4) unfolding progressing_def ownKey_def v [symmetric] by simp blast
  let ?v = "v\<lparr>ext := e, calls := calls v @ [CallInstancesGet (projectID s) (Zone (providerSpec s)) (m_Name (machine s))]\<rparr>"
  have "delete (s, w) = deleteExisting (s, ?v)" using assms(3) by (simp add: delete_tail [OF pools q])
  moreover have "left (ext ?v) = left (ext w)" using e v by simp
  ultimately show ?thesis using deleteExisting_progresses [OF assms(1,2), of ?v] assms(4) by simp
qed

section \<open>Properties\<close>

text \<open>
  C9. Deletion finishes.  Against a cloud that answers (\<open>sideCalls\<close>), accepts a delete of an instance a lookup
  finds and gets on with the deletion at every such call (\<open>progressing\<close>), repeated calls of
  \<open>delete\<close> for a machine with a valid provider spec, master or worker, in whatever target pools, end with
  success after at most as many calls as the cloud has rounds to go, and each call before that
  asks to be repeated after 20 seconds: none fails, none is the last without the instance
  being gone.
\<close>

theorem deletion_finishes:
  assumes "progressing (computeSvc s) (ownKey s) left" and "sideCalls (computeSvc s) left"
    and "validateMachine (machine s) (providerSpec s) = None"
  shows "\<exists>k \<le> left (ext w). \<exists>w'. ((snd \<circ> delete) ^^ k) (s, w) = (s, w') \<and> left (ext w') = 0 \<and>
    fst (delete (s, w')) = Ok () \<and>
    (\<forall>i < k. fst (delete (((snd \<circ> delete) ^^ i) (s, w))) = Err (RequeueAfterError 20))"
proof (induction "left (ext w)" arbitrary: w rule: less_induct)
  case less
  show ?case
  proof (cases "left (ext w) = 0")
    case True
    with delete_gone [OF assms True] show ?thesis by (intro exI [of _ 0] exI [of _ w]) auto
  next
    case False
    then obtain v where v: "delete (s, w) = (Err (RequeueAfterError 20), (s, v))" and lt: "left (ext v) < left (ext w)"
      using delete_progresses [OF assms] by blast
    have shift: "((snd \<circ> delete) ^^ Suc i) (s, w) = ((snd \<circ> delete) ^^ i) (s, v)" for i
      by (simp only: funpow_Suc_right) (simp add: v)
    from less.hyps [OF lt] obtain k w' where k: "k \<le> left (ext v)" "((snd \<circ> delete) ^^ k) (s, v) = (s, w')" "left (ext w') = 0"
      "fst (delete (s, w')) = Ok ()" and before: "\<forall>i < k. fst (delete (((snd \<circ> delete) ^^ i) (s, v))) = Err (RequeueAfterError 20)"
      by blast
    have "fst (delete (((snd \<circ> delete) ^^ i) (s, w))) = Err (RequeueAfterError 20)" if "i < Suc k" for i
      using that before v shift by (cases i) auto
    moreover have "Suc k \<le> left (ext w)" using k(1) lt by simp
    ultimately show ?thesis using k(2-4) shift [of k] by metis
  qed
qed

definition slowService :: "nat GCPComputeService" where
  "slowService = sampleService\<lparr>
     InstancesGet := (\<lambda>_ _ _ e. (if 0 < e then Inr (Some runningInstance) else Inl (GoogleError 404 [] [] [] [] None), e)),
     InstancesDelete := (\<lambda>_ _ _ _ e. (Inr (Some sampleOperation), e - 1))\<rparr>"

definition slowWorld :: "nat world" where
  "slowWorld = \<lparr>ext = 3, calls = [], events = [], metrics = [], wallClock = (\<lambda>_. 7)\<rparr>"

text \<open>A machine in a target pool; with three rounds to go it is gone after at most three requests to come back.\<close>

definition slowScope :: "nat machineScope" where
  "slowScope = sampleScope\<lparr>computeSvc := slowService\<rparr>"

theorem deletion_finishes_witness:
  "\<exists>k \<le> 3. \<exists>w. ((snd \<circ> delete) ^^ k) (slowScope, slowWorld) = (slowScope, w) \<and> ext w = 0 \<and> fst (delete (slowScope, w)) = Ok ()"
proof -
  have "progressing (computeSvc slowScope) (ownKey slowScope) (\<lambda>e. e)"
    by (simp add: progressing_def slowScope_def slowService_def sampleService_def isProjectNotFoundError_def split: prod.splits)
  moreover have "sideCalls (computeSvc slowScope) (\<lambda>e. e)"
    by (simp add: sideCalls_def slowScope_def slowService_def sampleService_def)
  moreover have "validateMachine (machine slowScope) (providerSpec slowScope) = None" by code_simp
  ultimately show ?thesis using deletion_finishes [of slowScope "\<lambda>e. e" slowWorld] by (auto simp: slowWorld_def)
qed

end
