(* ===== verification/MachineSet_Controller.thy ===== *)
theory MachineSet_Controller
  imports Reconciler_Create
begin

text \<open>
  \<open>machineset/controller.go\<close> and \<open>machineset/cache.go\<close>: the controller that annotates machine
  sets with the capacity of their machine type, for scaling from zero, and disables
  shielded instance options where the boot disk does not support them.
\<close>

section \<open>The machine type cache\<close>

text \<open>
  The state of the controller: the cache, which lives as long as the process, and the
  machine set of the reconciliation in progress.  The mutex makes a lookup one step, which
  \<open>Cache_Concurrency\<close> proves of the lookup with its lock taken apart.
\<close>

type_synonym machineTypeKey = "string \<times> string"

record setState =
  machineTypesCache :: "machineTypeKey \<Rightarrow> MachineType ptr option"
  theSet :: MachineSet

type_synonym ('w, 'a) setRec = "(setState \<times> 'w world, 'a) go"

definition newMachineTypesCache :: "machineTypeKey \<Rightarrow> MachineType ptr option" where
  "newMachineTypesCache = Map.empty"

definition getState :: "(setState \<Rightarrow> 'a) \<Rightarrow> ('w, 'a) setRec" where
  "getState f = gets (\<lambda>(s, w). f s)"

definition updState :: "(setState \<Rightarrow> setState) \<Rightarrow> ('w, unit) setRec" where
  "updState f = modify (\<lambda>(s, w). (f s, w))"

text \<open>The package has a copy of the reconciler's function of this name.\<close>

definition machineset_isNotFoundError :: "error option \<Rightarrow> bool" where
  "machineset_isNotFoundError err =
     (case err of Some (GoogleError code msg body details items w) \<Rightarrow> code = 404 | _ \<Rightarrow> False)"

lemma machineset_isNotFoundError [simp]: "machineset_isNotFoundError = isNotFoundError"
  by (rule ext) (simp add: machineset_isNotFoundError_def isNotFoundError_def)

definition getMachineTypeFromCache ::
    "'w GCPComputeService \<Rightarrow> string \<Rightarrow> string \<Rightarrow> string \<Rightarrow> ('w, MachineType ptr) setRec" where
  "getMachineTypeFromCache gcpService project zone machineType =
     seq (getState (\<lambda>s. machineTypesCache s (zone, machineType))) (\<lambda>cached.
     case cached of
       Some mt \<Rightarrow> ret mt
     | None \<Rightarrow>
         seq (attempt (onSnd (invoke (CallMachineTypesGet project zone machineType)
                                (MachineTypesGet gcpService project zone machineType)))) (\<lambda>res.
         case res of
           Inl err \<Rightarrow>
             if \<not> machineset_isNotFoundError (Some err)
             then raise (errorfV (''error fetching machine type '' @ Quote machineType @ '' in zone '' @ Quote zone @ '': '') err)
             else ret None
         | Inr mt \<Rightarrow>
             seq (updState (\<lambda>s. s\<lparr>machineTypesCache := (machineTypesCache s)((zone, machineType) \<mapsto> mt)\<rparr>)) (\<lambda>_. ret mt)))"

section \<open>Key-value lists\<close>

text \<open>\<open>mapiutil.MergeCommaSeparatedKeyValuePairs\<close>: one list read into a map, and the whole function.\<close>

definition pairStep :: "string \<Rightarrow> gomap \<Rightarrow> gomap" where
  "pairStep kv merged = (case Split (CHR ''='') kv of [k, v] \<Rightarrow> fmupd k v merged | _ \<Rightarrow> merged)"

definition mergePairs :: "gomap \<Rightarrow> string \<Rightarrow> gomap" where
  "mergePairs merged list = fold pairStep (Split (CHR '','') list) merged"

definition MergeCommaSeparatedKeyValuePairs :: "golib \<Rightarrow> string list \<Rightarrow> string" where
  "MergeCommaSeparatedKeyValuePairs lib pairLists =
     (let merged = fold (\<lambda>list merged. mergePairs merged list) pairLists fmempty in
      Join (map (\<lambda>(k, v). k @ ''='' @ v) (rangeMap lib merged)) '','')"

section \<open>The controller\<close>

definition cpuKey :: string where
  "cpuKey = ''machine.openshift.io/vCPU''"

definition memoryKey :: string where
  "memoryKey = ''machine.openshift.io/memoryMb''"

definition gpuKey :: string where
  "gpuKey = ''machine.openshift.io/GPU''"

definition labelsKey :: string where
  "labelsKey = ''capacity.cluster-autoscaler.kubernetes.io/labels''"

definition gpuCount :: "GCPMachineProviderSpec \<Rightarrow> MachineType \<Rightarrow> int" where
  "gpuCount providerConfig machineType =
     (case GPUs providerConfig of
        g # _ \<Rightarrow> sint (gpu_Count g)
      | [] \<Rightarrow> (case Accelerators machineType of
          acc # _ \<Rightarrow> sint (GuestAcceleratorCount acc)
        | [] \<Rightarrow> 0))"

definition annotate :: "golib \<Rightarrow> GCPMachineProviderSpec \<Rightarrow> MachineType \<Rightarrow> gomap \<Rightarrow> gomap" where
  "annotate lib providerConfig machineType anns =
     (let anns = fmupd cpuKey (Itoa (sint (GuestCpus machineType))) anns;
          anns = fmupd memoryKey (Itoa (sint (MemoryMb machineType))) anns;
          anns = fmupd gpuKey (Itoa (gpuCount providerConfig machineType)) anns
      in fmupd labelsKey (MergeCommaSeparatedKeyValuePairs lib
           [''kubernetes.io/arch='' @ archString (CPUArchitecture (ps_MachineType providerConfig)),
            mapIndex (Some anns) labelsKey]) anns)"

record 'w setReconciler =
  set_Client :: "'w Client"
  getGCPService :: "string \<Rightarrow> GCPMachineProviderSpec \<Rightarrow> ('w world, 'w GCPComputeService) go"

definition getRealGCPService ::
    "'w Client \<Rightarrow> (string \<Rightarrow> error + 'w GCPComputeService) \<Rightarrow> string \<Rightarrow> GCPMachineProviderSpec \<Rightarrow>
     ('w world, 'w GCPComputeService) go" where
  "getRealGCPService client newComputeService namespace providerConfig =
     seq (GetCredentialsSecret client namespace providerConfig) (\<lambda>serviceAccountJSON.
     onErr (\<lambda>err. InvalidMachineConfiguration (''error creating compute service: '' @ Error err))
       (pureCall (newComputeService serviceAccountJSON)))"

text \<open>
  \<open>SetupWithManager\<close>: building the controller may fail (a parameter); otherwise the cache starts
  empty and the real compute service is used unless another one was injected.
\<close>

definition SetupWithManager ::
    "error option \<Rightarrow> 'w Client \<Rightarrow> (string \<Rightarrow> error + 'w GCPComputeService) \<Rightarrow>
     (string \<Rightarrow> GCPMachineProviderSpec \<Rightarrow> ('w world, 'w GCPComputeService) go) ptr \<Rightarrow>
     error + (machineTypeKey \<Rightarrow> MachineType ptr option) \<times> 'w setReconciler" where
  "SetupWithManager buildErr client newComputeService injected =
     (case buildErr of
        Some err \<Rightarrow> Inl (errorfW ''failed setting up with a controller manager: '' err)
      | None \<Rightarrow> Inr (newMachineTypesCache,
          \<lparr>set_Client = client,
           getGCPService = (case injected of None \<Rightarrow> getRealGCPService client newComputeService | Some f \<Rightarrow> f)\<rparr>))"

definition getproviderConfig :: "golib \<Rightarrow> MachineSet \<Rightarrow> error + GCPMachineProviderSpec ptr" where
  "getproviderConfig lib machineSet = ProviderSpecFromRawExtension lib (TemplateProviderSpec machineSet)"

definition updSet :: "(MachineSet \<Rightarrow> MachineSet) \<Rightarrow> ('w, unit) setRec" where
  "updSet f = updState (\<lambda>s. s\<lparr>theSet := f (theSet s)\<rparr>)"

definition setEvent :: "string \<Rightarrow> string \<Rightarrow> ('w, unit) setRec" where
  "setEvent reason msg =
     seq (getState theSet) (\<lambda>ms.
     onSnd (recordEvent \<lparr>ev_Object = set_Name ms, ev_Type = EventTypeWarning, ev_Reason = reason, ev_Message = msg\<rparr>))"

definition disableShielded :: "golib \<Rightarrow> 'w GCPComputeService \<Rightarrow> GCPMachineProviderSpec \<Rightarrow> ('w, unit) setRec" where
  "disableShielded lib gceService providerConfig =
     seq (onErr (errorfV ''error fetching disk information: '')
            (onSnd (IsUEFICompatible gceService providerConfig))) (\<lambda>uefiCompatible.
     if \<not> uefiCompatible \<and> ShieldedInstanceConfig providerConfig = zeroShielded
     then seq (onErr (errorfV ''could not marshal shielded instance config: '')
                 (pureCall (RawExtensionFromProviderSpec lib
                    (Some (providerConfig\<lparr>ShieldedInstanceConfig := disabledShielded\<rparr>))))) (\<lambda>raw.
          updSet (\<lambda>ms. ms\<lparr>TemplateProviderSpec := Some raw\<rparr>))
     else ret ())"

definition reconcile :: "golib \<Rightarrow> 'w setReconciler \<Rightarrow> ('w, unit) setRec" where
  "reconcile lib r =
     seq (getState theSet) (\<lambda>machineSet.
     seq (onErr (\<lambda>err. InvalidMachineConfiguration (''failed to get providerConfig: '' @ Error err))
            (pureCall (getproviderConfig lib machineSet))) (\<lambda>p.
     seq (deref p) (\<lambda>providerConfig.
     seq (onSnd (getGCPService r (set_Namespace machineSet) providerConfig)) (\<lambda>gceService.
     seq (onErr (\<lambda>err. InvalidMachineConfiguration (''error fetching machine type ''
                   @ Quote (ps_MachineType providerConfig) @ '': '' @ Error err))
            (getMachineTypeFromCache gceService (ps_ProjectID providerConfig) (Zone providerConfig)
               (ps_MachineType providerConfig))) (\<lambda>mt.
     case mt of
       None \<Rightarrow> setEvent ''FailedUpdate'' ''Failed to set autoscaling from zero annotations, machine type unknown''
     | Some machineType \<Rightarrow>
         seq (updSet (\<lambda>ms. ms\<lparr>set_Annotations := ensureMap (set_Annotations ms)\<rparr>)) (\<lambda>_.
         seq (updSet (\<lambda>ms. ms\<lparr>set_Annotations := map_option (annotate lib providerConfig machineType) (set_Annotations ms)\<rparr>)) (\<lambda>_.
         disableShielded lib gceService providerConfig)))))))"

text \<open>\<open>metav1.Time.IsZero\<close>: a nil pointer or the zero time.\<close>

definition isZeroTime :: "nat ptr \<Rightarrow> bool" where
  "isZeroTime t \<longleftrightarrow> t = None \<or> t = Some 0"

definition Reconcile :: "golib \<Rightarrow> 'w setReconciler \<Rightarrow> string \<Rightarrow> string \<Rightarrow> ('w, unit) setRec" where
  "Reconcile lib r namespace name =
     seq (attempt (onSnd (invoke (CallGetMachineSet namespace name) (GetMachineSet (set_Client r) namespace name)))) (\<lambda>res.
     case res of
       Inl err \<Rightarrow> if IsNotFound err then ret () else raise err
     | Inr machineSet \<Rightarrow>
         if \<not> isZeroTime (DeletionTimestamp machineSet) then ret ()
         else
           seq (updSet (\<lambda>_. machineSet)) (\<lambda>_.
           seq (attempt (reconcile lib r)) (\<lambda>result.
           seq (case result of Inl err \<Rightarrow> setEvent ''ReconcileError'' (Error err) | Inr _ \<Rightarrow> ret ()) (\<lambda>_.
           seq (getState theSet) (\<lambda>modified.
           seq (onErr (errorfV ''failed to patch machineSet: '')
                  (onSnd (invoke (CallPatchMachineSet modified machineSet)
                            (PatchMachineSet (set_Client r) modified machineSet)))) (\<lambda>answer.
           seq (updSet (\<lambda>_. answer)) (\<lambda>_.
           case result of
             Inl err \<Rightarrow> if isInvalidConfigurationError (Some err) then ret () else raise err
           | Inr _ \<Rightarrow> ret ())))))))"

section \<open>The cache\<close>

lemma state_run [go_simps]:
  "getState f (s, w) = (Ok (f s), (s, w))"
  "updState g (s, w) = (Ok (), (g s, w))"
  "updSet h (s, w) = (Ok (), (s\<lparr>theSet := h (theSet s)\<rparr>, w))"
  by (simp_all add: getState_def updState_def updSet_def run_basic)

lemma cache_run:
  assumes "MachineTypesGet svc project zone mt (ext w) = (q, e)"
  defines "w1 \<equiv> w\<lparr>ext := e, calls := calls w @ [CallMachineTypesGet project zone mt]\<rparr>"
  shows "getMachineTypeFromCache svc project zone mt (s, w) =
    (case machineTypesCache s (zone, mt) of
       Some x \<Rightarrow> (Ok x, (s, w))
     | None \<Rightarrow> (case q of
          Inl err \<Rightarrow> (if isNotFoundError (Some err) then Ok None
              else Err (errorfV (''error fetching machine type '' @ Quote mt @ '' in zone '' @ Quote zone @ '': '') err), (s, w1))
        | Inr x \<Rightarrow> (Ok x, (s\<lparr>machineTypesCache := (machineTypesCache s)((zone, mt) \<mapsto> x)\<rparr>, w1))))"
  using assms(1)
  by (auto simp: getMachineTypeFromCache_def go_simps w1_def split: option.splits sum.splits)

text \<open>
  C23. The machine type cache.  A key that is cached is answered without a request, and nothing
  changes.  For any other key one request is made.  If it is answered with a machine type, that is returned
  and stored under the zone and the name, and nothing else in the cache changes: from then on
  every call for that zone and name returns it without a request, whatever service, project or
  world it is made with, since the project is not part of the key.  If the request fails, nothing is
  stored: an unknown machine type (404) is no error, and is asked for again the next time; any
  other failure is returned.
\<close>

theorem getMachineTypeFromCache_spec:
  assumes "getMachineTypeFromCache svc project zone mt (s, w) = (r, (s', w'))"
  shows "case machineTypesCache s (zone, mt) of
      Some x \<Rightarrow> r = Ok x \<and> s' = s \<and> w' = w
    | None \<Rightarrow> theSet s' = theSet s \<and> calls w' = calls w @ [CallMachineTypesGet project zone mt] \<and>
       (case fst (MachineTypesGet svc project zone mt (ext w)) of
          Inr x \<Rightarrow> r = Ok x \<and> machineTypesCache s' = (machineTypesCache s)((zone, mt) \<mapsto> x) \<and>
            (\<forall>svc2 project2 v. getMachineTypeFromCache svc2 project2 zone mt (s', v) = (Ok x, (s', v)))
        | Inl err \<Rightarrow> machineTypesCache s' = machineTypesCache s \<and>
            (if \<exists>msg body details items inner. err = GoogleError 404 msg body details items inner
             then r = Ok None else \<exists>pre. r = Err (errorfV pre err)))"
proof -
  obtain q e where q: "MachineTypesGet svc project zone mt (ext w) = (q, e)" by force
  have missing: "isNotFoundError (Some err) \<longleftrightarrow>
      (\<exists>msg body details items inner. err = GoogleError 404 msg body details items inner)" for err
    by (cases err) (simp_all add: isNotFoundError_def)
  have again: "getMachineTypeFromCache svc2 project2 zone mt (s', v) = (Ok x, (s', v))"
    if "machineTypesCache s' (zone, mt) = Some x" for svc2 :: "'b GCPComputeService" and project2 v x
    using that by (simp add: getMachineTypeFromCache_def go_simps)
  show ?thesis
    using assms [unfolded cache_run [OF q]] again q
    by (auto simp: missing split: option.splits sum.splits if_splits)
qed

section \<open>Key-value lists\<close>

text \<open>What ranging over a map promises: every entry once, in some order.\<close>

definition rangesOver :: "golib \<Rightarrow> bool" where
  "rangesOver lib \<longleftrightarrow> (\<forall>m. distinct (map fst (rangeMap lib m)) \<and> map_of (rangeMap lib m) = fmlookup m)"

text \<open>Reading a list of pairs, as the consumers of the annotation do.\<close>

definition readPairs :: "string \<Rightarrow> string \<Rightarrow> string option" where
  "readPairs list = fmlookup (mergePairs fmempty list)"

definition plainMap :: "gomap \<Rightarrow> bool" where
  "plainMap m \<longleftrightarrow> (\<forall>k v. fmlookup m k = Some v \<longrightarrow>
     CHR '','' \<notin> set k \<and> CHR ''='' \<notin> set k \<and> CHR '','' \<notin> set v \<and> CHR ''='' \<notin> set v)"

lemma pairStep_cases:
  obtains (skip) "pairStep kv = id"
  | (pair) k v where "kv = k @ ''='' @ v" "CHR ''='' \<notin> set k" "CHR ''='' \<notin> set v" "pairStep kv = fmupd k v"
proof (cases "\<exists>k v. Split (CHR ''='') kv = [k, v]")
  case True
  then obtain k v where kv: "Split (CHR ''='') kv = [k, v]" by blast
  have "kv = Join (Split (CHR ''='') kv) ''=''" by (simp add: Join_Split)
  with kv have "kv = k @ ''='' @ v" by simp
  moreover have "CHR ''='' \<notin> set k" "CHR ''='' \<notin> set v" using Split_no_sep [of _ "CHR ''=''" kv] kv by simp_all
  moreover have "pairStep kv = fmupd k v" using kv by (simp add: pairStep_def fun_eq_iff)
  ultimately show ?thesis by (rule pair)
next
  case False
  then have "pairStep kv = id" by (auto simp: pairStep_def fun_eq_iff split: list.splits)
  then show ?thesis by (rule skip)
qed

lemma pairStep_plain:
  assumes "plainMap m" and "CHR '','' \<notin> set kv"
  shows "plainMap (pairStep kv m)"
proof (cases rule: pairStep_cases [of kv])
  case skip
  with assms(1) show ?thesis by simp
next
  case (pair k v)
  then have "CHR '','' \<notin> set k" "CHR '','' \<notin> set v" using assms(2) by simp_all
  with pair(2-4) assms(1) show ?thesis by (simp add: plainMap_def)
qed

lemma fold_plain: "plainMap m \<Longrightarrow> \<forall>kv \<in> set kvs. CHR '','' \<notin> set kv \<Longrightarrow> plainMap (fold pairStep kvs m)"
  by (induction kvs arbitrary: m) (auto intro: pairStep_plain)

lemma mergePairs_plain: "plainMap m \<Longrightarrow> plainMap (mergePairs m list)"
  unfolding mergePairs_def by (rule fold_plain) (auto dest: Split_no_sep)

text \<open>Reading a list on top of a map is the map overridden by what the list says alone.\<close>

lemma fold_override: "fmlookup (fold pairStep kvs m) = fmlookup m ++ fmlookup (fold pairStep kvs fmempty)"
proof (induction kvs rule: rev_induct)
  case (snoc kv kvs)
  then show ?case by (cases rule: pairStep_cases [of kv]) (simp_all add: fun_eq_iff map_add_def)
qed simp

lemma fold_pairs:
  "\<forall>(k, v) \<in> set xs. CHR ''='' \<notin> set k \<and> CHR ''='' \<notin> set v \<Longrightarrow>
   fold pairStep (map (\<lambda>(k, v). k @ ''='' @ v) xs) m = fold (\<lambda>(k, v). fmupd k v) xs m"
  by (induction xs arbitrary: m) (auto simp: pairStep_def Split_append)

lemma fold_fmupd: "distinct (map fst xs) \<Longrightarrow> fmlookup (fold (\<lambda>(k, v). fmupd k v) xs m) = fmlookup m ++ map_of xs"
proof (induction xs arbitrary: m)
  case (Cons x xs)
  obtain k v where x: "x = (k, v)" by force
  with Cons.prems have "map_of xs k = None" by (auto simp: map_of_eq_None_iff)
  with Cons x show ?case by (simp add: fun_eq_iff map_add_def split: option.splits)
qed simp

lemma readPairs_render:
  assumes "plainMap m" and "distinct (map fst xs)" and "map_of xs = fmlookup m"
  shows "readPairs (Join (map (\<lambda>(k, v). k @ ''='' @ v) xs) '','') = fmlookup m"
proof -
  have plain: "CHR '','' \<notin> set k \<and> CHR ''='' \<notin> set k \<and> CHR '','' \<notin> set v \<and> CHR ''='' \<notin> set v" if "(k, v) \<in> set xs" for k v
    using assms that unfolding plainMap_def by (metis map_of_is_SomeI)
  show ?thesis
  proof (cases "xs = []")
    case True
    then show ?thesis using assms(3) by (simp add: readPairs_def mergePairs_def pairStep_def fun_eq_iff)
  next
    case False
    then have "Split (CHR '','') (Join (map (\<lambda>(k, v). k @ ''='' @ v) xs) '','') = map (\<lambda>(k, v). k @ ''='' @ v) xs"
      using plain by (intro Split_Join) auto
    moreover have "fold pairStep (map (\<lambda>(k, v). k @ ''='' @ v) xs) fmempty = fold (\<lambda>(k, v). fmupd k v) xs fmempty"
      using plain by (intro fold_pairs) auto
    ultimately have "readPairs (Join (map (\<lambda>(k, v). k @ ''='' @ v) xs) '','') = fmlookup (fold (\<lambda>(k, v). fmupd k v) xs fmempty)"
      by (simp only: readPairs_def mergePairs_def)
    then show ?thesis using fold_fmupd [OF assms(2), of fmempty] assms(3) by (simp add: fun_eq_iff map_add_def split: option.splits)
  qed
qed

lemma merge_reads:
  assumes "rangesOver lib"
  shows "readPairs (MergeCommaSeparatedKeyValuePairs lib [a, b]) = readPairs a ++ readPairs b"
proof -
  let ?m = "mergePairs (mergePairs fmempty a) b"
  have "plainMap ?m" by (intro mergePairs_plain) (simp add: plainMap_def)
  then have "readPairs (MergeCommaSeparatedKeyValuePairs lib [a, b]) = fmlookup ?m"
    using assms readPairs_render [of ?m "rangeMap lib ?m"]
    by (simp add: MergeCommaSeparatedKeyValuePairs_def rangesOver_def)
  also have "\<dots> = readPairs a ++ readPairs b"
    unfolding readPairs_def mergePairs_def by (rule fold_override)
  finally show ?thesis .
qed

text \<open>
  Whatever order the runtime ranges over maps in, the merged list reads as the first list
  overridden by the second: no pair of either list is lost but for keys the second list
  repeats, where its value wins.  So labels a user put into the capacity annotation
  survive, and the architecture label is there unless the user set it.
\<close>

theorem MergeCommaSeparatedKeyValuePairs_spec:
  assumes "rangesOver lib"
  shows "readPairs (MergeCommaSeparatedKeyValuePairs lib [a, b]) = readPairs a ++ readPairs b"
  using assms by (rule merge_reads)

lemma sampleLib_ranges: "rangesOver sampleLib"
proof -
  have "map_of (sorted_list_of_fmap m) = fmlookup m" for m :: gomap
    by (simp add: map_of_sorted_list)
  moreover have "distinct (map fst (sorted_list_of_fmap m))" for m :: gomap
    by (simp add: sorted_list_of_fmap_def comp_def sorted_list_of_fset.rep_eq)
  ultimately show ?thesis by (simp add: rangesOver_def sampleLib_def)
qed

theorem MergeCommaSeparatedKeyValuePairs_spec_witness:
  "readPairs (MergeCommaSeparatedKeyValuePairs sampleLib [''kubernetes.io/arch=amd64'', ''a=b,kubernetes.io/arch=arm64'']) =
     [''a'' \<mapsto> ''b'', ''kubernetes.io/arch'' \<mapsto> ''arm64'']"
  unfolding MergeCommaSeparatedKeyValuePairs_spec [OF sampleLib_ranges]
  by (rule ext) (simp add: readPairs_def mergePairs_def pairStep_def map_add_def)

section \<open>Reconciling a machine set\<close>

lemma capacity_keys [simp]:
  "cpuKey \<noteq> memoryKey" "cpuKey \<noteq> gpuKey" "cpuKey \<noteq> labelsKey" "memoryKey \<noteq> gpuKey" "memoryKey \<noteq> labelsKey" "gpuKey \<noteq> labelsKey"
  by (simp_all add: cpuKey_def memoryKey_def gpuKey_def labelsKey_def)

text \<open>
  C22. The annotations a successful look at the machine type leaves, read back the way the
  autoscaler reads them: CPU, memory and GPU are the decimal values of the machine type
  (the GPU count of the provider spec wins over the machine type's own accelerators, and
  there is a zero when neither has any), the labels are the architecture of the machine
  type overridden by the labels that were there, and every other annotation is kept.
\<close>

theorem annotate_spec:
  fixes spec mt anns
  assumes "rangesOver lib"
  defines "after \<equiv> annotate lib spec mt anns"
  shows "map_option readInt (fmlookup after ''machine.openshift.io/vCPU'') = Some (Some (sint (GuestCpus mt))) \<and>
    map_option readInt (fmlookup after ''machine.openshift.io/memoryMb'') = Some (Some (sint (MemoryMb mt))) \<and>
    map_option readInt (fmlookup after ''machine.openshift.io/GPU'') = Some (Some
      (if GPUs spec \<noteq> [] then sint (gpu_Count (hd (GPUs spec)))
       else if Accelerators mt \<noteq> [] then sint (GuestAcceleratorCount (hd (Accelerators mt))) else 0)) \<and>
    map_option readPairs (fmlookup after ''capacity.cluster-autoscaler.kubernetes.io/labels'') = Some
      ([''kubernetes.io/arch'' \<mapsto> archString (CPUArchitecture (ps_MachineType spec))] ++
       readPairs (mapIndex (Some anns) ''capacity.cluster-autoscaler.kubernetes.io/labels'')) \<and>
    (\<forall>k. k \<notin> {cpuKey, memoryKey, gpuKey, labelsKey} \<longrightarrow> fmlookup after k = fmlookup anns k)"
proof -
  have lookups: "fmlookup after cpuKey = Some (Itoa (sint (GuestCpus mt)))"
    "fmlookup after memoryKey = Some (Itoa (sint (MemoryMb mt)))" "fmlookup after gpuKey = Some (Itoa (gpuCount spec mt))"
    "fmlookup after labelsKey = Some (MergeCommaSeparatedKeyValuePairs lib
       [''kubernetes.io/arch='' @ archString (CPUArchitecture (ps_MachineType spec)), mapIndex (Some anns) labelsKey])"
    "k \<notin> {cpuKey, memoryKey, gpuKey, labelsKey} \<Longrightarrow> fmlookup after k = fmlookup anns k" for k
    by (simp_all add: after_def annotate_def Let_def not_sym)
  have "readPairs (''kubernetes.io/arch='' @ archString arch) = [''kubernetes.io/arch'' \<mapsto> archString arch]" for arch
    by (cases arch) (simp_all add: readPairs_def mergePairs_def pairStep_def fun_eq_iff)
  moreover have "gpuCount spec mt = (if GPUs spec \<noteq> [] then sint (gpu_Count (hd (GPUs spec)))
      else if Accelerators mt \<noteq> [] then sint (GuestAcceleratorCount (hd (Accelerators mt))) else 0)"
    by (simp add: gpuCount_def split: list.splits)
  ultimately show ?thesis
    using lookups unfolding cpuKey_def [symmetric] memoryKey_def [symmetric] gpuKey_def [symmetric] labelsKey_def [symmetric]
    by (simp add: merge_reads [OF assms(1)])
qed

theorem annotate_spec_witness:
  "\<forall>mt. map_option readInt (fmlookup (annotate sampleLib sampleSpec (mt\<lparr>GuestCpus := 4\<rparr>) fmempty) ''machine.openshift.io/vCPU'')
     = Some (Some 4)"
proof
  fix mt :: MachineType
  show "map_option readInt (fmlookup (annotate sampleLib sampleSpec (mt\<lparr>GuestCpus := 4\<rparr>) fmempty) ''machine.openshift.io/vCPU'')
     = Some (Some 4)"
    using annotate_spec [OF sampleLib_ranges, of sampleSpec "mt\<lparr>GuestCpus := 4\<rparr>" fmempty] by simp
qed

lemma setRec_Ok_iff:
  "getState f (s, w) = (Ok x, st) \<longleftrightarrow> x = f s \<and> st = (s, w)"
  "updSet h (s, w) = (Ok (), st) \<longleftrightarrow> st = (s\<lparr>theSet := h (theSet s)\<rparr>, w)"
  "onSnd m (s, w) = (Ok y, st) \<longleftrightarrow> (\<exists>w'. m w = (Ok y, w') \<and> st = (s, w'))"
  by (auto simp: state_run onSnd_run split: prod.splits)

lemmas set_Ok = seq_Ok_iff setRec_Ok_iff pureCall_Ok_iff deref_Ok_iff run_basic

text \<open>What \<open>reconcile\<close> makes of a machine set whose machine type it knows.\<close>

definition annotated :: "golib \<Rightarrow> GCPMachineProviderSpec \<Rightarrow> MachineType \<Rightarrow> MachineSet \<Rightarrow> MachineSet" where
  "annotated lib spec mt ms = ms\<lparr>set_Annotations := Some (annotate lib spec mt (theMap (set_Annotations ms)))\<rparr>"

text \<open>What is known of the machine type of a spec: the cached answer, or else the one of the service.\<close>

definition knownType ::
    "'w GCPComputeService \<Rightarrow> GCPMachineProviderSpec \<Rightarrow> setState \<Rightarrow> 'w world \<Rightarrow> (error + MachineType ptr) \<times> 'w world" where
  "knownType svc spec s w =
     (case machineTypesCache s (Zone spec, ps_MachineType spec) of
        Some x \<Rightarrow> (Inr x, w)
      | None \<Rightarrow>
         (case MachineTypesGet svc (ps_ProjectID spec) (Zone spec) (ps_MachineType spec) (ext w) of (q, e) \<Rightarrow>
            (case q of Inr x \<Rightarrow> Inr x | Inl err \<Rightarrow> if isNotFoundError (Some err) then Inr None else Inl err,
             w\<lparr>ext := e, calls := calls w @ [CallMachineTypesGet (ps_ProjectID spec) (Zone spec) (ps_MachineType spec)]\<rparr>)))"

text \<open>
  A pass over a machine set with a readable template and a service: the machine type cannot be
  asked for, or is unknown, or is known; in the last case the boot image decides about the template.
\<close>

definition shieldedOff :: "GCPMachineProviderSpec \<Rightarrow> GCPMachineProviderSpec" where
  "shieldedOff spec = spec\<lparr>ShieldedInstanceConfig := \<lparr>SecureBoot = ''Disabled'',
     VirtualizedTrustedPlatformModule = ''Disabled'', IntegrityMonitoring = ''Disabled''\<rparr>\<rparr>"

definition passed ::
    "golib \<Rightarrow> 'w GCPComputeService \<Rightarrow> GCPMachineProviderSpec \<Rightarrow> setState \<Rightarrow> 'w world \<Rightarrow>
     unit outcome \<Rightarrow> setState \<Rightarrow> 'w world \<Rightarrow> bool" where
  "passed lib svc spec s w out s' w' \<longleftrightarrow>
     (case knownType svc spec s w of (known, w2) \<Rightarrow>
       (case known of
          Inl err \<Rightarrow> (\<exists>msg. out = Err (InvalidMachineConfiguration msg)) \<and> s' = s \<and> w' = w2
        | Inr None \<Rightarrow> out = Ok () \<and> theSet s' = theSet s \<and>
            w' = w2\<lparr>events := events w2 @ [\<lparr>ev_Object = set_Name (theSet s), ev_Type = EventTypeWarning, ev_Reason = ''FailedUpdate'',
              ev_Message = ''Failed to set autoscaling from zero annotations, machine type unknown''\<rparr>]\<rparr>
        | Inr (Some mt) \<Rightarrow> machineTypesCache s' (Zone spec, ps_MachineType spec) = Some (Some mt) \<and>
            (case IsUEFICompatible svc spec w2 of (uefi, w3) \<Rightarrow> w' = w3 \<and>
              (let rewrite = uefi = Ok False \<and> ShieldedInstanceConfig spec = zeroShielded;
                   raw = marshalSpec lib (shieldedOff spec) in
               theSet s' = (annotated lib spec mt (theSet s))
                 \<lparr>TemplateProviderSpec := (if rewrite \<and> \<not> isl raw then Some (projr raw) else TemplateProviderSpec (theSet s))\<rparr> \<and>
               out = (case uefi of
                  Ok b \<Rightarrow> if rewrite \<and> isl raw
                    then Err (errorfV ''could not marshal shielded instance config: ''
                      (errorfV ''error marshalling providerSpec: '' (projl raw)))
                    else Ok ()
                | Err e \<Rightarrow> Err (errorfV ''error fetching disk information: '' e)
                | Crash c \<Rightarrow> Crash c)))))"

lemma cache_knownType:
  assumes "knownType svc spec s w = (known, w2)"
  obtains s2 where "getMachineTypeFromCache svc (ps_ProjectID spec) (Zone spec) (ps_MachineType spec) (s, w) =
      (case known of Inr x \<Rightarrow> Ok x | Inl err \<Rightarrow> Err (errorfV (''error fetching machine type '' @ Quote (ps_MachineType spec) @
         '' in zone '' @ Quote (Zone spec) @ '': '') err), (s2, w2))"
    and "theSet s2 = theSet s" and "\<And>err. known = Inl err \<Longrightarrow> s2 = s"
    and "\<And>mt. known = Inr (Some mt) \<Longrightarrow> machineTypesCache s2 (Zone spec, ps_MachineType spec) = Some (Some mt)"
proof -
  obtain q e where q: "MachineTypesGet svc (ps_ProjectID spec) (Zone spec) (ps_MachineType spec) (ext w) = (q, e)" by force
  show ?thesis using assms q that unfolding knownType_def cache_run [OF q]
    by (cases "machineTypesCache s (Zone spec, ps_MachineType spec)"; cases q) (auto split: if_splits)
qed

lemma disableShielded_run:
  assumes "IsUEFICompatible svc spec w = (uefi, w3)"
  shows "disableShielded lib svc spec (s, w) =
    (case uefi of
       Ok b \<Rightarrow>
         if \<not> b \<and> ShieldedInstanceConfig spec = zeroShielded
         then (case marshalSpec lib (shieldedOff spec) of
             Inl e \<Rightarrow> (Err (errorfV ''could not marshal shielded instance config: '' (errorfV ''error marshalling providerSpec: '' e)), (s, w3))
           | Inr raw \<Rightarrow> (Ok (), (s\<lparr>theSet := (theSet s)\<lparr>TemplateProviderSpec := Some raw\<rparr>\<rparr>, w3)))
         else (Ok (), (s, w3))
     | Err e \<Rightarrow> (Err (errorfV ''error fetching disk information: '' e), (s, w3))
     | Crash c \<Rightarrow> (Crash c, (s, w3)))"
  using assms
  by (simp add: disableShielded_def disabledShielded_def shieldedOff_def RawExtensionFromProviderSpec_def seq_run onErr_run onSnd_run
      pureCall_def run_basic state_run split: outcome.splits sum.splits)

lemma reconcile_passes:
  assumes "getproviderConfig lib (theSet s) = Inr (Some spec)"
    and "getGCPService r (set_Namespace (theSet s)) spec w = (Ok svc, w1)"
    and "reconcile lib r (s, w) = (out, (s', w'))"
  shows "passed lib svc spec s w1 out s' w'"
proof -
  obtain known w2 where ask: "knownType svc spec s w1 = (known, w2)" by force
  then obtain s2 where cache: "getMachineTypeFromCache svc (ps_ProjectID spec) (Zone spec) (ps_MachineType spec) (s, w1) =
      (case known of Inr x \<Rightarrow> Ok x | Inl err \<Rightarrow> Err (errorfV (''error fetching machine type '' @ Quote (ps_MachineType spec) @
         '' in zone '' @ Quote (Zone spec) @ '': '') err), (s2, w2))"
    and s2: "theSet s2 = theSet s" "\<And>err. known = Inl err \<Longrightarrow> s2 = s"
      "\<And>mt. known = Inr (Some mt) \<Longrightarrow> machineTypesCache s2 (Zone spec, ps_MachineType spec) = Some (Some mt)"
    by (rule cache_knownType) blast
  obtain uefi w3 where uefi: "IsUEFICompatible svc spec w2 = (uefi, w3)" by force
  consider err where "known = Inl err" | "known = Inr None" | mt where "known = Inr (Some mt)" by (metis sum.exhaust option.exhaust)
  then show ?thesis
  proof cases
    case 1
    then show ?thesis using assms cache s2 ask
      by (auto simp: passed_def reconcile_def go_simps)
  next
    case 2
    then show ?thesis using assms cache s2 ask
      by (auto simp: passed_def reconcile_def go_simps setEvent_def recordEvent_def)
  next
    case 3
    then have "disableShielded lib svc spec (s2\<lparr>theSet := annotated lib spec mt (theSet s)\<rparr>, w2) = (out, (s', w'))"
      using assms cache s2(1)
      by (simp add: reconcile_def seq_run state_run onErr_run onSnd_run pureCall_def run_basic annotated_def ensureMap_theMap)
    then show ?thesis using 3 ask s2 uefi unfolding disableShielded_run [OF uefi]
      by (auto simp: passed_def Let_def annotated_def split: outcome.splits sum.splits if_splits)
  qed
qed

text \<open>
  C21. What \<open>reconcile\<close> does to a machine set, for every answer it gets.  A template that cannot be read
  is an invalid configuration, and changes and asks nothing; an error of making the service is
  returned.  Otherwise the machine type is taken from the cache or else asked for.  If that fails
  it is an invalid configuration and the machine set is left as it was; if the type is unknown, the machine
  set is left as it was and one warning is recorded.  If it is known, it is now cached and the machine
  set carries its annotations, in any case.  Its template is rewritten exactly if the boot image is
  known not to be UEFI compatible, no shielded instance option was set and the new spec can be
  encoded, and then to the same provider spec with all three options disabled; nothing else of
  the machine set changes, and an error about the boot image or the encoding is returned.
\<close>

theorem reconcile_spec:
  assumes "reconcile lib r (s, w) = (out, (s', w'))"
  shows "case getproviderConfig lib (theSet s) of
      Inl err \<Rightarrow> (\<exists>msg. out = Err (InvalidMachineConfiguration msg)) \<and> s' = s \<and> w' = w
    | Inr None \<Rightarrow> out = Crash NilDereference \<and> s' = s \<and> w' = w
    | Inr (Some spec) \<Rightarrow>
       (case getGCPService r (set_Namespace (theSet s)) spec w of (made, w1) \<Rightarrow>
         (case made of
            Ok svc \<Rightarrow> passed lib svc spec s w1 out s' w'
          | Err e \<Rightarrow> out = Err e \<and> s' = s \<and> w' = w1
          | Crash c \<Rightarrow> out = Crash c \<and> s' = s \<and> w' = w1))"
proof (cases "getproviderConfig lib (theSet s)")
  case (Inr p)
  show ?thesis
  proof (cases p)
    case (Some spec)
    obtain made w1 where made: "getGCPService r (set_Namespace (theSet s)) spec w = (made, w1)" by force
    have spec: "getproviderConfig lib (theSet s) = Inr (Some spec)" using Inr Some by simp
    show ?thesis
    proof (cases made)
      case (Ok svc)
      with reconcile_passes [OF spec _ assms] made spec show ?thesis by simp
    qed (use assms spec made in \<open>auto simp: reconcile_def go_simps\<close>)
  qed (use assms Inr in \<open>auto simp: reconcile_def go_simps\<close>)
qed (use assms in \<open>auto simp: reconcile_def go_simps\<close>)

lemma Reconcile_reads:
  assumes "GetMachineSet (set_Client r) ns n (ext w) = (Inr ms, e)" and "isZeroTime (DeletionTimestamp ms)"
  shows "Reconcile lib r ns n (s, w) =
      seq (attempt (reconcile lib r)) (\<lambda>result.
           seq (case result of Inl err \<Rightarrow> setEvent ''ReconcileError'' (Error err) | Inr _ \<Rightarrow> ret ()) (\<lambda>_.
           seq (getState theSet) (\<lambda>modified.
           seq (onErr (errorfV ''failed to patch machineSet: '')
                  (onSnd (invoke (CallPatchMachineSet modified ms) (PatchMachineSet (set_Client r) modified ms)))) (\<lambda>answer.
           seq (updSet (\<lambda>_. answer)) (\<lambda>_.
           case result of
             Inl err \<Rightarrow> if isInvalidConfigurationError (Some err) then ret () else raise err
           | Inr _ \<Rightarrow> ret ()))))) (s\<lparr>theSet := ms\<rparr>, w\<lparr>ext := e, calls := calls w @ [CallGetMachineSet ns n]\<rparr>)"
  using assms by (simp add: Reconcile_def seq_run attempt_run onSnd_run invoke_run state_run)

lemma Reconcile_steps:
  assumes "GetMachineSet (set_Client r) ns n (ext w) = (q, e)"
    and "Reconcile lib r ns n (s, w) = (out, (s', w'))"
  defines "w1 \<equiv> w\<lparr>ext := e, calls := calls w @ [CallGetMachineSet ns n]\<rparr>"
  shows "case q of
      Inl err \<Rightarrow> out = (if IsNotFound err then Ok () else Err err) \<and> s' = s \<and> w' = w1
    | Inr ms \<Rightarrow>
        if \<not> isZeroTime (DeletionTimestamp ms) then out = Ok () \<and> s' = s \<and> w' = w1
        else (case reconcile lib r (s\<lparr>theSet := ms\<rparr>, w1) of (res, (s1, w2)) \<Rightarrow>
          if \<exists>c. res = Crash c then (\<exists>c. res = Crash c \<and> out = Crash c) \<and> w' = w2
          else
            calls w' = calls w2 @ [CallPatchMachineSet (theSet s1) ms] \<and>
            events w' = events w2 @ (case res of
              Err err \<Rightarrow> [\<lparr>ev_Object = set_Name (theSet s1), ev_Type = EventTypeWarning, ev_Reason = ''ReconcileError'', ev_Message = Error err\<rparr>]
            | _ \<Rightarrow> []) \<and>
            (case fst (PatchMachineSet (set_Client r) (theSet s1) ms (ext w2)) of
               Inl err \<Rightarrow> out = Err (errorfV ''failed to patch machineSet: '' err)
             | Inr _ \<Rightarrow> out = (case res of Err err \<Rightarrow> (if isInvalidConfigurationError (Some err) then Ok () else Err err) | _ \<Rightarrow> Ok ())))"
proof (cases q)
  case (Inl err)
  with assms show ?thesis by (auto simp: Reconcile_def go_simps split: if_splits)
next
  case (Inr ms)
  obtain res s1 w2 where res: "reconcile lib r (s\<lparr>theSet := ms\<rparr>, w1) = (res, (s1, w2))" by (metis prod.exhaust)
  obtain p x where p: "PatchMachineSet (set_Client r) (theSet s1) ms (ext w2) = (p, x)" by force
  show ?thesis
  proof (cases "isZeroTime (DeletionTimestamp ms)")
    case False
    with assms Inr show ?thesis by (simp add: Reconcile_def go_simps)
  next
    case True
    note run = Reconcile_reads [OF assms(1) [unfolded Inr] True, of lib s, folded w1_def]
    from assms(2) [unfolded run] res p show ?thesis using True Inr
      by (cases res) (auto simp: seq_run attempt_run state_run setEvent_def recordEvent_def onSnd_run onErr_run invoke_run run_basic
          split: sum.splits if_splits)
  qed
qed

text \<open>
  What the pass itself leaves in the log: calls that read, if making the service does no more, and
  no event but the warning about an unknown machine type.
\<close>

definition readingServices :: "'w setReconciler \<Rightarrow> bool" where
  "readingServices r \<longleftrightarrow> (\<forall>ns spec. obeys (callsOnly readOnly) (getGCPService r ns spec))"

lemma getRealGCPService_reads: "obeys (callsOnly readOnly) (getRealGCPService client new ns spec)"
  unfolding getRealGCPService_def GetCredentialsSecret_def by (intro obeys_intros) simp_all

lemma knownType_reads: "knownType svc spec s w = (known, w2) \<Longrightarrow> callsOnly readOnly w w2"
  by (auto simp: knownType_def callsOnly_def split: option.splits prod.splits)

definition passLog :: "'w world \<Rightarrow> 'w world \<Rightarrow> call list \<Rightarrow> event list \<Rightarrow> bool" where
  "passLog w w' reads warned \<longleftrightarrow> calls w' = calls w @ reads \<and> list_all readOnly reads \<and>
     events w' = events w @ warned \<and> list_all (\<lambda>ev. ev_Reason ev = ''FailedUpdate'') warned"

lemma callsOnly_passLog: "callsOnly readOnly w w' \<Longrightarrow> \<exists>reads. passLog w w' reads []"
  by (auto simp: callsOnly_def passLog_def)

lemma passed_log:
  assumes "passed lib svc spec s w out s' w'"
  shows "\<exists>reads warned. passLog w w' reads warned"
proof -
  obtain known w2 where ask: "knownType svc spec s w = (known, w2)" by force
  note reads = knownType_reads [OF ask]
  obtain uefi w3 where uefi: "IsUEFICompatible svc spec w2 = (uefi, w3)" by force
  have "obeys (callsOnly readOnly) (IsUEFICompatible svc spec)" by (intro obeys_intros) simp_all
  from obeysD [OF this uefi] have both: "callsOnly readOnly w w3" using reads callsOnly_trans by blast
  consider err where "known = Inl err" | "known = Inr None" | mt where "known = Inr (Some mt)" by (metis sum.exhaust option.exhaust)
  then show ?thesis
  proof cases
    case 1
    with assms ask have "w' = w2" by (simp add: passed_def)
    with callsOnly_passLog [OF reads] show ?thesis by blast
  next
    case 2
    with assms ask obtain ev where "w' = w2\<lparr>events := events w2 @ [ev]\<rparr>" "ev_Reason ev = ''FailedUpdate''"
      by (simp add: passed_def)
    with callsOnly_passLog [OF reads] obtain rs where "passLog w w' rs [ev]" by (auto simp: passLog_def)
    then show ?thesis by blast
  next
    case 3
    with assms ask uefi have "w' = w3" by (simp add: passed_def)
    with callsOnly_passLog [OF both] show ?thesis by blast
  qed
qed

lemma reconcile_log:
  assumes "readingServices r" and run: "reconcile lib r (s, w) = (out, (s', w'))"
  obtains reads warned where "passLog w w' reads warned"
proof (cases "\<exists>spec. getproviderConfig lib (theSet s) = Inr (Some spec)")
  case False
  then have "w' = w" using run
    by (cases "getproviderConfig lib (theSet s)") (auto simp: reconcile_def go_simps split: option.splits)
  with that [of "[]" "[]"] show ?thesis by (simp add: passLog_def)
next
  case True
  then obtain spec where spec: "getproviderConfig lib (theSet s) = Inr (Some spec)" ..
  obtain made w1 where made: "getGCPService r (set_Namespace (theSet s)) spec w = (made, w1)" by force
  have "callsOnly readOnly w w1" using assms(1) made unfolding readingServices_def by (blast dest: obeysD)
  then obtain first where first: "passLog w w1 first []" using callsOnly_passLog by blast
  show ?thesis
  proof (cases "\<exists>svc. made = Ok svc")
    case False
    then have "w' = w1" using run spec made by (cases made) (auto simp: reconcile_def go_simps)
    with first that show ?thesis by simp
  next
    case True
    then obtain svc where svc: "made = Ok svc" ..
    obtain reads warned where "passLog w1 w' reads warned"
      using passed_log [OF reconcile_passes [OF spec made [unfolded svc] run]] by blast
    with first have "passLog w w' (first @ reads) warned" by (simp add: passLog_def)
    with that show ?thesis .
  qed
qed

text \<open>
  C20. The life of a reconcile request.  A machine set that cannot be read ends it, without an
  error if it is gone; one that is being deleted is left alone.  Otherwise, whether or not
  \<open>reconcile\<close> fails, the calls of the whole request are the read of the machine set, further reads,
  and one patch, of the machine set against the object that was read: with services whose making
  only reads, which is true of the real ones, there is exactly one patch and it comes last.
  A failure of \<open>reconcile\<close> is announced by exactly one \<open>ReconcileError\<close> event; all other events are
  warnings about an unknown machine type.  The result is the patch's error if there is one; an
  invalid configuration is not returned, so that the request is not retried, any other error
  is.  Only a panic in \<open>reconcile\<close> ends the request without the patch.
\<close>

theorem Reconcile_spec:
  assumes "readingServices r" and "GetMachineSet (set_Client r) ns n (ext w) = (q, e)"
    and "Reconcile lib r ns n (s, w) = (out, (s', w'))"
  defines "w1 \<equiv> w\<lparr>ext := e, calls := calls w @ [CallGetMachineSet ns n]\<rparr>"
  shows "case q of
      Inl err \<Rightarrow> out = (if IsNotFound err then Ok () else Err err) \<and> s' = s \<and> w' = w1
    | Inr ms \<Rightarrow>
        if \<not> isZeroTime (DeletionTimestamp ms) then out = Ok () \<and> s' = s \<and> w' = w1
        else (case reconcile lib r (s\<lparr>theSet := ms\<rparr>, w1) of (res, (s1, w2)) \<Rightarrow>
          \<exists>reads warned. list_all readOnly reads \<and> list_all (\<lambda>ev. ev_Reason ev = ''FailedUpdate'') warned \<and>
           (if \<exists>c. res = Crash c
            then (\<exists>c. out = Crash c) \<and> calls w' = calls w @ [CallGetMachineSet ns n] @ reads \<and> events w' = events w @ warned
            else
              calls w' = calls w @ [CallGetMachineSet ns n] @ reads @ [CallPatchMachineSet (theSet s1) ms] \<and>
              events w' = events w @ warned @ (case res of
                Err err \<Rightarrow> [\<lparr>ev_Object = set_Name (theSet s1), ev_Type = EventTypeWarning, ev_Reason = ''ReconcileError'', ev_Message = Error err\<rparr>]
              | _ \<Rightarrow> []) \<and>
              (case fst (PatchMachineSet (set_Client r) (theSet s1) ms (ext w2)) of
                 Inl err \<Rightarrow> out = Err (errorfV ''failed to patch machineSet: '' err)
               | Inr _ \<Rightarrow> out = (case res of Err err \<Rightarrow> (if isInvalidConfigurationError (Some err) then Ok () else Err err) | _ \<Rightarrow> Ok ()))))"
proof -
  note steps = Reconcile_steps [OF assms(2,3), folded w1_def]
  show ?thesis
  proof (cases q)
    case (Inr ms)
    obtain res s1 w2 where res: "reconcile lib r (s\<lparr>theSet := ms\<rparr>, w1) = (res, (s1, w2))" by (metis prod.exhaust)
    obtain reads warned where "passLog w1 w2 reads warned" using reconcile_log [OF assms(1) res] .
    then have "calls w2 = calls w @ [CallGetMachineSet ns n] @ reads" "list_all readOnly reads" "events w2 = events w @ warned"
      "list_all (\<lambda>ev. ev_Reason ev = ''FailedUpdate'') warned"
      by (simp_all add: passLog_def w1_def)
    with steps Inr res show ?thesis
      by (auto simp: split: if_splits intro!: exI [of _ reads] exI [of _ warned])
  qed (use steps in simp)
qed

text \<open>A machine set and a controller over the sample services.\<close>

definition sampleSet :: MachineSet where
  "sampleSet = \<lparr>set_Name = ''workers'', set_Namespace = ''openshift-machine-api'', DeletionTimestamp = None,
     set_Annotations = None, TemplateProviderSpec = Some ''{}''\<rparr>"

definition sampleSetReconciler :: "unit setReconciler" where
  "sampleSetReconciler = \<lparr>set_Client = sampleClient, getGCPService = (\<lambda>_ _. ret sampleService)\<rparr>"

definition sampleState :: setState where
  "sampleState = \<lparr>machineTypesCache = newMachineTypesCache, theSet = sampleSet\<rparr>"

theorem getMachineTypeFromCache_spec_witness:
  "\<exists>s w. getMachineTypeFromCache sampleService ''p1'' ''r1-a'' ''n1-standard-4'' (sampleState, sampleWorld) =
       (Ok (Some \<lparr>mt_Name = ''n1-standard-4'', GuestCpus = 4, MemoryMb = 15360, Accelerators = []\<rparr>), (s, w)) \<and>
     getMachineTypeFromCache sampleService ''p2'' ''r1-a'' ''n1-standard-4'' (s, w) =
       (Ok (Some \<lparr>mt_Name = ''n1-standard-4'', GuestCpus = 4, MemoryMb = 15360, Accelerators = []\<rparr>), (s, w))"
proof -
  obtain r s' w' where run: "getMachineTypeFromCache sampleService ''p1'' ''r1-a'' ''n1-standard-4'' (sampleState, sampleWorld) = (r, (s', w'))"
    by (metis prod.exhaust)
  have "machineTypesCache sampleState (''r1-a'', ''n1-standard-4'') = None"
    "fst (MachineTypesGet sampleService ''p1'' ''r1-a'' ''n1-standard-4'' (ext sampleWorld)) =
       Inr (Some \<lparr>mt_Name = ''n1-standard-4'', GuestCpus = 4, MemoryMb = 15360, Accelerators = []\<rparr>)"
    by (simp_all add: sampleState_def newMachineTypesCache_def sampleService_def)
  with getMachineTypeFromCache_spec [OF run, where ?'b = unit] run show ?thesis by simp
qed

lemma sample_image:
  "parseImageReference ''projects/rhcos/global/images/i'' ''p1'' =
     Inr \<lparr>ir_Project = ''rhcos'', ir_Image = ''i'', ir_IsFamily = False\<rparr>"
  by code_simp

lemma sample_uefi: "\<exists>w'. IsUEFICompatible sampleService sampleSpec w = (Ok True, w')"
  by (simp add: IsUEFICompatible_def sampleSpec_def zeroProviderSpec_def sampleDisk_def sample_image go_simps
      checkImageUEFICompatible_def sampleService_def hasUEFIFeature_def EqualFold_def UEFICompatible_def)

lemma sample_reconcile: "fst (reconcile sampleLib sampleSetReconciler (sampleState, sampleWorld)) = Ok ()"
proof -
  have "fst (disableShielded sampleLib sampleService sampleSpec (s, w)) = Ok ()" for s w
    using sample_uefi [of w] by (auto simp: disableShielded_def go_simps)
  moreover have "\<exists>x s w. getMachineTypeFromCache sampleService (ps_ProjectID sampleSpec) (Zone sampleSpec) (ps_MachineType sampleSpec)
      (sampleState, sampleWorld) = (Ok (Some x), (s, w))"
    by (simp add: getMachineTypeFromCache_def sampleState_def newMachineTypesCache_def sampleService_def go_simps)
  moreover have "getproviderConfig sampleLib (theSet sampleState) = Inr (Some sampleSpec)"
    by (simp add: getproviderConfig_def sampleState_def sampleSet_def sampleLib_def ProviderSpecFromRawExtension_def)
  ultimately show ?thesis
    by (auto simp: reconcile_def sampleSetReconciler_def go_simps)
qed

theorem reconcile_spec_witness:
  "\<exists>s w. reconcile sampleLib sampleSetReconciler (sampleState, sampleWorld) = (Ok (), (s, w)) \<and>
     theSet s = annotated sampleLib sampleSpec \<lparr>mt_Name = ''n1-standard-4'', GuestCpus = 4, MemoryMb = 15360, Accelerators = []\<rparr> sampleSet"
proof -
  obtain s' w' where run: "reconcile sampleLib sampleSetReconciler (sampleState, sampleWorld) = (Ok (), (s', w'))"
    using sample_reconcile by (metis prod.exhaust fst_conv)
  have spec: "getproviderConfig sampleLib (theSet sampleState) = Inr (Some sampleSpec)"
    by (simp add: getproviderConfig_def sampleState_def sampleSet_def sampleLib_def ProviderSpecFromRawExtension_def)
  obtain w2 where ask: "knownType sampleService sampleSpec sampleState sampleWorld =
      (Inr (Some \<lparr>mt_Name = ''n1-standard-4'', GuestCpus = 4, MemoryMb = 15360, Accelerators = []\<rparr>), w2)"
    by (simp add: knownType_def sampleState_def newMachineTypesCache_def sampleService_def sampleSpec_def)
  obtain w3 where "IsUEFICompatible sampleService sampleSpec w2 = (Ok True, w3)" using sample_uefi by blast
  with reconcile_spec [OF run] spec ask
  have "theSet s' = annotated sampleLib sampleSpec \<lparr>mt_Name = ''n1-standard-4'', GuestCpus = 4, MemoryMb = 15360, Accelerators = []\<rparr> sampleSet"
    by (simp add: sampleSetReconciler_def run_basic passed_def sampleState_def annotated_def)
  with run show ?thesis by simp
qed

text \<open>The request for a machine set that is gone, by a controller with the real services.\<close>

theorem Reconcile_spec_witness:
  "\<exists>s w. Reconcile sampleLib \<lparr>set_Client = sampleClient\<lparr>GetMachineSet := (\<lambda>_ _ e. (Inl (StatusError ''NotFound'' 404 ''gone''), e))\<rparr>,
       getGCPService = getRealGCPService sampleClient (\<lambda>_. Inr sampleService)\<rparr> ''ns'' ''workers'' (sampleState, sampleWorld) = (Ok (), (s, w)) \<and>
     calls w = [CallGetMachineSet ''ns'' ''workers'']"
proof -
  let ?r = "\<lparr>set_Client = sampleClient\<lparr>GetMachineSet := (\<lambda>_ _ e. (Inl (StatusError ''NotFound'' 404 ''gone''), e))\<rparr>,
       getGCPService = getRealGCPService sampleClient (\<lambda>_. Inr sampleService)\<rparr>"
  obtain out s' w' where run: "Reconcile sampleLib ?r ''ns'' ''workers'' (sampleState, sampleWorld) = (out, (s', w'))"
    by (metis prod.exhaust)
  have "readingServices ?r" by (simp add: readingServices_def getRealGCPService_reads)
  from Reconcile_spec [OF this _ run, of "Inl (StatusError ''NotFound'' 404 ''gone'')" "()"] run
  show ?thesis by (auto simp: IsNotFound_def sampleWorld_def)
qed

end
