(* ===== verification/MachineSet_Convergence.thy ===== *)
theory MachineSet_Convergence
  imports MachineSet_Controller
begin

text \<open>
  Whether the machine set controller comes to rest.  A patch that changes the machine set causes
  another request for it, so the annotations should be a fixed point.  A request may see
  the map of labels in another order than the one before; an order is a \<open>golib\<close> here.
\<close>

section \<open>Rendering labels\<close>

definition renderPairs :: "golib \<Rightarrow> gomap \<Rightarrow> string" where
  "renderPairs lib m = Join (map (\<lambda>(k, v). k @ ''='' @ v) (rangeMap lib m)) '',''"

definition capacityLabels :: "GCPMachineProviderSpec \<Rightarrow> string \<Rightarrow> gomap" where
  "capacityLabels spec old =
     mergePairs (mergePairs fmempty (''kubernetes.io/arch='' @ archString (CPUArchitecture (ps_MachineType spec)))) old"

lemma annotate_render:
  "annotate lib spec mt anns = fmupd labelsKey (renderPairs lib (capacityLabels spec (mapIndex (Some anns) labelsKey)))
     (fmupd gpuKey (Itoa (gpuCount spec mt)) (fmupd memoryKey (Itoa (sint (MemoryMb mt))) (fmupd cpuKey (Itoa (sint (GuestCpus mt))) anns)))"
  by (simp add: annotate_def Let_def MergeCommaSeparatedKeyValuePairs_def renderPairs_def capacityLabels_def not_sym)

lemma capacityLabels_plain: "plainMap (capacityLabels spec old)"
  unfolding capacityLabels_def by (intro mergePairs_plain) (simp add: plainMap_def)

lemma read_render: "rangesOver lib \<Longrightarrow> plainMap m \<Longrightarrow> readPairs (renderPairs lib m) = fmlookup m"
  unfolding renderPairs_def rangesOver_def by (intro readPairs_render) auto

lemma capacityLabels_read:
  "fmlookup (capacityLabels spec old) =
     readPairs (''kubernetes.io/arch='' @ archString (CPUArchitecture (ps_MachineType spec))) ++ readPairs old"
  unfolding capacityLabels_def readPairs_def mergePairs_def by (rule fold_override)

text \<open>Merging the architecture into labels that have it already changes nothing.\<close>

lemma capacityLabels_again:
  assumes "rangesOver lib"
  shows "capacityLabels spec (renderPairs lib (capacityLabels spec old)) = capacityLabels spec old"
proof (rule fmap_ext)
  fix k
  let ?arch = "''kubernetes.io/arch='' @ archString (CPUArchitecture (ps_MachineType spec))"
  have "fmlookup (capacityLabels spec (renderPairs lib (capacityLabels spec old))) =
      readPairs ?arch ++ (readPairs ?arch ++ readPairs old)"
    by (simp add: capacityLabels_read [of spec "renderPairs lib (capacityLabels spec old)"]
        read_render [OF assms capacityLabels_plain] capacityLabels_read)
  then show "fmlookup (capacityLabels spec (renderPairs lib (capacityLabels spec old))) k = fmlookup (capacityLabels spec old) k"
    by (simp add: capacityLabels_read map_add_def split: option.splits)
qed

lemma fmupd_same: "fmlookup m k = Some v \<Longrightarrow> fmupd k v m = m"
  by (rule fmap_ext) auto

lemma annotate_again:
  assumes "rangesOver lib"
  shows "annotate lib' spec mt (annotate lib spec mt anns) =
    fmupd labelsKey (renderPairs lib' (capacityLabels spec (mapIndex (Some anns) labelsKey))) (annotate lib spec mt anns)"
proof -
  let ?A = "annotate lib spec mt anns"
  have "mapIndex (Some (annotate lib spec mt anns)) labelsKey = renderPairs lib (capacityLabels spec (mapIndex (Some anns) labelsKey))"
    by (simp add: annotate_render mapIndex_def)
  moreover have "fmlookup ?A cpuKey = Some (Itoa (sint (GuestCpus mt)))" "fmlookup ?A memoryKey = Some (Itoa (sint (MemoryMb mt)))"
    "fmlookup ?A gpuKey = Some (Itoa (gpuCount spec mt))"
    by (simp_all add: annotate_render not_sym)
  moreover note annotate_render [of lib' spec mt ?A]
  ultimately show ?thesis by (simp add: fmupd_same capacityLabels_again [OF assms])
qed

section \<open>Orders\<close>

lemma rangeMap_set:
  assumes "rangesOver lib"
  shows "set (rangeMap lib m) = {(k, v). fmlookup m k = Some v}" and "length (rangeMap lib m) = card (dom (fmlookup m))"
proof -
  have d: "distinct (map fst (rangeMap lib m))" and m: "map_of (rangeMap lib m) = fmlookup m"
    using assms by (auto simp: rangesOver_def)
  show "set (rangeMap lib m) = {(k, v). fmlookup m k = Some v}"
    using d by (auto simp: m [symmetric])
  have "card (dom (fmlookup m)) = card (set (map fst (rangeMap lib m)))"
    by (simp add: m [symmetric] dom_map_of_conv_image_fst)
  with distinct_card [OF d] show "length (rangeMap lib m) = card (dom (fmlookup m))" by simp
qed

lemma render_single:
  assumes "rangesOver lib" and "rangesOver lib'" and "card (dom (fmlookup m)) \<le> 1"
  shows "renderPairs lib' m = renderPairs lib m"
proof -
  have "length (rangeMap lib m) \<le> 1" "length (rangeMap lib' m) = length (rangeMap lib m)"
    "set (rangeMap lib' m) = set (rangeMap lib m)"
    using assms by (simp_all add: rangeMap_set)
  then have "rangeMap lib' m = rangeMap lib m"
    by (cases "rangeMap lib m"; cases "rangeMap lib' m") auto
  then show ?thesis by (simp add: renderPairs_def)
qed

text \<open>The same order, but for one map, which is seen backwards.\<close>

definition backwards :: "golib \<Rightarrow> gomap \<Rightarrow> golib" where
  "backwards lib m = lib\<lparr>rangeMap := (rangeMap lib)(m := rev (rangeMap lib m))\<rparr>"

lemma backwards_ranges:
  assumes "rangesOver lib"
  shows "rangesOver (backwards lib m)"
proof -
  have d: "distinct (map fst (rangeMap lib m))" and m: "map_of (rangeMap lib m) = fmlookup m"
    using assms by (auto simp: rangesOver_def)
  have "map_of (rev (rangeMap lib m)) = fmlookup m"
    using d m map_of_inject_set [of "rev (rangeMap lib m)" "rangeMap lib m"] by (simp add: rev_map [symmetric])
  with assms d show ?thesis by (auto simp: rangesOver_def backwards_def rev_map [symmetric])
qed

lemma render_inject:
  assumes "plainMap m" and "rangesOver lib" and "rangesOver lib'" and "renderPairs lib' m = renderPairs lib m"
  shows "rangeMap lib' m = rangeMap lib m"
proof -
  let ?f = "\<lambda>(k, v). k @ ''='' @ v"
  have plain: "CHR '','' \<notin> set k \<and> CHR ''='' \<notin> set k \<and> CHR '','' \<notin> set v \<and> CHR ''='' \<notin> set v"
    if "(k, v) \<in> set (rangeMap lib m) \<union> set (rangeMap lib' m)" for k v
    using that assms(1) by (auto simp: rangeMap_set [OF assms(2)] rangeMap_set [OF assms(3)] plainMap_def)
  have len: "length (rangeMap lib' m) = length (rangeMap lib m)"
    by (simp add: rangeMap_set [OF assms(2)] rangeMap_set [OF assms(3)])
  show ?thesis
  proof (cases "rangeMap lib m")
    case Nil
    with len show ?thesis by simp
  next
    case (Cons x xs)
    then have "map ?f (rangeMap lib m) \<noteq> []" "map ?f (rangeMap lib' m) \<noteq> []" using len by auto
    moreover have "\<forall>w\<in>set (map ?f (rangeMap lib m)). CHR '','' \<notin> set w" "\<forall>w\<in>set (map ?f (rangeMap lib' m)). CHR '','' \<notin> set w"
      using plain by auto
    ultimately have "map ?f (rangeMap lib' m) = map ?f (rangeMap lib m)"
      using assms(4) unfolding renderPairs_def by (metis Split_Join)
    moreover have "inj_on ?f (set (rangeMap lib' m) \<union> set (rangeMap lib m))"
    proof (rule inj_onI, clarify)
      fix k v k' v' assume "(k, v) \<in> set (rangeMap lib' m) \<union> set (rangeMap lib m)"
        "(k', v') \<in> set (rangeMap lib' m) \<union> set (rangeMap lib m)" and eq: "k @ ''='' @ v = k' @ ''='' @ v'"
      then have "CHR ''='' \<notin> set k" "CHR ''='' \<notin> set v" using plain by blast+
      with eq show "k = k' \<and> v = v'" using append_Cons_eq_iff [of "CHR ''=''" k v k' v'] by simp
    qed
    ultimately show ?thesis by (rule map_inj_on)
  qed
qed

lemma palindrome:
  assumes "rev xs = xs" and "distinct xs"
  shows "length xs \<le> 1"
proof (cases xs)
  case (Cons x ys)
  have "last xs = x" using assms(1) Cons by (metis hd_rev list.sel(1))
  then have "ys = []" using assms(2) Cons by (metis distinct.simps(2) last_ConsR last_in_set)
  with Cons show ?thesis by simp
qed simp

lemma render_orders:
  assumes "plainMap m" and "rangesOver lib"
  shows "(\<forall>lib'. rangesOver lib' \<longrightarrow> renderPairs lib' m = renderPairs lib m) \<longleftrightarrow> card (dom (fmlookup m)) \<le> 1"
proof
  assume "card (dom (fmlookup m)) \<le> 1"
  with render_single [OF assms(2)] show "\<forall>lib'. rangesOver lib' \<longrightarrow> renderPairs lib' m = renderPairs lib m" by blast
next
  assume "\<forall>lib'. rangesOver lib' \<longrightarrow> renderPairs lib' m = renderPairs lib m"
  then have "rangeMap (backwards lib m) m = rangeMap lib m"
    using render_inject [OF assms backwards_ranges] backwards_ranges assms(2) by blast
  then have rev: "rev (rangeMap lib m) = rangeMap lib m" by (simp add: backwards_def)
  have distinct: "distinct (rangeMap lib m)" using assms(2) by (auto simp: rangesOver_def distinct_map)
  from palindrome [OF rev distinct] have "length (rangeMap lib m) \<le> 1" .
  then show "card (dom (fmlookup m)) \<le> 1" by (simp add: rangeMap_set(2) [OF assms(2)])
qed

section \<open>Properties\<close>

text \<open>
  C26. The annotations under repeated reconciliation.  Once the controller has annotated a machine
  set, another pass for the same machine type changes nothing of what the annotations mean,
  in whatever order the map of labels is seen: every other annotation is the same text and
  the labels read the same.  The text of the labels, however, is the same for every order
  only if there is at most one label; with a label besides the architecture, a pass may
  write another text, and so cause the next one.
\<close>

theorem annotate_settles:
  fixes spec mt anns
  assumes "rangesOver lib"
  defines "A \<equiv> annotate lib spec mt anns"
  shows "(\<forall>lib'. rangesOver lib' \<longrightarrow>
      (\<forall>k. k \<noteq> labelsKey \<longrightarrow> fmlookup (annotate lib' spec mt A) k = fmlookup A k) \<and>
      readPairs (mapIndex (Some (annotate lib' spec mt A)) labelsKey) = readPairs (mapIndex (Some A) labelsKey)) \<and>
    ((\<forall>lib'. rangesOver lib' \<longrightarrow> annotate lib' spec mt A = A) \<longleftrightarrow>
       card (dom (readPairs (mapIndex (Some A) labelsKey))) \<le> 1)"
proof -
  let ?m = "capacityLabels spec (mapIndex (Some anns) labelsKey)"
  have again: "annotate lib' spec mt A = fmupd labelsKey (renderPairs lib' ?m) A" for lib'
    unfolding A_def using assms(1) by (rule annotate_again)
  have labels: "fmlookup A labelsKey = Some (renderPairs lib ?m)" by (simp add: A_def annotate_render)
  have read: "readPairs (renderPairs lib' ?m) = fmlookup ?m" if "rangesOver lib'" for lib'
    using that capacityLabels_plain by (rule read_render)
  have "annotate lib' spec mt A = A \<longleftrightarrow> renderPairs lib' ?m = renderPairs lib ?m" for lib'
    unfolding again using labels fmupd_same [of A labelsKey] by (metis fmupd_lookup option.inject)
  with render_orders [OF capacityLabels_plain assms(1)] read [OF assms(1)]
  have "(\<forall>lib'. rangesOver lib' \<longrightarrow> annotate lib' spec mt A = A) \<longleftrightarrow>
      card (dom (readPairs (mapIndex (Some A) labelsKey))) \<le> 1"
    by (simp add: mapIndex_def labels)
  then show ?thesis using read assms(1) by (simp add: again mapIndex_def labels)
qed

text \<open>With one label of the user, some order writes another text.\<close>

definition n1Standard :: MachineType where
  "n1Standard = \<lparr>mt_Name = ''n1-standard-4'', GuestCpus = 4, MemoryMb = 15360, Accelerators = []\<rparr>"

lemma annotate_labels_read:
  "rangesOver lib \<Longrightarrow> readPairs (mapIndex (Some (annotate lib spec mt anns)) labelsKey) =
     readPairs (''kubernetes.io/arch='' @ archString (CPUArchitecture (ps_MachineType spec))) ++
     readPairs (mapIndex (Some anns) labelsKey)"
  by (simp add: annotate_render mapIndex_def [of "Some (fmupd labelsKey _ _)"] read_render capacityLabels_plain capacityLabels_read)

lemma readPairs_sample:
  "readPairs (''kubernetes.io/arch='' @ archString arch) = [''kubernetes.io/arch'' \<mapsto> archString arch]"
  "readPairs ''a=b'' = [''a'' \<mapsto> ''b'']" "readPairs '''' = Map.empty"
  by (cases arch) (simp_all add: readPairs_def mergePairs_def pairStep_def fun_eq_iff)

theorem annotate_settles_witness:
  "\<exists>lib'. rangesOver lib' \<and>
     annotate lib' sampleSpec n1Standard (annotate sampleLib sampleSpec n1Standard (fmupd labelsKey ''a=b'' fmempty)) \<noteq>
       annotate sampleLib sampleSpec n1Standard (fmupd labelsKey ''a=b'' fmempty)"
proof -
  let ?A = "annotate sampleLib sampleSpec n1Standard (fmupd labelsKey ''a=b'' fmempty)"
  have "mapIndex (Some (fmupd labelsKey ''a=b'' fmempty)) labelsKey = ''a=b''" by (simp add: mapIndex_def)
  then have "\<not> card (dom (readPairs (mapIndex (Some ?A) labelsKey))) \<le> 1"
    unfolding annotate_labels_read [OF sampleLib_ranges] by (simp only: readPairs_sample) simp
  with annotate_settles [OF sampleLib_ranges, of sampleSpec n1Standard "fmupd labelsKey ''a=b'' fmempty"] show ?thesis by blast
qed


section \<open>The controller at rest\<close>

text \<open>
  A machine set that a pass has annotated, whose machine type is cached, and whose template says
  what is to become of the shielded options: nothing is left to be decided.
\<close>

definition settled :: "golib \<Rightarrow> setState \<Rightarrow> MachineSet \<Rightarrow> bool" where
  "settled lib s ms \<longleftrightarrow> (\<exists>spec mt order anns. rangesOver order \<and>
     getproviderConfig lib ms = Inr (Some spec) \<and> ShieldedInstanceConfig spec \<noteq> zeroShielded \<and>
     machineTypesCache s (Zone spec, ps_MachineType spec) = Some (Some mt) \<and>
     set_Annotations ms = Some (annotate order spec mt anns))"

lemma disableShielded_kept:
  "ShieldedInstanceConfig spec \<noteq> zeroShielded \<Longrightarrow> disableShielded lib svc spec (s, w) = (res, (s', w')) \<Longrightarrow> s' = s"
  by (auto simp: disableShielded_def go_simps split: prod.splits outcome.splits)

lemma reconcile_again:
  assumes "reconcile lib r (s, w) = (res, (s', w'))" and "getproviderConfig lib (theSet s) = Inr (Some spec)"
    and "ShieldedInstanceConfig spec \<noteq> zeroShielded" and "machineTypesCache s (Zone spec, ps_MachineType spec) = Some (Some mt)"
  shows "s' = s \<or> s' = s\<lparr>theSet := annotated lib spec mt (theSet s)\<rparr>"
proof -
  obtain q w1 where svc: "getGCPService r (set_Namespace (theSet s)) spec w = (q, w1)" by force
  show ?thesis
  proof (cases q)
    case (Ok svc')
    have "getMachineTypeFromCache svc' (ps_ProjectID spec) (Zone spec) (ps_MachineType spec) (s, w1) = (Ok (Some mt), (s, w1))"
      using assms(4) by (simp add: getMachineTypeFromCache_def go_simps)
    with assms(1,2) svc Ok have
      "disableShielded lib svc' spec (s\<lparr>theSet := annotated lib spec mt (theSet s)\<rparr>, w1) = (res, (s', w'))"
      by (simp add: reconcile_def seq_run state_run pureCall_def onErr_run onSnd_run run_basic annotated_def ensureMap_theMap)
    then show ?thesis using disableShielded_kept [OF assms(3)] by blast
  qed (use assms(1,2) svc in \<open>auto simp: reconcile_def seq_run state_run pureCall_def onErr_run onSnd_run run_basic\<close>)
qed


lemma settled_cache: "machineTypesCache s' = machineTypesCache s \<Longrightarrow> settled lib s' ms = settled lib s ms"
  by (simp add: settled_def)

text \<open>Annotating once more: the labels are written anew, from the same map.\<close>

lemma annotated_again:
  assumes "rangesOver order" and "rangesOver lib" and "set_Annotations ms = Some (annotate order spec mt anns)"
  obtains t where "annotated lib spec mt ms = ms\<lparr>set_Annotations := Some (fmupd labelsKey t (theMap (set_Annotations ms)))\<rparr>"
    and "readPairs t = readPairs (mapIndex (set_Annotations ms) labelsKey)"
    and "card (dom (readPairs (mapIndex (set_Annotations ms) labelsKey))) \<le> 1 \<Longrightarrow> annotated lib spec mt ms = ms"
proof -
  let ?m = "capacityLabels spec (mapIndex (Some anns) labelsKey)" and ?A = "annotate order spec mt anns"
  have again: "annotated lib spec mt ms = ms\<lparr>set_Annotations := Some (fmupd labelsKey (renderPairs lib ?m) ?A)\<rparr>"
    by (simp add: annotated_def assms(3) theMap_def annotate_again [OF assms(1)])
  have label: "mapIndex (set_Annotations ms) labelsKey = renderPairs order ?m"
    by (simp add: assms(3) mapIndex_def annotate_render)
  have read: "readPairs (renderPairs l ?m) = fmlookup ?m" if "rangesOver l" for l
    using that capacityLabels_plain by (rule read_render)
  have "annotated lib spec mt ms = ms" if "card (dom (fmlookup ?m)) \<le> 1"
  proof -
    have "renderPairs lib ?m = renderPairs order ?m" using render_single [OF assms(1) assms(2) that] .
    moreover have "fmlookup ?A labelsKey = Some (renderPairs order ?m)" by (simp add: annotate_render)
    ultimately have "fmupd labelsKey (renderPairs lib ?m) ?A = ?A" by (simp add: fmupd_same)
    with again assms(3) show ?thesis by simp
  qed
  with again label read assms show ?thesis by (intro that [of "renderPairs lib ?m"]) (simp_all add: theMap_def)
qed

lemma settled_annotated:
  assumes "getproviderConfig lib ms = Inr (Some spec)" and "ShieldedInstanceConfig spec \<noteq> zeroShielded"
    and "machineTypesCache s (Zone spec, ps_MachineType spec) = Some (Some mt)" and "rangesOver lib"
  shows "settled lib s (annotated lib spec mt ms)"
  unfolding settled_def
  by (rule exI [of _ spec], rule exI [of _ mt], rule exI [of _ lib], rule exI [of _ "theMap (set_Annotations ms)"])
    (use assms in \<open>simp add: annotated_def getproviderConfig_def\<close>)


lemma Reconcile_last_patch:
  assumes "GetMachineSet (set_Client r) ns n (ext w) = (Inr ms, e)" and "isZeroTime (DeletionTimestamp ms)"
    and "Reconcile lib r ns n (s, w) = (out, (s', w'))" and "\<And>c. out \<noteq> Crash c"
  obtains res s1 w1 w2 where "reconcile lib r (s\<lparr>theSet := ms\<rparr>, w1) = (res, (s1, w2))"
    and "calls w' = calls w2 @ [CallPatchMachineSet (theSet s1) ms]" and "machineTypesCache s' = machineTypesCache s1"
proof -
  let ?w = "w\<lparr>ext := e, calls := calls w @ [CallGetMachineSet ns n]\<rparr>"
  obtain res s1 w2 where res: "reconcile lib r (s\<lparr>theSet := ms\<rparr>, ?w) = (res, (s1, w2))" by (metis prod.exhaust)
  note run = assms(3) [unfolded Reconcile_reads [OF assms(1,2)]]
  have "res \<noteq> Crash c" for c
  proof
    assume "res = Crash c"
    with run res have "out = Crash c" by (simp add: seq_run attempt_run)
    with assms(4) show False by blast
  qed
  moreover have "machineTypesCache s' = machineTypesCache s1"
    using run res assms(4)
    by (cases res) (auto simp: seq_run attempt_run state_run setEvent_def recordEvent_def onSnd_run onErr_run invoke_def run_basic
        split: sum.splits prod.splits if_splits)
  ultimately show ?thesis using that [OF res] Reconcile_steps [OF assms(1,3)] assms(2) res by simp
qed

text \<open>
  C25. The controller at rest.  Once a machine set is settled, every later pass over it, whatever the
  services answer and whether it succeeds or fails, ends with a patch that says the same:
  nothing but the text of the labels can differ from the object read, the labels read as
  before, and with at most one label nothing differs at all, so that no further pass is
  caused.  The patched machine set is settled again.
\<close>

theorem Reconcile_settles:
  assumes "rangesOver lib" and "settled lib s ms"
    and "GetMachineSet (set_Client r) ns n (ext w) = (Inr ms, e)" and "isZeroTime (DeletionTimestamp ms)"
    and "Reconcile lib r ns n (s, w) = (out, (s', w'))" and "\<And>c. out \<noteq> Crash c"
  shows "\<exists>modified cs. calls w' = cs @ [CallPatchMachineSet modified ms] \<and> settled lib s' modified \<and>
    (\<exists>t. modified = ms\<lparr>set_Annotations := Some (fmupd labelsKey t (theMap (set_Annotations ms)))\<rparr> \<and>
       readPairs t = readPairs (mapIndex (set_Annotations ms) labelsKey)) \<and>
    (card (dom (readPairs (mapIndex (set_Annotations ms) labelsKey))) \<le> 1 \<longrightarrow> modified = ms)"
proof -
  obtain spec mt order anns where order: "rangesOver order" and spec: "getproviderConfig lib ms = Inr (Some spec)"
    and shielded: "ShieldedInstanceConfig spec \<noteq> zeroShielded"
    and cached: "machineTypesCache s (Zone spec, ps_MachineType spec) = Some (Some mt)"
    and anns: "set_Annotations ms = Some (annotate order spec mt anns)"
    using assms(2) unfolding settled_def by blast
  obtain res s1 w1 w2 where run: "reconcile lib r (s\<lparr>theSet := ms\<rparr>, w1) = (res, (s1, w2))"
    and patch: "calls w' = calls w2 @ [CallPatchMachineSet (theSet s1) ms]" and cache: "machineTypesCache s' = machineTypesCache s1"
    using Reconcile_last_patch [OF assms(3-6)] .
  have "s1 = s\<lparr>theSet := ms\<rparr> \<or> s1 = s\<lparr>theSet := annotated lib spec mt ms\<rparr>"
    using reconcile_again [OF run] spec shielded cached by simp
  then have modified: "theSet s1 = ms \<or> theSet s1 = annotated lib spec mt ms" and "machineTypesCache s1 = machineTypesCache s" by auto
  then have rest: "settled lib s' m = settled lib s m" for m using cache by (intro settled_cache) simp
  obtain t where t: "annotated lib spec mt ms = ms\<lparr>set_Annotations := Some (fmupd labelsKey t (theMap (set_Annotations ms)))\<rparr>"
    "readPairs t = readPairs (mapIndex (set_Annotations ms) labelsKey)"
    "card (dom (readPairs (mapIndex (set_Annotations ms) labelsKey))) \<le> 1 \<Longrightarrow> annotated lib spec mt ms = ms"
    by (rule annotated_again [OF order assms(1) anns]) blast
  have "fmlookup (annotate order spec mt anns) labelsKey = Some (mapIndex (set_Annotations ms) labelsKey)"
    unfolding anns mapIndex_def by (simp add: annotate_render)
  then have "fmupd labelsKey (mapIndex (set_Annotations ms) labelsKey) (annotate order spec mt anns) = annotate order spec mt anns"
    by (rule fmupd_same)
  moreover have "theMap (set_Annotations ms) = annotate order spec mt anns" by (simp only: anns theMap_def option.case)
  ultimately have "ms\<lparr>set_Annotations := Some (fmupd labelsKey (mapIndex (set_Annotations ms) labelsKey) (theMap (set_Annotations ms)))\<rparr> =
      ms\<lparr>set_Annotations := set_Annotations ms\<rparr>" by (simp only: anns)
  also have "\<dots> = ms" by simp
  finally have same: "ms = ms\<lparr>set_Annotations := Some (fmupd labelsKey (mapIndex (set_Annotations ms) labelsKey) (theMap (set_Annotations ms)))\<rparr>" ..
  from modified show ?thesis
  proof
    assume "theSet s1 = ms"
    with patch have "calls w' = calls w2 @ [CallPatchMachineSet ms ms]" by simp
    moreover have "settled lib s' ms" using rest assms(2) by simp
    ultimately show ?thesis using same by (intro exI [of _ ms] exI [of _ "calls w2"] conjI exI [of _ "mapIndex (set_Annotations ms) labelsKey"]) simp_all
  next
    assume "theSet s1 = annotated lib spec mt ms"
    with patch have "calls w' = calls w2 @ [CallPatchMachineSet (annotated lib spec mt ms) ms]" by simp
    moreover have "settled lib s' (annotated lib spec mt ms)" using rest settled_annotated [OF spec shielded cached assms(1)] by simp
    ultimately show ?thesis using t by (intro exI [of _ "annotated lib spec mt ms"] exI [of _ "calls w2"] conjI exI [of _ t] impI)
  qed
qed


text \<open>A machine set after its first pass, read again by the controller: the patch is the object itself.\<close>

definition restSet :: MachineSet where
  "restSet = annotated sampleLib sampleSpec n1Standard sampleSet"

definition restState :: setState where
  "restState = \<lparr>machineTypesCache = [(''r1-a'', ''n1-standard-4'') \<mapsto> Some n1Standard], theSet = sampleSet\<rparr>"

definition restReconciler :: "unit setReconciler" where
  "restReconciler = sampleSetReconciler\<lparr>set_Client := sampleClient\<lparr>GetMachineSet := (\<lambda>_ _ e. (Inr restSet, e))\<rparr>\<rparr>"

lemma rest_settled: "settled sampleLib restState restSet"
  unfolding restSet_def
proof (rule settled_annotated [OF _ _ _ sampleLib_ranges])
  show "getproviderConfig sampleLib sampleSet = Inr (Some sampleSpec)"
    by (simp add: getproviderConfig_def sampleSet_def sampleLib_def ProviderSpecFromRawExtension_def)
  show "ShieldedInstanceConfig sampleSpec \<noteq> zeroShielded" by (simp add: sampleSpec_def zeroShielded_def)
  show "machineTypesCache restState (Zone sampleSpec, ps_MachineType sampleSpec) = Some (Some n1Standard)"
    by (simp add: restState_def sampleSpec_def zeroProviderSpec_def)
qed

lemma rest_read:
  "GetMachineSet (set_Client restReconciler) ns n e = (Inr restSet, e)" "isZeroTime (DeletionTimestamp restSet)"
  by (simp_all add: restReconciler_def restSet_def annotated_def sampleSet_def isZeroTime_def)

lemma rest_reconciles: "fst (reconcile sampleLib restReconciler (restState\<lparr>theSet := restSet\<rparr>, w)) = Ok ()"
proof -
  have shielded: "fst (disableShielded sampleLib sampleService sampleSpec (s, v)) = Ok ()" for s v
    using sample_uefi [of v] by (auto simp: disableShielded_def go_simps)
  have hit: "getMachineTypeFromCache sampleService p (Zone sampleSpec) (ps_MachineType sampleSpec) (restState\<lparr>theSet := restSet\<rparr>, v) =
      (Ok (Some n1Standard), (restState\<lparr>theSet := restSet\<rparr>, v))" for p v
    by (simp add: getMachineTypeFromCache_def restState_def sampleSpec_def zeroProviderSpec_def go_simps)
  have spec: "getproviderConfig sampleLib restSet = Inr (Some sampleSpec)"
    by (simp add: getproviderConfig_def restSet_def annotated_def sampleSet_def sampleLib_def ProviderSpecFromRawExtension_def)
  show ?thesis
    by (simp add: reconcile_def restReconciler_def sampleSetReconciler_def seq_run state_run pureCall_def onErr_run onSnd_run run_basic
        spec hit shielded)
qed

lemma rest_runs: "fst (Reconcile sampleLib restReconciler ns n (restState, w)) = Ok ()"
proof -
  have patch: "PatchMachineSet (set_Client restReconciler) m b e = (Inr m, e)" for m b e
    by (simp add: restReconciler_def sampleClient_def)
  obtain s1 w1 where "reconcile sampleLib restReconciler (restState\<lparr>theSet := restSet\<rparr>, w\<lparr>ext := ext w, calls := calls w @ [CallGetMachineSet ns n]\<rparr>) =
      (Ok (), (s1, w1))"
    using rest_reconciles by (metis prod.exhaust fst_conv)
  then show ?thesis
    by (simp add: Reconcile_reads [OF rest_read] seq_run attempt_run state_run onSnd_run onErr_run invoke_def run_basic patch)
qed

theorem Reconcile_settles_witness:
  "\<exists>s w cs. Reconcile sampleLib restReconciler ''ns'' ''workers'' (restState, sampleWorld) = (Ok (), (s, w)) \<and>
     calls w = cs @ [CallPatchMachineSet restSet restSet]"
proof -
  obtain s w where run: "Reconcile sampleLib restReconciler ''ns'' ''workers'' (restState, sampleWorld) = (Ok (), (s, w))"
    using rest_runs [of "''ns''" "''workers''" sampleWorld] by (metis prod.exhaust fst_conv)
  have "readPairs (mapIndex (set_Annotations restSet) labelsKey) =
      readPairs (''kubernetes.io/arch='' @ archString (CPUArchitecture (ps_MachineType sampleSpec))) ++
      readPairs (mapIndex (Some fmempty) labelsKey)"
    unfolding annotate_labels_read [OF sampleLib_ranges, of sampleSpec n1Standard, symmetric]
    by (simp only: restSet_def annotated_def sampleSet_def theMap_def MachineSet.simps option.case)
  also have "mapIndex (Some fmempty) labelsKey = ''''" by simp
  finally have "readPairs (mapIndex (set_Annotations restSet) labelsKey) =
      [''kubernetes.io/arch'' \<mapsto> archString (CPUArchitecture (ps_MachineType sampleSpec))]"
    by (simp only: readPairs_sample map_add_empty)
  then have "card (dom (readPairs (mapIndex (set_Annotations restSet) labelsKey))) \<le> 1" by simp
  with Reconcile_settles [OF sampleLib_ranges rest_settled rest_read run] run show ?thesis by auto
qed

end
