(* ===== verification/Cache_Concurrency.thy ===== *)
theory Cache_Concurrency
  imports MachineSet_Controller
begin

text \<open>
  \<open>machineset/cache.go\<close> with several reconciliations at work.  \<open>getMachineTypeFromCache\<close> is taken
  apart into what happens between two moments at which another goroutine can run: taking the
  mutex, reading the map, the request, writing the map, and releasing the mutex.  The
  interleaved runs refine sequences of undivided calls.
\<close>

section \<open>Goroutines\<close>

type_synonym 'w lookup = "'w GCPComputeService \<times> string \<times> string \<times> string"

type_synonym typesCache = "machineTypeKey \<Rightarrow> MachineType ptr option"

type_synonym result = "MachineType ptr outcome"

fun lookupKey :: "'w lookup \<Rightarrow> machineTypeKey" where
  "lookupKey (svc, project, zone, machineType) = (zone, machineType)"

text \<open>Where a goroutine is: not in a call, waiting for the mutex, or at some point of the critical section.\<close>

datatype 'w place =
    Outside
  | Locking "'w lookup"
  | Reading "'w lookup"
  | Asking "'w lookup"
  | Writing "'w lookup" "MachineType ptr"
  | Unlocking "'w lookup" result

record 'w shared =
  types :: typesCache
  cacheMutex :: "nat option"
  places :: "nat \<Rightarrow> 'w place"
  around :: "'w world"
  returned :: "(nat \<times> 'w lookup \<times> result) list"

definition freshCache :: "'w world \<Rightarrow> 'w shared" where
  "freshCache w = \<lparr>types = newMachineTypesCache, cacheMutex = None, places = (\<lambda>_. Outside), around = w, returned = []\<rparr>"

definition moveTo :: "nat \<Rightarrow> 'w place \<Rightarrow> 'w shared \<Rightarrow> 'w shared" where
  "moveTo i p c = c\<lparr>places := (places c)(i := p)\<rparr>"

text \<open>The request, and what is returned when it fails.\<close>

fun askType :: "'w lookup \<Rightarrow> ('w world, MachineType ptr) go" where
  "askType (svc, project, zone, machineType) =
     invoke (CallMachineTypesGet project zone machineType) (MachineTypesGet svc project zone machineType)"

fun failedLookup :: "'w lookup \<Rightarrow> error \<Rightarrow> result" where
  "failedLookup (svc, project, zone, machineType) err =
     (if \<not> machineset_isNotFoundError (Some err)
      then Err (errorfV (''error fetching machine type '' @ Quote machineType @ '' in zone '' @ Quote zone @ '': '') err)
      else Ok None)"

inductive cacheStep :: "nat \<Rightarrow> 'w shared \<Rightarrow> 'w shared \<Rightarrow> bool" for i where
  call: "places c i = Outside \<Longrightarrow> cacheStep i c (moveTo i (Locking l) c)"
| lock: "places c i = Locking l \<Longrightarrow> cacheMutex c = None \<Longrightarrow> cacheStep i c (moveTo i (Reading l) (c\<lparr>cacheMutex := Some i\<rparr>))"
| hit: "places c i = Reading l \<Longrightarrow> types c (lookupKey l) = Some mt \<Longrightarrow> cacheStep i c (moveTo i (Unlocking l (Ok mt)) c)"
| miss: "places c i = Reading l \<Longrightarrow> types c (lookupKey l) = None \<Longrightarrow> cacheStep i c (moveTo i (Asking l) c)"
| found: "places c i = Asking l \<Longrightarrow> askType l (around c) = (Ok mt, w) \<Longrightarrow> cacheStep i c (moveTo i (Writing l mt) (c\<lparr>around := w\<rparr>))"
| failed: "places c i = Asking l \<Longrightarrow> askType l (around c) = (Err err, w) \<Longrightarrow>
    cacheStep i c (moveTo i (Unlocking l (failedLookup l err)) (c\<lparr>around := w\<rparr>))"
| store: "places c i = Writing l mt \<Longrightarrow> cacheStep i c (moveTo i (Unlocking l (Ok mt)) (c\<lparr>types := (types c)(lookupKey l \<mapsto> mt)\<rparr>))"
| unlock: "places c i = Unlocking l r \<Longrightarrow>
    cacheStep i c (moveTo i Outside (c\<lparr>cacheMutex := None, returned := returned c @ [(i, l, r)]\<rparr>))"

text \<open>Reachable states; the outside world changes at any time.\<close>

inductive interleaved :: "'w world \<Rightarrow> 'w shared \<Rightarrow> bool" for w where
  fresh: "interleaved w (freshCache w)"
| step: "interleaved w c \<Longrightarrow> cacheStep i c c' \<Longrightarrow> interleaved w c'"
| outside: "interleaved w c \<Longrightarrow> interleaved w (c\<lparr>around := (around c)\<lparr>ext := e\<rparr>\<rparr>)"

section \<open>Undivided calls\<close>

text \<open>
  The specification: calls of \<open>getMachineTypeFromCache\<close> one after the other, each by some goroutine,
  with the outside world changing in between.
\<close>

fun undivided :: "'w lookup \<Rightarrow> ('w, MachineType ptr) setRec" where
  "undivided (svc, project, zone, machineType) = getMachineTypeFromCache svc project zone machineType"

inductive serial :: "MachineSet \<Rightarrow> 'w world \<Rightarrow> (nat \<times> 'w lookup \<times> result) list \<Rightarrow> typesCache \<Rightarrow> 'w world \<Rightarrow> bool"
  for ms w0 where
  fresh: "serial ms w0 [] newMachineTypesCache w0"
| call: "serial ms w0 h m w \<Longrightarrow> undivided l (\<lparr>machineTypesCache = m, theSet = ms\<rparr>, w) = (r, (s, w')) \<Longrightarrow>
    serial ms w0 (h @ [(i, l, r)]) (machineTypesCache s) w'"
| outside: "serial ms w0 h m w \<Longrightarrow> serial ms w0 h m (w\<lparr>ext := e\<rparr>)"

lemma undivided_hit:
  "m (lookupKey l) = Some mt \<Longrightarrow> undivided l (\<lparr>machineTypesCache = m, theSet = ms\<rparr>, w) = (Ok mt, (\<lparr>machineTypesCache = m, theSet = ms\<rparr>, w))"
  by (cases l) (simp add: getMachineTypeFromCache_def go_simps)

lemma undivided_found:
  "m (lookupKey l) = None \<Longrightarrow> askType l w = (Ok mt, w') \<Longrightarrow>
    undivided l (\<lparr>machineTypesCache = m, theSet = ms\<rparr>, w) = (Ok mt, (\<lparr>machineTypesCache = m(lookupKey l \<mapsto> mt), theSet = ms\<rparr>, w'))"
  by (cases l) (auto simp: getMachineTypeFromCache_def go_simps)

lemma undivided_failed:
  "m (lookupKey l) = None \<Longrightarrow> askType l w = (Err err, w') \<Longrightarrow>
    undivided l (\<lparr>machineTypesCache = m, theSet = ms\<rparr>, w) = (failedLookup l err, (\<lparr>machineTypesCache = m, theSet = ms\<rparr>, w'))"
  by (cases l) (auto simp: getMachineTypeFromCache_def go_simps)

section \<open>Mutual exclusion\<close>

fun inside :: "'w place \<Rightarrow> bool" where
  "inside Outside = False"
| "inside (Locking l) = False"
| "inside p = True"

text \<open>The key that a goroutine has found missing and not stored yet.\<close>

fun missedKey :: "'w place \<Rightarrow> machineTypeKey option" where
  "missedKey (Asking l) = Some (lookupKey l)"
| "missedKey (Writing l mt) = Some (lookupKey l)"
| "missedKey p = None"

lemma missed_inside: "missedKey p = Some k \<Longrightarrow> inside p"
  by (cases p) simp_all

definition mutexInv :: "'w shared \<Rightarrow> bool" where
  "mutexInv c \<longleftrightarrow> (\<forall>i. inside (places c i) \<longleftrightarrow> cacheMutex c = Some i) \<and>
     (\<forall>i k. missedKey (places c i) = Some k \<longrightarrow> types c k = None)"

lemma mutexInvD:
  assumes "mutexInv c"
  shows "inside (places c i) \<longleftrightarrow> cacheMutex c = Some i" "missedKey (places c i) = Some k \<Longrightarrow> types c k = None"
    "missedKey (places c i) = Some k \<Longrightarrow> inside (places c j) \<Longrightarrow> j = i"
proof -
  show at: "inside (places c i) \<longleftrightarrow> cacheMutex c = Some i" for i using assms by (simp only: mutexInv_def)
  show "missedKey (places c i) = Some k \<Longrightarrow> types c k = None" using assms by (simp only: mutexInv_def)
  show "missedKey (places c i) = Some k \<Longrightarrow> inside (places c j) \<Longrightarrow> j = i"
    using at [of i] at [of j] missed_inside [of "places c i" k] by simp
qed

lemma moveTo_simps [simp]:
  "types (moveTo i p c) = types c" "cacheMutex (moveTo i p c) = cacheMutex c" "around (moveTo i p c) = around c" "returned (moveTo i p c) = returned c"
  "places (moveTo i p c) = (places c)(i := p)"
  by (simp_all add: moveTo_def)

lemma mutexInv_step:
  assumes "cacheStep i c c'" and "mutexInv c"
  shows "mutexInv c'"
proof -
  note inv = mutexInvD [OF assms(2)]
  have at: "inside (places c i) \<longleftrightarrow> cacheMutex c = Some i" by (rule inv)
  have others: "missedKey (places c j) = None" if "inside (places c i)" "j \<noteq> i" for j
    using inv(3) [of j _ i] that by (cases "missedKey (places c j)") auto
  have own: "types c k = None" if "missedKey (places c i) = Some k" for k using that by (rule inv)
  have rest: "types c k = None" if "missedKey (places c j) = Some k" "j \<noteq> i" for j k using that(1) by (rule inv)
  from assms(1) show ?thesis
  proof (cases rule: cacheStep.cases)
    case (found l mt w)
    with at own have "types c (lookupKey l) = None" "cacheMutex c = Some i" by simp_all
    with found others inv(1) show ?thesis by (simp add: mutexInv_def del: split_paired_All)
  next
    case (store l mt)
    with at others inv(1) show ?thesis by (simp add: mutexInv_def)
  qed (use at rest inv(1) in \<open>simp_all add: mutexInv_def del: split_paired_All\<close>)
qed

lemma interleaved_mutexInv: "interleaved w c \<Longrightarrow> mutexInv c"
proof (induction rule: interleaved.induct)
  case fresh
  show ?case by (simp add: mutexInv_def freshCache_def)
next
  case (step c i c')
  then show ?case by (blast intro: mutexInv_step)
qed (simp add: mutexInv_def)

section \<open>Interleaved runs refine undivided calls\<close>

text \<open>
  A call takes effect when it reads a cached type or when its request is answered.  From then
  until the mutex is released its result is in flight, and the entry it is about to write
  counts as written.
\<close>

definition inFlight :: "'w shared \<Rightarrow> (nat \<times> 'w lookup \<times> result) list" where
  "inFlight c = (case cacheMutex c of None \<Rightarrow> []
     | Some i \<Rightarrow> (case places c i of Writing l mt \<Rightarrow> [(i, l, Ok mt)] | Unlocking l r \<Rightarrow> [(i, l, r)] | _ \<Rightarrow> []))"

definition effective :: "'w shared \<Rightarrow> typesCache" where
  "effective c = (case cacheMutex c of None \<Rightarrow> types c
     | Some i \<Rightarrow> (case places c i of Writing l mt \<Rightarrow> (types c)(lookupKey l \<mapsto> mt) | _ \<Rightarrow> types c))"

definition linear :: "MachineSet \<Rightarrow> 'w world \<Rightarrow> 'w shared \<Rightarrow> bool" where
  "linear ms w c \<longleftrightarrow> serial ms w (returned c @ inFlight c) (effective c) (around c)"

lemma linear_step:
  assumes "cacheStep i c c'" and "mutexInv c" and "linear ms w c"
  shows "linear ms w c'"
proof -
  have at: "inside (places c i) \<longleftrightarrow> cacheMutex c = Some i" using mutexInvD(1) [OF assms(2)] .
  from assms(1) show ?thesis
  proof (cases rule: cacheStep.cases)
    case (call l)
    with at have "inFlight c' = inFlight c" "effective c' = effective c"
      by (auto simp: inFlight_def effective_def split: option.splits place.splits)
    with call assms(3) show ?thesis by (simp add: linear_def)
  next
    case (hit l mt)
    with at assms(3) have "serial ms w (returned c) (types c) (around c)" by (simp add: linear_def inFlight_def effective_def)
    from serial.call [OF this undivided_hit [where m = "types c", OF hit(3)]] hit at show ?thesis by (simp add: linear_def inFlight_def effective_def)
  next
    case (found l mt v)
    with at assms(3) have "serial ms w (returned c) (types c) (around c)" by (simp add: linear_def inFlight_def effective_def)
    moreover have "types c (lookupKey l) = None" using mutexInvD(2) [OF assms(2), of i] found by simp
    ultimately show ?thesis
      using serial.call [OF _ undivided_found [where m = "types c", OF _ found(3)]] found at by (simp add: linear_def inFlight_def effective_def)
  next
    case (failed l err v)
    with at assms(3) have "serial ms w (returned c) (types c) (around c)" by (simp add: linear_def inFlight_def effective_def)
    moreover have "types c (lookupKey l) = None" using mutexInvD(2) [OF assms(2), of i] failed by simp
    ultimately show ?thesis
      using serial.call [OF _ undivided_failed [where m = "types c", OF _ failed(3)]] failed at by (simp add: linear_def inFlight_def effective_def)
  qed (use assms(3) at in \<open>simp_all add: linear_def inFlight_def effective_def\<close>)
qed

lemma interleaved_linear: "interleaved w c \<Longrightarrow> linear ms w c"
proof (induction rule: interleaved.induct)
  case fresh
  show ?case using serial.fresh by (simp add: linear_def inFlight_def effective_def freshCache_def)
next
  case (step c i c')
  then show ?case using linear_step interleaved_mutexInv by blast
next
  case (outside c e)
  moreover have "inFlight (c\<lparr>around := v\<rparr>) = inFlight c" "effective (c\<lparr>around := v\<rparr>) = effective c" for v
    by (simp_all add: inFlight_def effective_def split: option.splits place.splits)
  ultimately show ?case using serial.outside by (simp add: linear_def)
qed

text \<open>In a sequence of undivided calls, a type that a call has returned is the one in the cache.\<close>

lemma serial_cached:
  assumes "serial ms w0 h m w" and "(i, l, Ok (Some mt)) \<in> set h"
  shows "m (lookupKey l) = Some (Some mt)"
  using assms
proof (induction rule: serial.induct)
  case (call h m w l' r s w' j)
  note run = call(2)
  show ?case
  proof (cases "m (lookupKey l')")
    case None
    obtain q v where ask: "askType l' w = (q, v)" by force
    then have "\<And>c. q \<noteq> Crash c" by (cases l') (auto simp: invoke_def split: prod.splits sum.splits)
    then consider (found) mt' where "q = Ok mt'" | (failed) err where "q = Err err" by (cases q) auto
    then show ?thesis
    proof cases
      case found
      with run ask undivided_found [where m = m, OF None] have "r = Ok mt'" "machineTypesCache s = m(lookupKey l' \<mapsto> mt')" by auto
      with call None show ?thesis by auto
    next
      case failed
      with run ask undivided_failed [where m = m, OF None] have "r = failedLookup l' err" "machineTypesCache s = m" by auto
      moreover have "failedLookup l' err \<noteq> Ok (Some mt)" by (cases l') simp
      ultimately show ?thesis using call by auto
    qed
  next
    case (Some x)
    with run undivided_hit [where m = m, OF Some] have "r = Ok x" "machineTypesCache s = m" by auto
    with call Some show ?thesis by auto
  qed
qed simp_all

text \<open>The mutex is never left locked: some goroutine can always go on.\<close>

lemma cache_not_stuck:
  assumes "mutexInv c" and "places c i \<noteq> Outside"
  shows "\<exists>j c'. cacheStep j c c' \<and> (j = i \<or> cacheMutex c = Some j)"
proof -
  have "\<exists>c'. cacheStep j c c'" if "inside (places c j)" for j
  proof (cases "places c j")
    case (Reading l)
    then show ?thesis by (cases "types c (lookupKey l)") (blast intro: cacheStep.intros)+
  next
    case (Asking l)
    obtain q v where ask: "askType l (around c) = (q, v)" by force
    then have "\<And>e. q \<noteq> Crash e" by (cases l) (auto simp: invoke_def split: prod.splits sum.splits)
    with Asking ask show ?thesis by (cases q) (blast intro: cacheStep.intros)+
  qed (use that in \<open>auto intro: cacheStep.intros\<close>)
  moreover have "\<exists>c'. cacheStep i c c'" if "cacheMutex c = None"
  proof (cases "places c i")
    case (Locking l)
    then show ?thesis using cacheStep.lock [OF Locking that] by blast
  qed (use assms(2) that mutexInvD(1) [OF assms(1), of i] in simp_all)
  ultimately show ?thesis using mutexInvD(1) [OF assms(1)] by (cases "cacheMutex c") auto
qed


section \<open>Properties\<close>

text \<open>
  C24. The cache under concurrency.  However the lookups of any number of reconciliations interleave,
  and whatever the services answer: at most one goroutine is between taking and releasing
  the mutex; the results returned so far, together with the one in flight, are those of undivided calls of
  \<open>getMachineTypeFromCache\<close> in the order in which the mutex was released, and when nobody holds the mutex the
  cache is the one those calls leave; all goroutines that got a machine type for the
  same zone and name got the same one; and no lookup is stuck, since it or the holder of the
  mutex can go on.
\<close>

theorem cache_linearizable:
  assumes "interleaved w c"
  shows "serial ms w (returned c @ inFlight c) (effective c) (around c) \<and>
    (cacheMutex c = None \<longrightarrow> inFlight c = [] \<and> effective c = types c) \<and>
    (\<forall>i j. inside (places c i) \<and> inside (places c j) \<longrightarrow> i = j) \<and>
    (\<forall>i j l k x y. (i, l, Ok (Some x)) \<in> set (returned c) \<and> (j, k, Ok (Some y)) \<in> set (returned c) \<and>
       lookupKey l = lookupKey k \<longrightarrow> x = y) \<and>
    (\<forall>i. places c i \<noteq> Outside \<longrightarrow> (\<exists>j c'. cacheStep j c c' \<and> (j = i \<or> cacheMutex c = Some j)))"
proof (intro conjI)
  have inv: "mutexInv c" using assms by (rule interleaved_mutexInv)
  show serial: "serial ms w (returned c @ inFlight c) (effective c) (around c)"
    using interleaved_linear [OF assms] by (simp add: linear_def)
  show "cacheMutex c = None \<longrightarrow> inFlight c = [] \<and> effective c = types c" by (simp add: inFlight_def effective_def)
  show "\<forall>i j. inside (places c i) \<and> inside (places c j) \<longrightarrow> i = j" using mutexInvD(1) [OF inv] by auto
  show "\<forall>i j l k x y. (i, l, Ok (Some x)) \<in> set (returned c) \<and> (j, k, Ok (Some y)) \<in> set (returned c) \<and>
      lookupKey l = lookupKey k \<longrightarrow> x = y"
    using serial_cached [OF serial] by (metis UnCI option.inject set_append)
  show "\<forall>i. places c i \<noteq> Outside \<longrightarrow> (\<exists>j c'. cacheStep j c c' \<and> (j = i \<or> cacheMutex c = Some j))"
    using cache_not_stuck [OF inv] by blast
qed


text \<open>The step relation as a function: what goroutine \<open>i\<close> does next, with the call it makes if it makes one.\<close>

definition advance :: "'w lookup \<Rightarrow> nat \<Rightarrow> 'w shared \<Rightarrow> 'w shared" where
  "advance new i c = (case places c i of
     Outside \<Rightarrow> moveTo i (Locking new) c
   | Locking l \<Rightarrow> if cacheMutex c = None then moveTo i (Reading l) (c\<lparr>cacheMutex := Some i\<rparr>) else c
   | Reading l \<Rightarrow> (case types c (lookupKey l) of
         Some mt \<Rightarrow> moveTo i (Unlocking l (Ok mt)) c
       | None \<Rightarrow> moveTo i (Asking l) c)
   | Asking l \<Rightarrow> (case askType l (around c) of
         (Ok mt, w) \<Rightarrow> moveTo i (Writing l mt) (c\<lparr>around := w\<rparr>)
       | (Err err, w) \<Rightarrow> moveTo i (Unlocking l (failedLookup l err)) (c\<lparr>around := w\<rparr>)
       | (Crash p, w) \<Rightarrow> c)
   | Writing l mt \<Rightarrow> moveTo i (Unlocking l (Ok mt)) (c\<lparr>types := (types c)(lookupKey l \<mapsto> mt)\<rparr>)
   | Unlocking l r \<Rightarrow> moveTo i Outside (c\<lparr>cacheMutex := None, returned := returned c @ [(i, l, r)]\<rparr>))"

lemma advance_interleaved:
  assumes "interleaved w c"
  shows "interleaved w (advance new i c)"
proof -
  note steps = cacheStep.intros [THEN interleaved.step [OF assms]]
  show ?thesis
  proof (cases "places c i")
    case (Reading l)
    with steps(3,4) show ?thesis by (cases "types c (lookupKey l)") (simp_all add: advance_def)
  next
    case (Asking l)
    obtain q v where "askType l (around c) = (q, v)" by force
    with Asking steps(5,6) assms show ?thesis by (cases q) (simp_all add: advance_def)
  qed (use steps assms in \<open>simp_all add: advance_def\<close>)
qed

lemma schedule_interleaved: "interleaved w c \<Longrightarrow> interleaved w (fold (advance new) is c)"
  by (induction "is" arbitrary: c) (simp_all add: advance_interleaved)

text \<open>Two goroutines that look the same type up; the second waits for the mutex and finds the type in the cache.\<close>

definition bothReturned :: "unit shared" where
  "bothReturned = fold (advance (sampleService, ''p1'', ''r1-a'', ''n1-standard-4'')) [0, 1, 0, 1, 0, 0, 0, 1, 0, 1, 1, 1] (freshCache sampleWorld)"

lemma both_return: "map fst (returned bothReturned) = [0, 1]" "length (calls (around bothReturned)) = 1" "cacheMutex bothReturned = None"
  by code_simp+

theorem cache_linearizable_witness:
  "map fst (returned bothReturned) = [0, 1] \<and> length (calls (around bothReturned)) = 1 \<and>
   serial sampleSet sampleWorld (returned bothReturned) (types bothReturned) (around bothReturned)"
proof -
  have "interleaved sampleWorld bothReturned" unfolding bothReturned_def by (intro schedule_interleaved interleaved.fresh)
  from cache_linearizable [OF this, of sampleSet] both_return show ?thesis by (metis append_Nil2)
qed

end
