(* ===== verification/Termination.thy ===== *)
theory Termination
  imports Conditions Sample
begin

text \<open>
  \<open>pkg/termination/termination.go\<close>: the handler that watches the preemption notice of the
  instance it runs on and marks the node for deletion.  Its functions are state
  transformers as elsewhere; \<open>Run\<close>, which races a goroutine against a stop channel, and the
  polling loops of \<open>k8s.io/apimachinery/pkg/util/wait\<close> it uses are a step relation.
\<close>

section \<open>Node conditions\<close>

definition terminatingConditionType :: string where
  "terminatingConditionType = ''Terminating''"

definition terminationRequestedReason :: string where
  "terminationRequestedReason = ''TerminationRequested''"

definition nodeHasTerminationCondition :: "NodeCondition list \<Rightarrow> bool" where
  "nodeHasTerminationCondition conditions = list_ex (\<lambda>condition. nc_Type condition = terminatingConditionType) conditions"

definition terminatingCondition :: "nat \<Rightarrow> NodeCondition" where
  "terminatingCondition now = \<lparr>nc_Type = terminatingConditionType, nc_Status = ''True'',
     nc_LastHeartbeatTime = now, nc_LastTransitionTime = now, nc_Reason = terminationRequestedReason,
     nc_Message = ''The cloud provider has marked this instance for termination''\<rparr>"

definition mergeCondition :: "nat \<Rightarrow> NodeCondition \<Rightarrow> NodeCondition" where
  "mergeCondition now condition =
     (if nc_Type condition \<noteq> terminatingConditionType then condition
      else if nc_Status condition = ''True'' then condition
      else terminatingCondition now)"

definition addNodeTerminationCondition :: "nat \<Rightarrow> NodeCondition list \<Rightarrow> NodeCondition list" where
  "addNodeTerminationCondition now conditions =
     (if \<not> nodeHasTerminationCondition conditions then conditions @ [terminatingCondition now]
      else map (mergeCondition now) conditions)"

section \<open>The handler\<close>

text \<open>
  The metadata endpoint is part of the outside world: a request fails, or is answered with a
  body, and reading the body may fail too.  \<open>newRequest\<close> is the error of building the
  request for a URL, if there is one.  The poll interval is a duration in nanoseconds.
\<close>

record 'w handler =
  h_client :: "'w Client"
  pollURL :: string
  pollInterval :: "64 word"
  nodeName :: string
  h_namespace :: string
  newRequest :: "string \<Rightarrow> error option"
  endpoint :: "string \<Rightarrow> ('w, error + string) extcall"

definition gcpTerminationEndpointURL :: string where
  "gcpTerminationEndpointURL = ''http://169.254.169.254/computeMetadata/v1/instance/preempted''"

text \<open>\<open>NewHandler\<close>: the constructors of the client and of requests are parameters.\<close>

definition NewHandler ::
    "(error + 'w Client) \<Rightarrow> (string \<Rightarrow> error option) \<Rightarrow> (string \<Rightarrow> ('w, error + string) extcall) \<Rightarrow>
     64 word \<Rightarrow> string \<Rightarrow> string \<Rightarrow> error + 'w handler" where
  "NewHandler newClient mkRequest send interval namespace node =
     (case newClient of
        Inl err \<Rightarrow> Inl (errorfV ''error creating client: '' err)
      | Inr c \<Rightarrow> Inr \<lparr>h_client = c, pollURL = gcpTerminationEndpointURL, pollInterval = interval,
                      nodeName = node, h_namespace = namespace, newRequest = mkRequest, endpoint = send\<rparr>)"

definition checkTerminationEndpoint :: "'w handler \<Rightarrow> ('w world, bool) go" where
  "checkTerminationEndpoint h =
     (case newRequest h (pollURL h) of
        Some err \<Rightarrow> raise (errorfW (''could not create request '' @ Quote (pollURL h) @ '': '') err)
      | None \<Rightarrow>
          seq (onErr (errorfW (''could not get URL '' @ Quote (pollURL h) @ '': ''))
                 (invoke (CallTerminationEndpoint (pollURL h)) (endpoint h (pollURL h)))) (\<lambda>body.
          seq (onErr (errorfW ''failed to read responce body: '') (pureCall body)) (\<lambda>respBody.
          ret (respBody = ''TRUE''))))"

definition markNodeForDeletion :: "'w handler \<Rightarrow> ('w world, unit) go" where
  "markNodeForDeletion h =
     seq (onErr (errorfV ''error fetching node: '')
            (invoke (CallGetNode (nodeName h)) (GetNode (h_client h) (nodeName h)))) (\<lambda>node.
     seq Now (\<lambda>now.
     let node = node\<lparr>node_Conditions := addNodeTerminationCondition now (node_Conditions node)\<rparr> in
     onErr (\<lambda>_. PlainError ''error updating node status'')
       (invoke (CallUpdateNodeStatus node) (UpdateNodeStatus (h_client h) node))))"

section \<open>Run as a step relation\<close>

text \<open>
  Where the goroutine of \<open>run\<close> is: in the condition of the first polling loop, waiting for
  its timer, at the second check, about to choose a context, in the condition of the
  second loop, waiting for its timer, or finished with a result; and where \<open>Run\<close> is.
\<close>

datatype phase =
    Polling
  | PollWaiting
  | FinalCheck
  | ChoosingContext
  | Marking
  | MarkWaiting
  | Finished "error option"

datatype mainPhase = Selecting | WaitingForRun | Returned "error option"

text \<open>
  What happened, for stating properties: the results of checks, each with the state of the outside
  world in which it was made, and of attempts to mark.
\<close>

datatype 'w observation = Checked 'w "bool outcome" | Marked "unit outcome"

record 'w config =
  phase :: phase
  mainPhase :: mainPhase
  stopClosed :: bool
  ctxErr :: "error option"
  detached :: bool
  sys :: "'w world"
  history :: "'w observation list"

definition initial :: "'w world \<Rightarrow> 'w config" where
  "initial w = \<lparr>phase = Polling, mainPhase = Selecting, stopClosed = False, ctxErr = None, detached = False,
     sys = w, history = []\<rparr>"

definition pollError :: "error \<Rightarrow> phase" where
  "pollError err = Finished (Some (errorfW ''error polling termination endpoint: '' err))"

text \<open>
  \<open>loopConditionUntilContext\<close> after one run of the condition, and after the wait: the first
  loop ignores a cancelled context, whatever made the second loop return is an error.
\<close>

definition afterPoll :: "bool outcome \<Rightarrow> phase option" where
  "afterPoll res =
     (case res of
        Ok True \<Rightarrow> Some FinalCheck
      | Ok False \<Rightarrow> Some PollWaiting
      | Err err \<Rightarrow> Some (if err = ContextCanceled then FinalCheck else pollError err)
      | Crash c \<Rightarrow> None)"

definition afterPollWait :: "error option \<Rightarrow> phase" where
  "afterPollWait ctx =
     (case ctx of
        None \<Rightarrow> Polling
      | Some err \<Rightarrow> if err = ContextCanceled then FinalCheck else pollError err)"

definition afterFinal :: "bool outcome \<Rightarrow> phase option" where
  "afterFinal res =
     (case res of
        Ok True \<Rightarrow> Some ChoosingContext
      | Ok False \<Rightarrow> Some (Finished None)
      | Err err \<Rightarrow> Some (Finished (Some err))
      | Crash c \<Rightarrow> None)"

definition afterMark :: "unit outcome \<Rightarrow> phase option" where
  "afterMark res =
     (case res of
        Ok _ \<Rightarrow> Some (Finished None)
      | Err err \<Rightarrow> Some MarkWaiting
      | Crash c \<Rightarrow> None)"

definition markError :: "error \<Rightarrow> phase" where
  "markError err = Finished (Some (errorfV ''error marking node: '' err))"

text \<open>
  The context of the second loop ends with the first one unless that was cancelled already
  when the context was chosen, and in any case with its own deadline, which can pass at
  any wait: how long things take is not modelled.  Cancelling keeps an earlier error of
  the context.
\<close>

definition cancelCtx :: "error option \<Rightarrow> error option" where
  "cancelCtx ctx = (case ctx of None \<Rightarrow> Some ContextCanceled | Some err \<Rightarrow> Some err)"

inductive step :: "'w handler \<Rightarrow> 'w config \<Rightarrow> 'w config \<Rightarrow> bool" for h :: "'w handler" where
  environment: "step h c (c\<lparr>sys := (sys c)\<lparr>ext := e\<rparr>\<rparr>)"
| stop: "step h c (c\<lparr>stopClosed := True\<rparr>)"
| selectStop: "stopClosed c \<Longrightarrow> mainPhase c = Selecting \<Longrightarrow>
    step h c (c\<lparr>mainPhase := WaitingForRun, ctxErr := cancelCtx (ctxErr c)\<rparr>)"
| runStopped: "mainPhase c = WaitingForRun \<Longrightarrow> phase c = Finished r \<Longrightarrow> step h c (c\<lparr>mainPhase := Returned None\<rparr>)"
| selectErr: "mainPhase c = Selecting \<Longrightarrow> phase c = Finished r \<Longrightarrow>
    step h c (c\<lparr>mainPhase := Returned r, ctxErr := cancelCtx (ctxErr c)\<rparr>)"
| poll: "phase c = Polling \<Longrightarrow> checkTerminationEndpoint h (sys c) = (res, w) \<Longrightarrow> afterPoll res = Some p \<Longrightarrow>
    step h c (c\<lparr>phase := p, sys := w, history := history c @ [Checked (ext (sys c)) res]\<rparr>)"
| pollWait: "phase c = PollWaiting \<Longrightarrow> step h c (c\<lparr>phase := afterPollWait (ctxErr c)\<rparr>)"
| finalCheck: "phase c = FinalCheck \<Longrightarrow> checkTerminationEndpoint h (sys c) = (res, w) \<Longrightarrow> afterFinal res = Some p \<Longrightarrow>
    step h c (c\<lparr>phase := p, sys := w, history := history c @ [Checked (ext (sys c)) res]\<rparr>)"
| chooseFresh: "phase c = ChoosingContext \<Longrightarrow> ctxErr c = Some ContextCanceled \<Longrightarrow>
    step h c (c\<lparr>phase := Marking, detached := True\<rparr>)"
| chooseFail: "phase c = ChoosingContext \<Longrightarrow> ctxErr c = Some err \<Longrightarrow> err \<noteq> ContextCanceled \<Longrightarrow>
    step h c (c\<lparr>phase := Finished (Some err)\<rparr>)"
| chooseSame: "phase c = ChoosingContext \<Longrightarrow> ctxErr c = None \<Longrightarrow>
    step h c (c\<lparr>phase := Marking, detached := False\<rparr>)"
| mark: "phase c = Marking \<Longrightarrow> markNodeForDeletion h (sys c) = (res, w) \<Longrightarrow> afterMark res = Some p \<Longrightarrow>
    step h c (c\<lparr>phase := p, sys := w, history := history c @ [Marked res]\<rparr>)"
| markAgain: "phase c = MarkWaiting \<Longrightarrow> detached c \<or> ctxErr c = None \<Longrightarrow> step h c (c\<lparr>phase := Marking\<rparr>)"
| markCancelled: "phase c = MarkWaiting \<Longrightarrow> \<not> detached c \<Longrightarrow> ctxErr c = Some err \<Longrightarrow>
    step h c (c\<lparr>phase := markError err\<rparr>)"
| markTimeout: "phase c = MarkWaiting \<Longrightarrow> step h c (c\<lparr>phase := markError DeadlineExceeded\<rparr>)"

inductive reachable :: "'w handler \<Rightarrow> 'w world \<Rightarrow> 'w config \<Rightarrow> bool" for h w where
  start: "reachable h w (initial w)"
| onward: "reachable h w c \<Longrightarrow> step h c c' \<Longrightarrow> reachable h w c'"

inductive_cases stepE: "step h c c'"

section \<open>Node conditions\<close>

definition settledNode :: "NodeCondition list \<Rightarrow> bool" where
  "settledNode cs \<longleftrightarrow> (\<exists>c\<in>set cs. nc_Type c = terminatingConditionType) \<and>
     (\<forall>c\<in>set cs. nc_Type c = terminatingConditionType \<longrightarrow> nc_Status c = ''True'')"

lemma terminatingCondition_simps [simp]:
  "nc_Type (terminatingCondition now) = terminatingConditionType"
  "nc_Status (terminatingCondition now) = ''True''"
  by (simp_all add: terminatingCondition_def)

lemma hasTermination_iff:
  "nodeHasTerminationCondition cs \<longleftrightarrow> (\<exists>c\<in>set cs. nc_Type c = terminatingConditionType)"
  by (simp add: nodeHasTerminationCondition_def list_ex_iff)

lemma mergeCondition_simps [simp]:
  "nc_Type (mergeCondition now c) = nc_Type c"
  "nc_Type c = terminatingConditionType \<Longrightarrow> nc_Status (mergeCondition now c) = ''True''"
  "nc_Status c = ''True'' \<Longrightarrow> mergeCondition now c = c"
  "nc_Type c \<noteq> terminatingConditionType \<Longrightarrow> mergeCondition now c = c"
  by (simp_all add: mergeCondition_def)

lemma addNodeTermination_settles: "settledNode (addNodeTerminationCondition now cs)"
  by (auto simp: addNodeTerminationCondition_def settledNode_def hasTermination_iff)

lemma addNodeTermination_keeps: "settledNode cs \<Longrightarrow> addNodeTerminationCondition now cs = cs"
  by (auto simp: addNodeTerminationCondition_def settledNode_def hasTermination_iff intro!: map_idI)

lemma filter_map_others:
  "filter (\<lambda>c. nc_Type c \<noteq> terminatingConditionType) (map (mergeCondition now) cs) =
   filter (\<lambda>c. nc_Type c \<noteq> terminatingConditionType) cs"
  by (induction cs) auto

lemma addNodeTermination_others:
  "filter (\<lambda>c. nc_Type c \<noteq> terminatingConditionType) (addNodeTerminationCondition now cs) =
   filter (\<lambda>c. nc_Type c \<noteq> terminatingConditionType) cs"
  by (simp add: addNodeTerminationCondition_def filter_map_others)

interpretation node_conditions:
  condition_updater addNodeTerminationCondition settledNode nc_Type terminatingConditionType
  by unfold_locales (rule addNodeTermination_settles addNodeTermination_keeps addNodeTermination_others, assumption?)+

text \<open>
  C30. \<open>addNodeTerminationCondition\<close> leaves a node that says it is terminating: there is a
  condition of that type and all of them are true.  Conditions of other types are kept in
  order; conditions that were true already keep their times and messages; and repeating
  the call, at any later times, changes nothing.
\<close>

theorem addNodeTerminationCondition_spec:
  "settledNode (addNodeTerminationCondition now cs) \<and>
   filter (\<lambda>c. nc_Type c \<noteq> ''Terminating'') (addNodeTerminationCondition now cs) = filter (\<lambda>c. nc_Type c \<noteq> ''Terminating'') cs \<and>
   {c \<in> set cs. nc_Status c = ''True''} \<subseteq> set (addNodeTerminationCondition now cs) \<and>
   fold addNodeTerminationCondition later (addNodeTerminationCondition now cs) = addNodeTerminationCondition now cs"
proof -
  have "{c \<in> set cs. nc_Status c = ''True''} \<subseteq> set (addNodeTerminationCondition now cs)"
    by (force simp: addNodeTerminationCondition_def)
  then show ?thesis
    using node_conditions.settles node_conditions.others node_conditions.updates_later
    by (simp add: terminatingConditionType_def)
qed

section \<open>Invariants of Run\<close>

lemma check_not_Crash [simp]: "checkTerminationEndpoint h w \<noteq> (Crash c, w')"
  by (auto simp: checkTerminationEndpoint_def seq_Crash_iff run_basic split: option.splits)

lemma mark_not_Crash [simp]: "markNodeForDeletion h w \<noteq> (Crash c, w')"
  by (auto simp: markNodeForDeletion_def seq_Crash_iff run_basic Let_def Now_def)

lemma check_error: "checkTerminationEndpoint h w = (Err e, w') \<Longrightarrow> e \<noteq> ContextCanceled"
proof -
  have "failsWith (\<lambda>e. e \<noteq> ContextCanceled) (checkTerminationEndpoint h)"
    unfolding checkTerminationEndpoint_def by (intro fails_intros) (simp_all add: errorfW_def)
  then show "checkTerminationEndpoint h w = (Err e, w') \<Longrightarrow> e \<noteq> ContextCanceled" by (rule failsWithD)
qed

fun isStatusUpdate :: "call \<Rightarrow> bool" where
  "isStatusUpdate (CallUpdateNodeStatus _) = True"
| "isStatusUpdate _ = False"

lemma check_calls: "checkTerminationEndpoint h w = (r, w') \<Longrightarrow> \<exists>cs. calls w' = calls w @ cs \<and> (\<forall>c\<in>set cs. \<not> isStatusUpdate c)"
proof -
  have "obeys (logGrows (\<lambda>c. \<not> isStatusUpdate c)) (checkTerminationEndpoint h)"
    unfolding checkTerminationEndpoint_def by (intro obeys_intros) simp
  then show "checkTerminationEndpoint h w = (r, w') \<Longrightarrow> \<exists>cs. calls w' = calls w @ cs \<and> (\<forall>c\<in>set cs. \<not> isStatusUpdate c)"
    using obeysD by (fastforce simp: logGrows_def list_all_iff)
qed

lemma mark_calls: "markNodeForDeletion h w = (r, w') \<Longrightarrow> \<exists>cs. calls w' = calls w @ cs"
proof -
  have "obeys (logGrows (\<lambda>c. True)) (markNodeForDeletion h)"
    unfolding markNodeForDeletion_def Let_def by (intro obeys_intros) simp_all
  then show "markNodeForDeletion h w = (r, w') \<Longrightarrow> \<exists>cs. calls w' = calls w @ cs"
    using obeysD by (fastforce simp: logGrows_def)
qed

text \<open>The last check, with the state it was made in, and its result alone.\<close>

fun lastChecked :: "'w observation list \<Rightarrow> ('w \<times> bool outcome) option" where
  "lastChecked [] = None"
| "lastChecked (Checked e r # obs) = (case lastChecked obs of None \<Rightarrow> Some (e, r) | x \<Rightarrow> x)"
| "lastChecked (Marked r # obs) = lastChecked obs"

definition lastCheck :: "'w observation list \<Rightarrow> bool outcome option" where
  "lastCheck obs = map_option snd (lastChecked obs)"

lemma lastChecked_append:
  "lastChecked (obs @ [Checked e r]) = Some (e, r)"
  "lastChecked (obs @ [Marked m]) = lastChecked obs"
  by (induction obs rule: lastChecked.induct) (auto split: option.splits)

lemma lastCheck_append [simp]:
  "lastCheck [] = None"
  "lastCheck (obs @ [Checked e r]) = Some r"
  "lastCheck (obs @ [Marked m]) = lastCheck obs"
  by (simp_all add: lastCheck_def lastChecked_append)

lemma lastChecked_in: "lastChecked obs = Some (e, r) \<Longrightarrow> Checked e r \<in> set obs"
  by (induction obs rule: lastChecked.induct) (auto split: option.splits)

definition markedIn :: "'w observation list \<Rightarrow> bool" where
  "markedIn obs \<longleftrightarrow> (\<exists>m. Marked m \<in> set obs)"

lemma markedIn_append [simp]:
  "\<not> markedIn []" "markedIn (obs @ [Checked e r]) = markedIn obs" "markedIn (obs @ [Marked m])"
  by (auto simp: markedIn_def)

text \<open>What holds of the goroutine of \<open>run\<close> in every phase.\<close>

fun phaseOk :: "phase \<Rightarrow> 'w observation list \<Rightarrow> bool" where
  "phaseOk ChoosingContext obs = (lastCheck obs = Some (Ok True) \<and> \<not> markedIn obs)"
| "phaseOk Marking obs = (lastCheck obs = Some (Ok True))"
| "phaseOk MarkWaiting obs = (lastCheck obs = Some (Ok True) \<and> markedIn obs)"
| "phaseOk (Finished None) obs = (lastCheck obs = Some (Ok False) \<and> \<not> markedIn obs \<or>
     lastCheck obs = Some (Ok True) \<and> obs \<noteq> [] \<and> last obs = Marked (Ok ()))"
| "phaseOk (Finished (Some e)) obs =
     ((\<exists>e. lastCheck obs = Some (Err e)) \<and> \<not> markedIn obs \<or> lastCheck obs = Some (Ok True) \<and> markedIn obs)"
| "phaseOk p obs = (\<not> markedIn obs)"

definition runInv :: "'w world \<Rightarrow> 'w config \<Rightarrow> bool" where
  "runInv w c \<longleftrightarrow> phaseOk (phase c) (history c) \<and>
     (ctxErr c = None \<or> ctxErr c = Some ContextCanceled) \<and>
     (mainPhase c = Selecting \<longrightarrow> ctxErr c = None) \<and>
     (mainPhase c = WaitingForRun \<longrightarrow> stopClosed c \<and> ctxErr c = Some ContextCanceled) \<and>
     (\<forall>r. mainPhase c = Returned r \<longrightarrow> (\<exists>r'. phase c = Finished r' \<and> (r = r' \<or> r = None \<and> stopClosed c))) \<and>
     (\<exists>cs. calls (sys c) = calls w @ cs \<and> ((\<exists>x\<in>set cs. isStatusUpdate x) \<longrightarrow> markedIn (history c)))"

lemma runInv_initial: "runInv w (initial w)"
  by (simp add: runInv_def initial_def)

lemma runInv_step:
  assumes "runInv w c" and "step h c c'"
  shows "runInv w c'"
  using assms(2)
proof cases
  case (poll res v p)
  obtain cs where cs: "calls v = calls (sys c) @ cs" "\<forall>c\<in>set cs. \<not> isStatusUpdate c" using check_calls [OF poll(3)] by blast
  have "phaseOk p (history c @ [Checked (ext (sys c)) res])"
    using assms(1) poll check_error by (cases res) (auto simp: runInv_def afterPoll_def pollError_def split: bool.splits if_splits)
  with assms(1) poll cs show ?thesis by (auto simp: runInv_def)
next
  case (finalCheck res v p)
  obtain cs where cs: "calls v = calls (sys c) @ cs" "\<forall>c\<in>set cs. \<not> isStatusUpdate c" using check_calls [OF finalCheck(3)] by blast
  have "phaseOk p (history c @ [Checked (ext (sys c)) res])"
    using assms(1) finalCheck by (cases res) (auto simp: runInv_def afterFinal_def split: bool.splits if_splits)
  with assms(1) finalCheck cs show ?thesis by (auto simp: runInv_def)
next
  case (mark res v p)
  obtain cs where cs: "calls v = calls (sys c) @ cs" using mark_calls [OF mark(3)] by blast
  have "phaseOk p (history c @ [Marked res])"
    using assms(1) mark by (cases res) (auto simp: runInv_def afterMark_def)
  with assms(1) mark cs show ?thesis by (auto simp: runInv_def)
qed (use assms(1) in \<open>auto simp: runInv_def cancelCtx_def afterPollWait_def markError_def pollError_def split: option.splits\<close>)

lemma reachable_runInv: "reachable h w c \<Longrightarrow> runInv w c"
  by (induction rule: reachable.induct) (auto intro: runInv_initial runInv_step)

text \<open>A check answers yes exactly if the endpoint's body, in the state of the check, is \<open>TRUE\<close>.\<close>

lemma check_TRUE:
  "checkTerminationEndpoint h w = (Ok b, w') \<Longrightarrow> b \<longleftrightarrow> fst (endpoint h (pollURL h) (ext w)) = Inr (Inr ''TRUE'')"
  by (auto simp: checkTerminationEndpoint_def go_simps pureCall_def split: option.splits prod.splits sum.splits)

definition checkedTrue :: "'w handler \<Rightarrow> 'w observation list \<Rightarrow> bool" where
  "checkedTrue h obs \<longleftrightarrow>
     (\<forall>e b. Checked e (Ok b) \<in> set obs \<longrightarrow> (b \<longleftrightarrow> fst (endpoint h (pollURL h) e) = Inr (Inr ''TRUE'')))"

lemma reachable_checkedTrue: "reachable h w c \<Longrightarrow> checkedTrue h (history c)"
proof (induction rule: reachable.induct)
  case (onward c c')
  from onward(2) show ?case
    by cases (use onward.IH in \<open>auto simp: checkedTrue_def check_TRUE\<close>)
qed (simp add: initial_def checkedTrue_def)

text \<open>
  C28. The node is told only what the cloud said: in every reachable state of the handler, if
  the status of the node was updated, or even only attempted to, since the start, then
  in the last check that was made the preemption endpoint answered with the body \<open>TRUE\<close>, in the state
  of the outside world at the time of that check.  (The comment at the check speaks of \<open>FALSE\<close>.)
\<close>

theorem node_marked_only_if_preempted:
  assumes "reachable h w c"
  shows "\<exists>cs. calls (sys c) = calls w @ cs \<and>
     (\<forall>n. CallUpdateNodeStatus n \<in> set cs \<longrightarrow>
        (\<exists>e. lastChecked (history c) = Some (e, Ok True) \<and> fst (endpoint h (pollURL h) e) = Inr (Inr ''TRUE'')))"
proof -
  have inv: "runInv w c" using assms by (rule reachable_runInv)
  have "markedIn (history c) \<Longrightarrow> lastCheck (history c) = Some (Ok True)"
  proof (cases "(phase c, history c)" rule: phaseOk.cases)
  qed (use inv in \<open>auto simp: runInv_def\<close>)
  moreover have "fst (endpoint h (pollURL h) e) = Inr (Inr ''TRUE'')" if "lastChecked (history c) = Some (e, Ok True)" for e
    using reachable_checkedTrue [OF assms] lastChecked_in [OF that] by (simp add: checkedTrue_def)
  ultimately have "markedIn (history c) \<Longrightarrow>
      \<exists>e. lastChecked (history c) = Some (e, Ok True) \<and> fst (endpoint h (pollURL h) e) = Inr (Inr ''TRUE'')"
    by (auto simp: lastCheck_def)
  with inv show ?thesis unfolding runInv_def by (metis isStatusUpdate.simps(1))
qed



section \<open>Progress and stopping\<close>

text \<open>
  The steps of the program itself, as opposed to those of its surroundings: every step that
  changes where the goroutine or \<open>Run\<close> is.
\<close>

definition programStep :: "'w handler \<Rightarrow> 'w config \<Rightarrow> 'w config \<Rightarrow> bool" where
  "programStep h c c' \<longleftrightarrow> step h c c' \<and> (phase c' \<noteq> phase c \<or> mainPhase c' \<noteq> mainPhase c)"

lemma afterPoll_total: "(\<And>c. res \<noteq> Crash c) \<Longrightarrow> \<exists>p. afterPoll res = Some p \<and> p \<noteq> Polling"
  by (cases res) (auto simp: afterPoll_def pollError_def split: bool.splits)

lemma afterFinal_total: "(\<And>c. res \<noteq> Crash c) \<Longrightarrow> \<exists>p. afterFinal res = Some p \<and> p \<noteq> FinalCheck"
  by (cases res) (auto simp: afterFinal_def split: bool.splits)

lemma afterMark_total: "(\<And>c. res \<noteq> Crash c) \<Longrightarrow> \<exists>p. afterMark res = Some p \<and> p \<noteq> Marking"
  by (cases res) (auto simp: afterMark_def)

lemma check_outcome: "\<exists>res w'. checkTerminationEndpoint h w = (res, w') \<and> (\<forall>c. res \<noteq> Crash c)"
  using check_not_Crash by (metis surj_pair)

lemma mark_outcome: "\<exists>res w'. markNodeForDeletion h w = (res, w') \<and> (\<forall>c. res \<noteq> Crash c)"
  using mark_not_Crash by (metis surj_pair)

lemma goroutine_progress:
  assumes "\<And>r. phase c \<noteq> Finished r"
  shows "\<exists>c'. step h c c' \<and> phase c' \<noteq> phase c"
proof (cases "phase c")
  case Polling
  obtain res v p where "checkTerminationEndpoint h (sys c) = (res, v)" "afterPoll res = Some p" "p \<noteq> Polling"
    using check_outcome afterPoll_total by metis
  with step.poll [OF Polling] Polling show ?thesis by fastforce
next
  case PollWaiting
  have "afterPollWait x \<noteq> PollWaiting" for x by (auto simp: afterPollWait_def pollError_def split: option.splits)
  with step.pollWait [OF PollWaiting] PollWaiting show ?thesis by fastforce
next
  case FinalCheck
  obtain res v p where "checkTerminationEndpoint h (sys c) = (res, v)" "afterFinal res = Some p" "p \<noteq> FinalCheck"
    using check_outcome afterFinal_total by metis
  with step.finalCheck [OF FinalCheck] FinalCheck show ?thesis by fastforce
next
  case ChoosingContext
  consider "ctxErr c = None" | "ctxErr c = Some ContextCanceled" | err where "ctxErr c = Some err" "err \<noteq> ContextCanceled"
    by (cases "ctxErr c") auto
  then show ?thesis
    using step.chooseSame [OF ChoosingContext] step.chooseFresh [OF ChoosingContext] step.chooseFail [OF ChoosingContext] ChoosingContext
    by cases fastforce+
next
  case Marking
  obtain res v p where "markNodeForDeletion h (sys c) = (res, v)" "afterMark res = Some p" "p \<noteq> Marking"
    using mark_outcome afterMark_total by metis
  with step.mark [OF Marking] Marking show ?thesis by fastforce
next
  case MarkWaiting
  from step.markTimeout [OF this] this show ?thesis by (fastforce simp: markError_def)
qed (use assms in auto)

text \<open>
  The handler is never stuck: in every state in which \<open>Run\<close> has not returned, reachable or
  not, the goroutine or \<open>Run\<close> itself can move on; no reply of the endpoint or of the API
  server leaves it without a step.
\<close>

theorem run_not_stuck:
  assumes "\<And>r. mainPhase c \<noteq> Returned r"
  shows "\<exists>c'. programStep h c c'"
proof (cases "\<exists>r. phase c = Finished r")
  case True
  then obtain r where fin: "phase c = Finished r" by blast
  show ?thesis
  proof (cases "mainPhase c")
    case Selecting
    from step.selectErr [OF this fin] this show ?thesis by (fastforce simp: programStep_def)
  next
    case WaitingForRun
    from step.runStopped [OF this fin] this show ?thesis by (fastforce simp: programStep_def)
  qed (use assms in auto)
qed (use goroutine_progress in \<open>fastforce simp: programStep_def\<close>)

text \<open>The number of checks made, and how many can still be made once the context is cancelled.\<close>

fun checks :: "'w observation list \<Rightarrow> nat" where
  "checks [] = 0"
| "checks (Checked e r # obs) = Suc (checks obs)"
| "checks (Marked r # obs) = checks obs"

lemma checks_append [simp]: "checks (xs @ ys) = checks xs + checks ys"
  by (induction xs rule: checks.induct) auto

fun checksLeft :: "phase \<Rightarrow> nat" where
  "checksLeft Polling = 2"
| "checksLeft PollWaiting = 1"
| "checksLeft FinalCheck = 1"
| "checksLeft _ = 0"

lemma cancelled_step:
  assumes "step h c c'" and "ctxErr c = Some ContextCanceled"
  shows "ctxErr c' = Some ContextCanceled \<and> checks (history c') + checksLeft (phase c') \<le> checks (history c) + checksLeft (phase c)"
  using assms
  by cases (auto simp: cancelCtx_def afterPoll_def afterFinal_def afterMark_def afterPollWait_def pollError_def markError_def
      split: outcome.splits bool.splits if_splits)

lemma cancelled_steps:
  assumes "(step h)\<^sup>*\<^sup>* c c'" and "ctxErr c = Some ContextCanceled"
  shows "ctxErr c' = Some ContextCanceled \<and> checks (history c') + checksLeft (phase c') \<le> checks (history c) + checksLeft (phase c)"
  using assms by (induction rule: rtranclp_induct) (use cancelled_step in \<open>fastforce+\<close>)

text \<open>
  Stopping is prompt: once \<open>Run\<close> has seen the stop request, however long the handler goes
  on and whatever the endpoint answers, the endpoint is checked at most twice more.
\<close>

theorem stop_bounds_checks:
  assumes "reachable h w c" and "mainPhase c = WaitingForRun" and "(step h)\<^sup>*\<^sup>* c c'"
  shows "checks (history c') \<le> checks (history c) + 2"
proof -
  have "ctxErr c = Some ContextCanceled" using reachable_runInv [OF assms(1)] assms(2) by (simp add: runInv_def)
  then have "checks (history c') \<le> checks (history c) + checksLeft (phase c)" using cancelled_steps [OF assms(3)] by simp
  also have "checksLeft (phase c) \<le> 2" by (cases "phase c") simp_all
  finally show ?thesis by simp
qed

text \<open>How far the goroutine is from its end once the context is cancelled.\<close>

fun distance :: "phase \<Rightarrow> nat" where
  "distance Polling = 6"
| "distance PollWaiting = 5"
| "distance FinalCheck = 4"
| "distance ChoosingContext = 3"
| "distance Marking = 2"
| "distance MarkWaiting = 1"
| "distance (Finished _) = 0"

lemma goroutine_approaches:
  assumes "ctxErr c = Some err" and "0 < distance (phase c)"
  shows "\<exists>c'. step h c c' \<and> distance (phase c') < distance (phase c) \<and> ctxErr c' = ctxErr c \<and> mainPhase c' = mainPhase c"
proof (cases "phase c")
  case Polling
  obtain res v p where "checkTerminationEndpoint h (sys c) = (res, v)" "afterPoll res = Some p" "p \<noteq> Polling"
    using check_outcome afterPoll_total by metis
  with step.poll [OF Polling] Polling show ?thesis by (cases p) (fastforce intro!: exI)+
next
  case PollWaiting
  have "distance (afterPollWait (ctxErr c)) < 5" using assms(1) by (simp add: afterPollWait_def pollError_def)
  with step.pollWait [OF PollWaiting] PollWaiting show ?thesis by (fastforce intro!: exI)
next
  case FinalCheck
  obtain res v p where *: "checkTerminationEndpoint h (sys c) = (res, v)" "afterFinal res = Some p"
    using check_outcome afterFinal_total by metis
  then have "distance p < 4" by (auto simp: afterFinal_def split: outcome.splits bool.splits)
  with * step.finalCheck [OF FinalCheck] FinalCheck show ?thesis by (fastforce intro!: exI)
next
  case ChoosingContext
  show ?thesis
  proof (cases "err = ContextCanceled")
    case True
    with step.chooseFresh [OF ChoosingContext] assms(1) ChoosingContext show ?thesis by (fastforce intro!: exI)
  next
    case False
    with step.chooseFail [OF ChoosingContext] assms(1) ChoosingContext show ?thesis by (fastforce intro!: exI)
  qed
next
  case Marking
  obtain res v p where *: "markNodeForDeletion h (sys c) = (res, v)" "afterMark res = Some p"
    using mark_outcome afterMark_total by metis
  then have "distance p < 2" by (auto simp: afterMark_def split: outcome.splits)
  with * step.mark [OF Marking] Marking show ?thesis by (fastforce intro!: exI)
next
  case MarkWaiting
  from step.markTimeout [OF this] this show ?thesis by (fastforce simp: markError_def intro!: exI)
qed (use assms in auto)

lemma goroutine_ends:
  assumes "ctxErr c = Some err"
  shows "\<exists>c' r. (step h)\<^sup>*\<^sup>* c c' \<and> phase c' = Finished r \<and> mainPhase c' = mainPhase c"
  using assms
proof (induction "distance (phase c)" arbitrary: c rule: less_induct)
  case less
  show ?case
  proof (cases "0 < distance (phase c)")
    case True
    then obtain c' where c': "step h c c'" "distance (phase c') < distance (phase c)" "ctxErr c' = ctxErr c" "mainPhase c' = mainPhase c"
      using goroutine_approaches less.prems by metis
    with less.hyps [of c'] less.prems show ?thesis by (metis converse_rtranclp_into_rtranclp)
  next
    case False
    then have "\<exists>r. phase c = Finished r" by (cases "phase c") auto
    then show ?thesis by blast
  qed
qed

text \<open>
  The handler can always be stopped: from every state in which it waits for something, if
  the stop channel is closed there is a way for \<open>Run\<close> to return without an error, with no
  help from its surroundings (the replies they give are arbitrary).
\<close>

theorem stop_returns:
  assumes "stopClosed c" and "mainPhase c = Selecting"
  shows "\<exists>c'. (step h)\<^sup>*\<^sup>* c c' \<and> mainPhase c' = Returned None"
proof -
  let ?s = "c\<lparr>mainPhase := WaitingForRun, ctxErr := cancelCtx (ctxErr c)\<rparr>"
  obtain err where "ctxErr ?s = Some err" by (cases "ctxErr c") (auto simp: cancelCtx_def)
  then obtain c' r where c': "(step h)\<^sup>*\<^sup>* ?s c'" "phase c' = Finished r" "mainPhase c' = WaitingForRun"
    using goroutine_ends [of ?s err h] by auto
  have "step h c ?s" using assms by (rule step.selectStop)
  moreover have "step h c' (c'\<lparr>mainPhase := Returned None\<rparr>)" using c'(3,2) by (rule step.runStopped)
  ultimately have "(step h)\<^sup>*\<^sup>* c (c'\<lparr>mainPhase := Returned None\<rparr>)"
    using c'(1) by (meson converse_rtranclp_into_rtranclp rtranclp.rtrancl_into_rtrancl)
  then show ?thesis by fastforce
qed

section \<open>A concrete run\<close>

text \<open>A handler whose endpoint announces the preemption, and the states its run goes through.\<close>

definition sampleHandler :: "unit handler" where
  "sampleHandler = \<lparr>h_client = sampleClient, pollURL = gcpTerminationEndpointURL, pollInterval = 5000000000,
     nodeName = ''node-0'', h_namespace = [],
     newRequest = (\<lambda>_. None), endpoint = (\<lambda>_ e. (Inr (Inr ''TRUE''), e))\<rparr>"

definition sampleChecked :: "unit world" where
  "sampleChecked = snd (checkTerminationEndpoint sampleHandler sampleWorld)"

definition sampleCheckedTwice :: "unit world" where
  "sampleCheckedTwice = snd (checkTerminationEndpoint sampleHandler sampleChecked)"

definition sampleMarked :: "unit world" where
  "sampleMarked = snd (markNodeForDeletion sampleHandler sampleCheckedTwice)"

definition sampleNode :: Node where
  "sampleNode = \<lparr>node_Name = ''node-0'', node_Conditions = [terminatingCondition 7]\<rparr>"

lemmas sample_handler_defs = sampleHandler_def sampleClient_def sampleWorld_def

lemma sample_check: "checkTerminationEndpoint sampleHandler w = (Ok True, snd (checkTerminationEndpoint sampleHandler w))"
  by (simp add: checkTerminationEndpoint_def sample_handler_defs seq_run onErr_def run_basic invoke_def)

lemma sample_mark:
  "markNodeForDeletion sampleHandler w = (Ok (), snd (markNodeForDeletion sampleHandler w))"
  by (simp add: markNodeForDeletion_def sample_handler_defs seq_run onErr_def run_basic invoke_def Let_def Now_def)

definition sampleFinished :: "unit config" where
  "sampleFinished = (initial sampleWorld)\<lparr>phase := Finished None, sys := sampleMarked,
     history := [Checked () (Ok True), Checked () (Ok True), Marked (Ok ())]\<rparr>"

lemma sample_calls: "CallUpdateNodeStatus sampleNode \<in> set (calls (sys sampleFinished))"
  by code_simp

definition sampleStopped :: "unit config" where
  "sampleStopped = (initial sampleWorld)\<lparr>stopClosed := True, mainPhase := WaitingForRun, ctxErr := Some ContextCanceled\<rparr>"

definition sampleStoppedChecks :: "unit config" where
  "sampleStoppedChecks = sampleStopped\<lparr>phase := ChoosingContext, sys := sampleCheckedTwice, history := [Checked () (Ok True), Checked () (Ok True)]\<rparr>"

lemma sample_reachable: "reachable sampleHandler sampleWorld sampleFinished"
proof -
  let ?c = "initial sampleWorld"
  have "step sampleHandler ?c (?c\<lparr>phase := FinalCheck, sys := sampleChecked, history := [Checked () (Ok True)]\<rparr>)"
    using step.poll [of ?c sampleHandler "Ok True" sampleChecked FinalCheck] sample_check
    by (simp add: initial_def afterPoll_def sampleChecked_def)
  note 1 = reachable.onward [OF reachable.start this]
  let ?c = "(initial sampleWorld)\<lparr>phase := FinalCheck, sys := sampleChecked, history := [Checked () (Ok True)]\<rparr>"
  have "step sampleHandler ?c (?c\<lparr>phase := ChoosingContext, sys := sampleCheckedTwice, history := [Checked () (Ok True), Checked () (Ok True)]\<rparr>)"
    using step.finalCheck [of ?c sampleHandler "Ok True" sampleCheckedTwice ChoosingContext] sample_check
    by (simp add: afterFinal_def sampleCheckedTwice_def)
  note 2 = reachable.onward [OF 1 this]
  let ?c = "(initial sampleWorld)\<lparr>phase := ChoosingContext, sys := sampleCheckedTwice, history := [Checked () (Ok True), Checked () (Ok True)]\<rparr>"
  have "step sampleHandler ?c (?c\<lparr>phase := Marking\<rparr>)"
    using step.chooseSame [of ?c sampleHandler] by (simp add: initial_def)
  with 2 have 3: "reachable sampleHandler sampleWorld (?c\<lparr>phase := Marking\<rparr>)" by (simp add: reachable.onward)
  have "step sampleHandler (?c\<lparr>phase := Marking\<rparr>) sampleFinished"
    using step.mark [of "?c\<lparr>phase := Marking\<rparr>" sampleHandler "Ok ()" sampleMarked "Finished None"] sample_mark
    by (simp add: afterMark_def sampleMarked_def sampleFinished_def)
  with 3 show ?thesis by (rule reachable.onward)
qed

theorem node_marked_only_if_preempted_witness:
  "CallUpdateNodeStatus sampleNode \<in> set (calls (sys sampleFinished)) \<and> lastChecked (history sampleFinished) = Some ((), Ok True) \<and>
     fst (endpoint sampleHandler (pollURL sampleHandler) ()) = Inr (Inr ''TRUE'')"
  using node_marked_only_if_preempted [OF sample_reachable] sample_calls by (auto simp: sampleWorld_def)


theorem run_not_stuck_witness: "\<exists>c'. programStep sampleHandler sampleFinished c'"
  by (rule run_not_stuck) (simp add: sampleFinished_def initial_def)

lemma sample_stopped: "reachable sampleHandler sampleWorld sampleStopped"
proof -
  let ?c = "(initial sampleWorld)\<lparr>stopClosed := True\<rparr>"
  have "reachable sampleHandler sampleWorld ?c" by (rule reachable.onward [OF reachable.start step.stop])
  moreover have "step sampleHandler ?c sampleStopped"
    using step.selectStop [of ?c sampleHandler] by (simp add: initial_def cancelCtx_def sampleStopped_def)
  ultimately show ?thesis by (rule reachable.onward)
qed

lemma sample_stopped_steps: "(step sampleHandler)\<^sup>*\<^sup>* sampleStopped sampleStoppedChecks"
proof -
  let ?c = "sampleStopped\<lparr>phase := FinalCheck, sys := sampleChecked, history := [Checked () (Ok True)]\<rparr>"
  have "step sampleHandler sampleStopped ?c"
    using step.poll [of sampleStopped sampleHandler "Ok True" sampleChecked FinalCheck] sample_check
    by (simp add: sampleStopped_def initial_def afterPoll_def sampleChecked_def)
  moreover have "step sampleHandler ?c sampleStoppedChecks"
    using step.finalCheck [of ?c sampleHandler "Ok True" sampleCheckedTwice ChoosingContext] sample_check
    by (simp add: afterFinal_def sampleCheckedTwice_def sampleStoppedChecks_def)
  ultimately show ?thesis by (meson rtranclp.simps)
qed

theorem stop_bounds_checks_witness:
  "checks (history sampleStoppedChecks) = 2 \<and> checks (history sampleStoppedChecks) \<le> checks (history sampleStopped) + 2"
  using stop_bounds_checks [OF sample_stopped _ sample_stopped_steps] by (simp add: sampleStopped_def sampleStoppedChecks_def)

theorem stop_returns_witness:
  "\<exists>c'. (step sampleHandler)\<^sup>*\<^sup>* ((initial sampleWorld)\<lparr>stopClosed := True\<rparr>) c' \<and> mainPhase c' = Returned None"
  by (rule stop_returns) (simp_all add: initial_def)

end
