(* ===== verification/Termination_Timing.thy ===== *)
theory Termination_Timing
  imports Termination
begin

text \<open>
  The clock of \<open>pkg/termination/termination.go\<close>.  The step relation of \<open>Termination\<close> lets the
  deadline of the second loop pass at any wait and lets the loop go on forever.  Here its
  timeout and its ticker are real: the timed relation refines the untimed one, and it ends.
\<close>

section \<open>The timed step relation\<close>

text \<open>Durations in nanoseconds, as \<open>time.Duration\<close> has them.\<close>

definition markInterval :: nat where
  "markInterval = 1000000000"

definition markDeadline :: nat where
  "markDeadline = 30 * 1000000000"

text \<open>
  A configuration with the time, and for the second loop: when its context expires, when its
  ticker was made and the last tick of it that the loop has seen.  A ticker fires at every
  interval after it was made and drops ticks that nobody waits for; a context has no error
  before its deadline and one from then on.
\<close>

record 'w timed =
  conf :: "'w config"
  clock :: nat
  deadline :: nat
  started :: nat
  ticks :: nat

definition timedInitial :: "nat \<Rightarrow> 'w world \<Rightarrow> 'w timed" where
  "timedInitial now w = \<lparr>conf = initial w, clock = now, deadline = 0, started = 0, ticks = 0\<rparr>"

text \<open>
  The steps of the program.  Choosing the context of the second loop sets its deadline, and the
  loop makes its ticker next; waiting ends with a tick before the deadline, with the
  deadline, or with the end of the handler's own context if that was chosen.
\<close>

inductive ownStep :: "'w handler \<Rightarrow> 'w timed \<Rightarrow> 'w timed \<Rightarrow> bool" for h :: "'w handler" where
  untimed: "programStep h (conf t) c \<Longrightarrow> phase c = phase (conf t) \<or> phase (conf t) \<notin> {ChoosingContext, MarkWaiting} \<Longrightarrow>
    ownStep h t (t\<lparr>conf := c\<rparr>)"
| choose: "programStep h (conf t) c \<Longrightarrow> phase (conf t) = ChoosingContext \<Longrightarrow> phase c \<noteq> ChoosingContext \<Longrightarrow>
    ownStep h t (t\<lparr>conf := c, clock := clock t + d, deadline := clock t + markDeadline, started := clock t + d, ticks := 0\<rparr>)"
| retry: "phase (conf t) = MarkWaiting \<Longrightarrow> detached (conf t) \<or> ctxErr (conf t) = None \<Longrightarrow>
    ticks t < k \<Longrightarrow> started t + k * markInterval \<le> clock t \<Longrightarrow> clock t < deadline t \<Longrightarrow>
    ownStep h t (t\<lparr>conf := (conf t)\<lparr>phase := Marking\<rparr>, ticks := k\<rparr>)"
| cancelled: "phase (conf t) = MarkWaiting \<Longrightarrow> \<not> detached (conf t) \<Longrightarrow> ctxErr (conf t) = Some err \<Longrightarrow>
    ownStep h t (t\<lparr>conf := (conf t)\<lparr>phase := markError err\<rparr>\<rparr>)"
| expired: "phase (conf t) = MarkWaiting \<Longrightarrow> deadline t \<le> clock t \<Longrightarrow>
    ownStep h t (t\<lparr>conf := (conf t)\<lparr>phase := markError DeadlineExceeded\<rparr>\<rparr>)"

text \<open>What happens around the program: time passes, the world changes, the stop channel is closed.\<close>

inductive outerStep :: "'w timed \<Rightarrow> 'w timed \<Rightarrow> bool" where
  pass: "outerStep t (t\<lparr>clock := clock t + d\<rparr>)"
| world: "outerStep t (t\<lparr>conf := (conf t)\<lparr>sys := (sys (conf t))\<lparr>ext := e\<rparr>\<rparr>\<rparr>)"
| close: "outerStep t (t\<lparr>conf := (conf t)\<lparr>stopClosed := True\<rparr>\<rparr>)"

inductive_cases ownStepE: "ownStep h t t'"
inductive_cases outerStepE: "outerStep t t'"

text \<open>A run with the number of steps of the program in it.\<close>

inductive runs :: "'w handler \<Rightarrow> 'w timed \<Rightarrow> nat \<Rightarrow> 'w timed \<Rightarrow> bool" for h :: "'w handler" where
  here: "runs h t 0 t"
| own: "runs h t n u \<Longrightarrow> ownStep h u v \<Longrightarrow> runs h t (Suc n) v"
| outer: "runs h t n u \<Longrightarrow> outerStep u v \<Longrightarrow> runs h t n v"

section \<open>The timed relation refines the untimed one\<close>

lemma ownStep_step: "ownStep h t t' \<Longrightarrow> step h (conf t) (conf t')"
  by (erule ownStepE) (auto simp: programStep_def intro: step.intros)

lemma outerStep_step: "outerStep t t' \<Longrightarrow> (step h)\<^sup>*\<^sup>* (conf t) (conf t')"
  by (erule outerStepE) (auto intro: step.intros)

lemma runs_steps: "runs h t n t' \<Longrightarrow> (step h)\<^sup>*\<^sup>* (conf t) (conf t')"
  by (induction rule: runs.induct) (auto dest: ownStep_step outerStep_step [of _ _ h] intro: rtranclp.rtrancl_into_rtrancl rtranclp_trans)

lemma reachable_steps: "(step h)\<^sup>*\<^sup>* c c' \<Longrightarrow> reachable h w c \<Longrightarrow> reachable h w c'"
  by (induction rule: rtranclp_induct) (auto intro: reachable.onward)

lemma runs_reachable: "runs h (timedInitial now w) n t \<Longrightarrow> reachable h w (conf t)"
  by (drule runs_steps, rule reachable_steps, assumption) (simp add: timedInitial_def reachable.start)

section \<open>Attempts and steps left\<close>

fun attempts :: "'w observation list \<Rightarrow> nat" where
  "attempts [] = 0"
| "attempts (Checked e r # obs) = attempts obs"
| "attempts (Marked r # obs) = Suc (attempts obs)"

lemma attempts_append [simp]: "attempts (xs @ ys) = attempts xs + attempts ys"
  by (induction xs rule: attempts.induct) auto

fun attemptsOk :: "phase \<Rightarrow> nat \<Rightarrow> 'w observation list \<Rightarrow> bool" where
  "attemptsOk Marking k obs = (attempts obs \<le> k)"
| "attemptsOk MarkWaiting k obs = (attempts obs \<le> Suc k)"
| "attemptsOk (Finished r) k obs = (attempts obs \<le> 30)"
| "attemptsOk p k obs = (attempts obs = 0)"

definition timedInv :: "'w timed \<Rightarrow> bool" where
  "timedInv t \<longleftrightarrow> attemptsOk (phase (conf t)) (ticks t) (history (conf t)) \<and>
     (phase (conf t) \<in> {Marking, MarkWaiting} \<longrightarrow> deadline t \<le> started t + markDeadline \<and> ticks t \<le> 29)"

lemma ticks_bounded:
  "a + k * markInterval \<le> now \<Longrightarrow> now < e \<Longrightarrow> e \<le> a + markDeadline \<Longrightarrow> k \<le> 29"
  by (simp add: markInterval_def markDeadline_def)

lemma attemptsOk_untimed:
  assumes "step h c c'" and "phase c' \<noteq> phase c" and "phase c \<notin> {ChoosingContext, MarkWaiting}"
    and "attemptsOk (phase c) k (history c)" and "k \<le> 29 \<or> phase c \<noteq> Marking"
  shows "attemptsOk (phase c') k (history c') \<and> (phase c' \<in> {Marking, MarkWaiting} \<longrightarrow> phase c = Marking)"
  using assms(1)
proof (cases rule: step.cases)
  case (poll res w p)
  with assms(4) show ?thesis by (cases res) (auto simp: afterPoll_def pollError_def split: bool.splits if_splits)
next
  case (finalCheck res w p)
  with assms(4) show ?thesis by (cases res) (auto simp: afterFinal_def split: bool.splits)
next
  case (mark res w p)
  with assms(4,5) show ?thesis by (cases res) (auto simp: afterMark_def)
qed (use assms in \<open>auto simp: afterPollWait_def pollError_def split: option.splits\<close>)

lemma same_phase_history:
  assumes "step h c c'" and "phase c' = phase c"
  shows "history c' = history c"
  using assms(1)
proof (cases rule: step.cases)
  case (poll res w p)
  with assms(2) show ?thesis by (cases res) (auto simp: afterPoll_def pollError_def split: bool.splits if_splits)
next
  case (finalCheck res w p)
  with assms(2) show ?thesis by (cases res) (auto simp: afterFinal_def split: bool.splits)
next
  case (mark res w p)
  with assms(2) show ?thesis by (cases res) (auto simp: afterMark_def)
qed simp_all

lemma choose_history:
  "step h c c' \<Longrightarrow> phase c = ChoosingContext \<Longrightarrow> phase c' \<noteq> ChoosingContext \<Longrightarrow>
    history c' = history c \<and> (phase c' = Marking \<or> (\<exists>r. phase c' = Finished r))"
  by (erule stepE) auto

lemma timedInv_own: "ownStep h t t' \<Longrightarrow> timedInv t \<Longrightarrow> timedInv t'"
proof (induction rule: ownStep.induct)
  case (untimed t c)
  then have step: "step h (conf t) c" by (simp add: programStep_def)
  show ?case
  proof (cases "phase c = phase (conf t)")
    case True
    with same_phase_history [OF step] untimed show ?thesis by (simp add: timedInv_def)
  next
    case False
    with attemptsOk_untimed [OF step False] untimed show ?thesis by (auto simp: timedInv_def)
  qed
next
  case (choose t c d)
  then have "history c = history (conf t)" "phase c = Marking \<or> (\<exists>r. phase c = Finished r)"
    using choose_history by (auto simp: programStep_def)
  with choose show ?case by (auto simp: timedInv_def)
next
  case (retry t k)
  then have "k \<le> 29" using ticks_bounded by (auto simp: timedInv_def)
  with retry show ?case by (simp add: timedInv_def)
qed (auto simp: timedInv_def markError_def)

lemma timedInv_outer: "outerStep t t' \<Longrightarrow> timedInv t \<Longrightarrow> timedInv t'"
  by (erule outerStepE) (auto simp: timedInv_def)

lemma timedInv_runs: "runs h t n t' \<Longrightarrow> timedInv t \<Longrightarrow> timedInv t'"
  by (induction rule: runs.induct) (auto intro: timedInv_own timedInv_outer)

text \<open>How many steps the program can still make, once it has left or must leave the first loop.\<close>

fun phaseLeft :: "phase \<Rightarrow> nat \<Rightarrow> nat" where
  "phaseLeft Polling k = 64"
| "phaseLeft PollWaiting k = 63"
| "phaseLeft FinalCheck k = 62"
| "phaseLeft ChoosingContext k = 61"
| "phaseLeft Marking k = 2 * (29 - k) + 2"
| "phaseLeft MarkWaiting k = 2 * (29 - k) + 1"
| "phaseLeft (Finished r) k = 0"

fun mainLeft :: "mainPhase \<Rightarrow> nat" where
  "mainLeft Selecting = 2"
| "mainLeft WaitingForRun = 1"
| "mainLeft (Returned r) = 0"

definition stepsLeft :: "'w timed \<Rightarrow> nat" where
  "stepsLeft t = phaseLeft (phase (conf t)) (ticks t) + mainLeft (mainPhase (conf t))"

definition leaving :: "'w config \<Rightarrow> bool" where
  "leaving c \<longleftrightarrow> mainPhase c \<noteq> Selecting \<or> phase c \<notin> {Polling, PollWaiting}"

lemma leaving_cancelled:
  "leaving c \<Longrightarrow> runInv w c \<Longrightarrow> phase c \<in> {Polling, PollWaiting} \<Longrightarrow> ctxErr c = Some ContextCanceled"
  by (cases "mainPhase c") (auto simp: leaving_def runInv_def)

lemma untimed_left:
  assumes "programStep h c c'" and "leaving c" and "runInv w c"
    and "phase c' = phase c \<or> phase c \<notin> {ChoosingContext, MarkWaiting}"
  shows "phaseLeft (phase c') k + mainLeft (mainPhase c') < phaseLeft (phase c) k + mainLeft (mainPhase c) \<and> leaving c'"
proof -
  from assms(1) have "step h c c'" "phase c' \<noteq> phase c \<or> mainPhase c' \<noteq> mainPhase c" by (simp_all add: programStep_def)
  then show ?thesis
  proof (cases rule: step.cases)
    case (poll res w p)
    with assms show ?thesis by (cases res) (auto simp: leaving_def afterPoll_def pollError_def split: bool.splits if_splits)
  next
    case (finalCheck res w p)
    with assms show ?thesis by (cases res) (auto simp: leaving_def afterFinal_def split: bool.splits)
  next
    case (mark res w p)
    with assms show ?thesis by (cases res) (auto simp: leaving_def afterMark_def)
  next
    case pollWait
    with assms leaving_cancelled [OF assms(2,3)] show ?thesis by (simp add: leaving_def afterPollWait_def)
  qed (use assms in \<open>auto simp: leaving_def\<close>)
qed

lemma own_left:
  assumes "ownStep h t t'" and "timedInv t" and "leaving (conf t)" and "runInv w (conf t)"
  shows "stepsLeft t' < stepsLeft t \<and> leaving (conf t')"
  using assms
proof (induction rule: ownStep.induct)
  case (untimed t c)
  then show ?case using untimed_left [of h "conf t" c w "ticks t"] by (simp add: stepsLeft_def)
next
  case (choose t c d)
  then have "step h (conf t) c" by (simp add: programStep_def)
  then show ?case using choose by (cases rule: stepE) (auto simp: stepsLeft_def leaving_def)
next
  case (retry t k)
  then have "k \<le> 29" using ticks_bounded by (auto simp: timedInv_def)
  with retry show ?case by (simp add: stepsLeft_def leaving_def)
qed (auto simp: stepsLeft_def leaving_def markError_def)

lemma outer_left: "outerStep t t' \<Longrightarrow> stepsLeft t' = stepsLeft t \<and> leaving (conf t') = leaving (conf t)"
  by (erule outerStepE) (auto simp: stepsLeft_def leaving_def)

lemma runs_left:
  assumes "runs h t n t'" and "timedInv t" and "leaving (conf t)" and "reachable h w (conf t)"
  shows "n + stepsLeft t' \<le> stepsLeft t \<and> leaving (conf t')"
  using assms
proof (induction rule: runs.induct)
  case (own t n u v)
  then have "runInv w (conf u)" using reachable_runInv reachable_steps runs_steps by blast
  with own own_left [of h u v w] timedInv_runs show ?case by fastforce
next
  case (outer t n u v)
  then show ?case using outer_left by metis
qed simp

section \<open>Run ends\<close>

lemma timed_not_stuck:
  assumes "\<And>r. mainPhase (conf t) \<noteq> Returned r"
  shows "\<exists>d u. ownStep h (t\<lparr>clock := clock t + d\<rparr>) u"
proof (cases "phase (conf t) = MarkWaiting")
  case True
  then show ?thesis using ownStep.expired [of "t\<lparr>clock := clock t + deadline t\<rparr>" h] by force
next
  case False
  obtain c where c: "programStep h (conf t) c" using run_not_stuck [of "conf t" h] assms by blast
  let ?t = "t\<lparr>clock := clock t + 0\<rparr>"
  have "\<exists>u. ownStep h ?t u"
  proof (cases "phase c = phase (conf t) \<or> phase (conf t) \<noteq> ChoosingContext")
    case True
    with c False ownStep.untimed [of h ?t c] show ?thesis by fastforce
  next
    case False
    with c ownStep.choose [of h ?t c] show ?thesis by fastforce
  qed
  then show ?thesis by blast
qed

lemma attempts_bounded: "timedInv t \<Longrightarrow> attempts (history (conf t)) \<le> 30"
  by (cases "phase (conf t)") (auto simp: timedInv_def)

lemma timedInv_initial: "timedInv (timedInitial now w)"
  by (simp add: timedInv_def timedInitial_def initial_def)

text \<open>
  C27. The handler ends.  Once \<open>Run\<close> has seen the stop request, or the goroutine has left its
  first loop, whatever the endpoint and the API server answer, however long things take
  and whatever happens around: the program makes at most 65 more steps and at most 30
  attempts to mark the node, and as long as \<open>Run\<close> has not returned there is a next step,
  possibly after some time.  So \<open>Run\<close> returns.
\<close>

theorem run_terminates:
  assumes "runs h (timedInitial now w) n t" and "leaving (conf t)"
  shows "runs h t m t' \<Longrightarrow> m \<le> 65 \<and> attempts (history (conf t')) \<le> 30 \<and>
    ((\<exists>r. mainPhase (conf t') = Returned r) \<or> (\<exists>d u. ownStep h (t'\<lparr>clock := clock t' + d\<rparr>) u))"
proof -
  assume run: "runs h t m t'"
  have inv: "timedInv t" by (rule timedInv_runs [OF assms(1) timedInv_initial])
  have "phaseLeft (phase (conf t)) (ticks t) + mainLeft (mainPhase (conf t)) \<le> 65"
    using assms(2) by (cases "phase (conf t)"; cases "mainPhase (conf t)") (simp_all add: leaving_def)
  then have "m \<le> 65" using runs_left [OF run inv assms(2) runs_reachable [OF assms(1)]] by (simp add: stepsLeft_def)
  then show ?thesis using attempts_bounded [OF timedInv_runs [OF run inv]] timed_not_stuck by blast
qed

text \<open>
  Both bounds matter: against an API server that refuses the node the handler does make 30
  attempts.
\<close>

definition refusingHandler :: "unit handler" where
  "refusingHandler = sampleHandler\<lparr>h_client := sampleClient\<lparr>GetNode := (\<lambda>_ e. (Inl (PlainError ''refused''), e))\<rparr>\<rparr>"

lemma refusing_check: "\<exists>w'. checkTerminationEndpoint refusingHandler w = (Ok True, w')"
  by (simp add: refusingHandler_def checkTerminationEndpoint_def sample_handler_defs seq_run onErr_def run_basic invoke_def)

lemma refusing_mark: "\<exists>e w'. markNodeForDeletion refusingHandler w = (Err e, w')"
  by (simp add: refusingHandler_def markNodeForDeletion_def sample_handler_defs seq_run onErr_def run_basic invoke_def)

text \<open>The states in which the handler waits after an attempt that came with tick \<open>k\<close>.\<close>

definition refusedAt :: "nat \<Rightarrow> unit timed \<Rightarrow> bool" where
  "refusedAt k t \<longleftrightarrow> phase (conf t) = MarkWaiting \<and> ctxErr (conf t) = None \<and> started t = 0 \<and> deadline t = markDeadline \<and>
     ticks t = k \<and> clock t = k * markInterval \<and> attempts (history (conf t)) = Suc k"

lemma refused_attempt:
  assumes "phase (conf t) = Marking" and "ctxErr (conf t) = None" and "started t = 0" and "deadline t = markDeadline"
    and "clock t = ticks t * markInterval" and "attempts (history (conf t)) = ticks t"
  shows "\<exists>u. ownStep refusingHandler t u \<and> refusedAt (ticks t) u"
proof -
  obtain e w where mark: "markNodeForDeletion refusingHandler (sys (conf t)) = (Err e, w)" using refusing_mark by blast
  let ?c = "(conf t)\<lparr>phase := MarkWaiting, sys := w, history := history (conf t) @ [Marked (Err e)]\<rparr>"
  have "step refusingHandler (conf t) ?c" using assms(1) mark by (rule step.mark) (simp add: afterMark_def)
  then have "ownStep refusingHandler t (t\<lparr>conf := ?c\<rparr>)"
    using assms(1) by (intro ownStep.untimed) (simp_all add: programStep_def)
  then show ?thesis using assms by (intro exI conjI) (assumption, simp add: refusedAt_def)
qed

lemma refused_next:
  assumes "refusedAt k t" and "Suc k < 30"
  shows "\<exists>u. runs refusingHandler t 2 u \<and> refusedAt (Suc k) u"
proof -
  let ?t = "t\<lparr>clock := clock t + markInterval\<rparr>"
  let ?u = "?t\<lparr>conf := (conf t)\<lparr>phase := Marking\<rparr>, ticks := Suc k\<rparr>"
  have "runs refusingHandler t 0 ?t" by (rule runs.outer [OF runs.here outerStep.pass])
  moreover have "ownStep refusingHandler ?t ?u"
    using ownStep.retry [of ?t "Suc k" refusingHandler] assms by (simp add: refusedAt_def markInterval_def markDeadline_def)
  ultimately have "runs refusingHandler t 1 ?u" using runs.own by fastforce
  moreover obtain v where "ownStep refusingHandler ?u v" "refusedAt (Suc k) v"
    using refused_attempt [of ?u] assms(1) by (auto simp: refusedAt_def)
  ultimately show ?thesis using runs.own [of refusingHandler t 1 ?u v] by (auto simp: numeral_2_eq_2)
qed

lemma runs_trans: "runs h t m u \<Longrightarrow> runs h s n t \<Longrightarrow> runs h s (n + m) u"
  by (induction rule: runs.induct) (auto intro: runs.own runs.outer)

lemma refused_all:
  assumes "refusedAt 0 t" and "k < 30"
  shows "\<exists>u. runs refusingHandler t (2 * k) u \<and> refusedAt k u"
  using assms(2)
proof (induction k)
  case 0
  with assms(1) show ?case using runs.here by fastforce
next
  case (Suc k)
  then obtain u v where "runs refusingHandler t (2 * k) u" "runs refusingHandler u 2 v" "refusedAt (Suc k) v"
    using refused_next by fastforce
  then show ?case using runs_trans by fastforce
qed

definition noticed :: "unit timed" where
  "noticed = (timedInitial 0 sampleWorld)\<lparr>conf := (initial sampleWorld)\<lparr>phase := FinalCheck,
     sys := snd (checkTerminationEndpoint refusingHandler sampleWorld), history := [Checked () (Ok True)]\<rparr>\<rparr>"

lemma noticed_run: "runs refusingHandler (timedInitial 0 sampleWorld) 1 noticed"
proof -
  obtain w where w: "checkTerminationEndpoint refusingHandler sampleWorld = (Ok True, w)" using refusing_check by blast
  have "step refusingHandler (initial sampleWorld) ((initial sampleWorld)\<lparr>phase := FinalCheck, sys := w, history := [Checked () (Ok True)]\<rparr>)"
    using step.poll [of "initial sampleWorld" refusingHandler "Ok True" w FinalCheck] w by (simp add: initial_def afterPoll_def)
  then have "ownStep refusingHandler (timedInitial 0 sampleWorld) noticed"
    using ownStep.untimed [of refusingHandler "timedInitial 0 sampleWorld"] w
    by (simp add: noticed_def timedInitial_def programStep_def initial_def)
  then show ?thesis using runs.own [OF runs.here] by fastforce
qed

lemma noticed_refused: "\<exists>u. runs refusingHandler noticed 3 u \<and> refusedAt 0 u"
proof -
  obtain w where w: "checkTerminationEndpoint refusingHandler (sys (conf noticed)) = (Ok True, w)" using refusing_check by blast
  let ?c = "(conf noticed)\<lparr>phase := ChoosingContext, sys := w, history := [Checked () (Ok True), Checked () (Ok True)]\<rparr>"
  have "step refusingHandler (conf noticed) ?c"
    using step.finalCheck [of "conf noticed" refusingHandler "Ok True" w ChoosingContext] w by (simp add: noticed_def afterFinal_def)
  then have 1: "ownStep refusingHandler noticed (noticed\<lparr>conf := ?c\<rparr>)"
    by (intro ownStep.untimed) (simp_all add: programStep_def noticed_def)
  let ?d = "?c\<lparr>phase := Marking, detached := False\<rparr>"
  let ?u = "noticed\<lparr>conf := ?d, clock := 0, deadline := markDeadline, started := 0, ticks := 0\<rparr>"
  have "step refusingHandler ?c ?d" by (rule step.chooseSame) (simp_all add: noticed_def initial_def)
  then have 2: "ownStep refusingHandler (noticed\<lparr>conf := ?c\<rparr>) ?u"
    using ownStep.choose [of refusingHandler "noticed\<lparr>conf := ?c\<rparr>" ?d 0]
    by (simp add: programStep_def noticed_def timedInitial_def)
  obtain v where 3: "ownStep refusingHandler ?u v" "refusedAt 0 v"
    using refused_attempt [of ?u] by (auto simp: noticed_def initial_def)
  then have "runs refusingHandler noticed (Suc (Suc (Suc 0))) v" using runs.own [OF runs.own [OF runs.own [OF runs.here 1] 2]] by blast
  with 3 show ?thesis by (auto simp: numeral_3_eq_3)
qed

theorem run_terminates_witness:
  "\<exists>m t. runs refusingHandler noticed m t \<and> attempts (history (conf t)) = 30 \<and> 60 < m \<and> m \<le> 65 \<and>
     ((\<exists>r. mainPhase (conf t) = Returned r) \<or> (\<exists>d u. ownStep refusingHandler (t\<lparr>clock := clock t + d\<rparr>) u))"
proof -
  obtain u where u: "runs refusingHandler noticed 3 u" "refusedAt 0 u" using noticed_refused by blast
  then obtain v where "runs refusingHandler u 58 v" and v: "refusedAt 29 v" using refused_all [of u 29] by auto
  then have run: "runs refusingHandler noticed 61 v" using runs_trans u(1) by fastforce
  have leaving: "leaving (conf noticed)" by (simp add: noticed_def leaving_def)
  from run_terminates [OF noticed_run leaving run] show ?thesis
    using run v by (intro exI [of _ 61] exI [of _ v]) (simp add: refusedAt_def)
qed

end
