(* ===== verification/Executables.thy ===== *)
theory Executables
  imports Actuator MachineSet_Controller Termination
begin

text \<open>
  \<open>cmd/manager/main.go\<close>, \<open>cmd/termination-handler/main.go\<close> and \<open>pkg/version/version.go\<close>: how the two
  processes are put together.  The flags are given as parsed; controller-runtime, the feature
  gates and the controllers of machine-api-operator are parameters, of which only the
  outcome of each call is seen.  A process returns from \<open>main\<close> (status 0) or exits.
\<close>

section \<open>Processes\<close>

datatype 'a proc = Exit int | Continue 'a

record managerOptions =
  opt_LeaderElection :: bool
  opt_LeaderElectionNamespace :: string
  opt_LeaderElectionID :: string
  opt_LeaseDuration :: "64 word"
  opt_HealthProbeBindAddress :: string
  opt_SyncPeriod :: "64 word"
  opt_DefaultNamespaces :: "string list option"
  opt_BindAddress :: string
  opt_RetryPeriod :: "64 word"
  opt_RenewDeadline :: "64 word"

text \<open>The calls \<open>main\<close> makes, in the order it makes them.\<close>

datatype setupCall =
    NewFeatureGateOptions "64 word"
  | PrintVersion string
  | GetConfig
  | NewManager managerOptions
  | ApplyFeatureGates
  | AddToScheme string
  | AddMachineController int
  | AddMachineSetController
  | AddReadyzCheck string
  | AddHealthzCheck string
  | StartManager

type_synonym 'a boot = "setupCall list \<Rightarrow> 'a proc \<times> setupCall list"

definition andThen :: "'a boot \<Rightarrow> ('a \<Rightarrow> 'b boot) \<Rightarrow> 'b boot" where
  "andThen m k = (\<lambda>done. case m done of (Exit c, done') \<Rightarrow> (Exit c, done') | (Continue x, done') \<Rightarrow> k x done')"

text \<open>A call whose error ends the process with a status, and one that yields a value.\<close>

definition orExit :: "int \<Rightarrow> setupCall \<Rightarrow> error option \<Rightarrow> unit boot" where
  "orExit status st err = (\<lambda>done. (case err of None \<Rightarrow> Continue () | Some _ \<Rightarrow> Exit status, done @ [st]))"

definition valueOrExit :: "int \<Rightarrow> setupCall \<Rightarrow> error + 'a \<Rightarrow> 'a boot" where
  "valueOrExit status st res = (\<lambda>done. (case res of Inr x \<Rightarrow> Continue x | Inl _ \<Rightarrow> Exit status, done @ [st]))"

text \<open>\<open>klog.Fatal\<close>, \<open>os.Exit(1)\<close> (also of \<open>GetConfigOrDie\<close>) and a panic.\<close>

definition fatalStatus :: int where "fatalStatus = 255"

definition panicStatus :: int where "panicStatus = 2"

section \<open>Version\<close>

definition Raw :: string where
  "Raw = ''v0.0.0-was-not-built-properly''"

definition versionString :: "string \<Rightarrow> string" where
  "versionString raw = ''ClusterAPIProviderGCP '' @ raw"

text \<open>
  The initialisation of the package parses the text of the version, which the build may have
  replaced; \<open>semver.Parse\<close> is a parameter, of which the major number is used.
\<close>

definition versionMajor :: "(string \<Rightarrow> error + 64 word) \<Rightarrow> string \<Rightarrow> (64 word) boot" where
  "versionMajor parse raw = (\<lambda>done.
     (case parse (dropWhile (\<lambda>c. c = CHR ''v'') raw) of Inl _ \<Rightarrow> Exit panicStatus | Inr major \<Rightarrow> Continue major, done))"

section \<open>The manager\<close>

definition Second :: "64 word" where "Second = 1000000000"

definition leaseDuration :: "64 word" where "leaseDuration = 120 * Second"

definition renewDealine :: "64 word" where "renewDealine = 110 * Second"

definition retryPeriod :: "64 word" where "retryPeriod = 20 * Second"

record managerFlags =
  fl_printVersion :: bool
  leaderElectResourceNamespace :: string
  leaderElect :: bool
  leaderElectLeaseDuration :: "64 word"
  watchNamespace :: string
  healthAddr :: string
  metricsAddress :: string
  maxConcurrentReconciles :: int

definition defaultFlags :: "string \<Rightarrow> managerFlags" where
  "defaultFlags defaultMetricsAddress = \<lparr>fl_printVersion = False, leaderElectResourceNamespace = '''',
     leaderElect = False, leaderElectLeaseDuration = leaseDuration, watchNamespace = '''', healthAddr = '':9440'',
     metricsAddress = defaultMetricsAddress, maxConcurrentReconciles = 1\<rparr>"

definition managerOpts :: "managerFlags \<Rightarrow> managerOptions" where
  "managerOpts flags = \<lparr>opt_LeaderElection = leaderElect flags,
     opt_LeaderElectionNamespace = leaderElectResourceNamespace flags,
     opt_LeaderElectionID = ''cluster-api-provider-gcp-leader'',
     opt_LeaseDuration = leaderElectLeaseDuration flags,
     opt_HealthProbeBindAddress = healthAddr flags,
     opt_SyncPeriod = 10 * (60 * Second),
     opt_DefaultNamespaces = (if watchNamespace flags \<noteq> '''' then Some [watchNamespace flags] else None),
     opt_BindAddress = metricsAddress flags,
     opt_RetryPeriod = retryPeriod,
     opt_RenewDeadline = renewDealine\<rparr>"

definition gateVersion :: "64 word \<Rightarrow> 64 word" where
  "gateVersion major = (if major = 0 then 4 else major)"

text \<open>The outcomes of the calls, and what the controllers are given.\<close>

record ('w, 'c) managerEnv =
  env_parseVersion :: "string \<Rightarrow> error + 64 word"
  env_newGateOptions :: "64 word \<Rightarrow> error option"
  env_getConfig :: "error option"
  env_newManager :: "managerOptions \<Rightarrow> error + 'w Client"
  env_applyGates :: "error option"
  env_addScheme :: "string \<Rightarrow> error option"
  env_addMachineController :: "'w Actuator \<Rightarrow> int \<Rightarrow> error option"
  env_buildSetController :: "error option"
  env_addCheck :: "string \<Rightarrow> error option"
  env_start :: "error option"
  env_credentials :: "string \<Rightarrow> error + 'c"
  env_newCompute :: "'c \<Rightarrow> error + 'w ComputeAPI"
  env_newTags :: "string \<Rightarrow> error + (string \<Rightarrow> ('w, TagValue ptr) extcall)"

definition managerActuator :: "('w, 'c) managerEnv \<Rightarrow> 'w Client \<Rightarrow> 'w Actuator" where
  "managerActuator env client = NewActuator \<lparr>prm_CoreClient = client,
     prm_ComputeClientBuilder = NewComputeService (env_credentials env) (env_newCompute env),
     prm_TagsClientBuilder = NewTagService (env_newTags env)\<rparr>"

definition setControllerError :: "('w, 'c) managerEnv \<Rightarrow> 'w Client \<Rightarrow> error option" where
  "setControllerError env client =
     (case SetupWithManager (env_buildSetController env) client
             (NewComputeService (env_credentials env) (env_newCompute env)) None of
        Inl err \<Rightarrow> Some err | Inr _ \<Rightarrow> None)"

definition managerMain :: "('w, 'c) managerEnv \<Rightarrow> string \<Rightarrow> managerFlags \<Rightarrow> unit boot" where
  "managerMain env raw flags =
     andThen (versionMajor (env_parseVersion env) raw) (\<lambda>major.
     andThen (orExit fatalStatus (NewFeatureGateOptions (gateVersion major))
                (env_newGateOptions env (gateVersion major))) (\<lambda>_.
     if fl_printVersion flags then (\<lambda>done. (Exit 0, done @ [PrintVersion (versionString raw)]))
     else
       andThen (orExit 1 GetConfig (env_getConfig env)) (\<lambda>_.
       andThen (valueOrExit fatalStatus (NewManager (managerOpts flags)) (env_newManager env (managerOpts flags))) (\<lambda>client.
       andThen (orExit fatalStatus ApplyFeatureGates (env_applyGates env)) (\<lambda>_.
       andThen (orExit fatalStatus (AddToScheme ''machinev1'') (env_addScheme env ''machinev1'')) (\<lambda>_.
       andThen (orExit fatalStatus (AddToScheme ''configv1'') (env_addScheme env ''configv1'')) (\<lambda>_.
       andThen (orExit fatalStatus (AddMachineController (maxConcurrentReconciles flags))
                  (env_addMachineController env (managerActuator env client) (maxConcurrentReconciles flags))) (\<lambda>_.
       andThen (orExit 1 AddMachineSetController (setControllerError env client)) (\<lambda>_.
       andThen (orExit fatalStatus (AddReadyzCheck ''ping'') (env_addCheck env ''readyz'')) (\<lambda>_.
       andThen (orExit fatalStatus (AddHealthzCheck ''ping'') (env_addCheck env ''healthz'')) (\<lambda>_.
       orExit fatalStatus StartManager (env_start env))))))))))))"

section \<open>The termination handler\<close>

record terminationFlags =
  tf_printVersion :: bool
  pollIntervalSeconds :: "64 word"
  tf_nodeName :: string
  tf_namespace :: string

text \<open>
  The product of two durations is computed in 64 bits.  Errors are logged, which is the value
  here besides the handler that was run, and \<open>main\<close> returns.
\<close>

definition pollDuration :: "64 word \<Rightarrow> 64 word" where
  "pollDuration seconds = seconds * Second"

definition terminationMain ::
    "(string \<Rightarrow> error + 64 word) \<Rightarrow> string \<Rightarrow> error option \<Rightarrow> (error + 'w Client) \<Rightarrow> (string \<Rightarrow> error option) \<Rightarrow> (string \<Rightarrow> ('w, error + string) extcall) \<Rightarrow>
     ('w handler \<Rightarrow> error option) \<Rightarrow> terminationFlags \<Rightarrow> ('w handler option \<times> string list) proc" where
  "terminationMain parse raw config newClient mkRequest send runHandler flags =
     (case fst (versionMajor parse raw []) of
        Exit status \<Rightarrow> Exit status
      | Continue _ \<Rightarrow>
         if tf_printVersion flags then Exit 0
         else (case config of
           Some err \<Rightarrow> Continue (None, [''Error getting configuration''])
         | None \<Rightarrow>
             (case NewHandler newClient mkRequest send (pollDuration (pollIntervalSeconds flags)) (tf_namespace flags) (tf_nodeName flags) of
                Inl err \<Rightarrow> Continue (None, [''Error constructing termination handler''])
              | Inr handler \<Rightarrow>
                  (case runHandler handler of
                     Some err \<Rightarrow> Continue (Some handler, [''Error starting termination handler''])
                   | None \<Rightarrow> Continue (Some handler, [])))))"

section \<open>Properties\<close>

text \<open>
  The plan of the manager: its calls after the version is known, each with the status the
  process exits with when the call fails, and the error of the call.
\<close>

fun runPlan :: "(setupCall \<times> int \<times> error option) list \<Rightarrow> unit boot" where
  "runPlan [] = (\<lambda>done. (Continue (), done))"
| "runPlan ((st, status, err) # plan) = andThen (orExit status st err) (\<lambda>_. runPlan plan)"

definition succeeds :: "setupCall \<times> int \<times> error option \<Rightarrow> bool" where
  "succeeds = (\<lambda>(_, _, err). err = None)"

lemma runPlan_succeeds: "list_all succeeds plan \<Longrightarrow> runPlan plan done = (Continue (), done @ map fst plan)"
  by (induction plan arbitrary: "done" rule: runPlan.induct) (auto simp: andThen_def orExit_def succeeds_def)

lemma runPlan_fails:
  "list_all succeeds before \<Longrightarrow>
    runPlan (before @ (st, status, Some e) # after) done = (Exit status, done @ map fst before @ [st])"
  by (induction before arbitrary: "done" rule: runPlan.induct) (auto simp: andThen_def orExit_def succeeds_def)

lemma runPlan_last: "orExit status st err = runPlan [(st, status, err)]"
  by (rule ext) (simp add: andThen_def orExit_def split: option.split)

definition withClient :: "('w, 'c) managerEnv \<Rightarrow> managerFlags \<Rightarrow> ('w Client \<Rightarrow> error option) \<Rightarrow> error option" where
  "withClient env flags f = (case env_newManager env (managerOpts flags) of Inl _ \<Rightarrow> None | Inr client \<Rightarrow> f client)"

definition managerPlan :: "('w, 'c) managerEnv \<Rightarrow> managerFlags \<Rightarrow> 64 word \<Rightarrow> (setupCall \<times> int \<times> error option) list" where
  "managerPlan env flags major =
     [(NewFeatureGateOptions (gateVersion major), 255, env_newGateOptions env (gateVersion major)),
      (GetConfig, 1, env_getConfig env),
      (NewManager (managerOpts flags), 255,
         case env_newManager env (managerOpts flags) of Inl err \<Rightarrow> Some err | Inr _ \<Rightarrow> None),
      (ApplyFeatureGates, 255, env_applyGates env),
      (AddToScheme ''machinev1'', 255, env_addScheme env ''machinev1''),
      (AddToScheme ''configv1'', 255, env_addScheme env ''configv1''),
      (AddMachineController (maxConcurrentReconciles flags), 255,
         withClient env flags (\<lambda>client. env_addMachineController env (managerActuator env client) (maxConcurrentReconciles flags))),
      (AddMachineSetController, 1, withClient env flags (setControllerError env)),
      (AddReadyzCheck ''ping'', 255, env_addCheck env ''readyz''),
      (AddHealthzCheck ''ping'', 255, env_addCheck env ''healthz''),
      (StartManager, 255, env_start env)]"

lemma managerMain_plan:
  assumes "env_parseVersion env (dropWhile (\<lambda>c. c = CHR ''v'') raw) = Inr major" and "\<not> fl_printVersion flags"
  shows "managerMain env raw flags = runPlan (managerPlan env flags major)"
proof -
  have client: "andThen (valueOrExit status st res) k = andThen (orExit status st (case res of Inl err \<Rightarrow> Some err | Inr _ \<Rightarrow> None)) (\<lambda>_. k (projr res))"
    for status st and res :: "error + 'a Client" and k :: "'a Client \<Rightarrow> unit boot"
    by (rule ext) (simp add: andThen_def orExit_def valueOrExit_def split: sum.split)
  have "andThen (versionMajor (env_parseVersion env) raw) k = k major" for k :: "64 word \<Rightarrow> unit boot"
    by (rule ext) (simp add: andThen_def versionMajor_def assms(1))
  then have "managerMain env raw flags = (let c = projr (env_newManager env (managerOpts flags)) in runPlan
     [(NewFeatureGateOptions (gateVersion major), fatalStatus, env_newGateOptions env (gateVersion major)),
      (GetConfig, 1, env_getConfig env),
      (NewManager (managerOpts flags), fatalStatus,
         case env_newManager env (managerOpts flags) of Inl err \<Rightarrow> Some err | Inr _ \<Rightarrow> None),
      (ApplyFeatureGates, fatalStatus, env_applyGates env),
      (AddToScheme ''machinev1'', fatalStatus, env_addScheme env ''machinev1''),
      (AddToScheme ''configv1'', fatalStatus, env_addScheme env ''configv1''),
      (AddMachineController (maxConcurrentReconciles flags), fatalStatus,
         env_addMachineController env (managerActuator env c) (maxConcurrentReconciles flags)),
      (AddMachineSetController, 1, setControllerError env c),
      (AddReadyzCheck ''ping'', fatalStatus, env_addCheck env ''readyz''),
      (AddHealthzCheck ''ping'', fatalStatus, env_addCheck env ''healthz''),
      (StartManager, fatalStatus, env_start env)])"
    unfolding managerMain_def runPlan_last [of _ StartManager] client Let_def using assms(2) by simp
  then show ?thesis
    by (cases "env_newManager env (managerOpts flags)")
      (simp_all add: managerPlan_def withClient_def Let_def fatalStatus_def,
       rule ext, simp add: andThen_def orExit_def split: option.split)
qed

text \<open>
  C31. The manager is put together in one order and runs only when it is complete: feature gates,
  configuration, manager, both schemes, machine controller (with the actuator over the manager's
  client and the real services), machine set controller, both checks, start.  If every call
  succeeds \<open>main\<close> returns after all of them; the first call that fails is the last one made, and
  the process exits with a status other than 0, so that no controller runs in a half-made
  manager and a failure is never reported as success.  Asked for its version, it prints that
  after the feature gates and reaches no cluster; a version text that does not parse ends
  every run before its first call.
\<close>

theorem managerMain_spec:
  "case env_parseVersion env (dropWhile (\<lambda>c. c = CHR ''v'') raw) of
     Inl _ \<Rightarrow> managerMain env raw flags [] = (Exit 2, [])
   | Inr major \<Rightarrow> let plan = managerPlan env flags major in
      (fl_printVersion flags \<longrightarrow> managerMain env raw flags [] =
         (if succeeds (hd plan) then (Exit 0, [fst (hd plan), PrintVersion (''ClusterAPIProviderGCP '' @ raw)])
          else (Exit 255, [fst (hd plan)]))) \<and>
      (\<not> fl_printVersion flags \<and> list_all succeeds plan \<longrightarrow> managerMain env raw flags [] = (Continue (), map fst plan)) \<and>
      (\<forall>before st status e after.
         \<not> fl_printVersion flags \<and> plan = before @ (st, status, Some e) # after \<and> list_all succeeds before \<longrightarrow>
         managerMain env raw flags [] = (Exit status, map fst before @ [st]) \<and> status \<noteq> 0)"
proof (cases "env_parseVersion env (dropWhile (\<lambda>c. c = CHR ''v'') raw)")
  case (Inl err)
  then show ?thesis by (simp add: managerMain_def andThen_def versionMajor_def panicStatus_def)
next
  case (Inr major)
  let ?plan = "managerPlan env flags major"
  have "list_all (\<lambda>(_, status, _). status \<noteq> 0) ?plan" by (simp add: managerPlan_def)
  then have status: "status \<noteq> 0" if "?plan = before @ (st, status, Some e) # after" for before st status e after
    using that by simp
  have "fl_printVersion flags \<Longrightarrow> managerMain env raw flags [] =
      (if succeeds (hd ?plan) then (Exit 0, [fst (hd ?plan), PrintVersion (''ClusterAPIProviderGCP '' @ raw)])
       else (Exit 255, [fst (hd ?plan)]))"
    by (simp add: managerMain_def andThen_def versionMajor_def Inr orExit_def managerPlan_def succeeds_def fatalStatus_def
        versionString_def split: option.split)
  moreover note managerMain_plan [OF Inr]
  ultimately show ?thesis using status by (simp add: Inr Let_def runPlan_succeeds) (metis append_Nil runPlan_fails)
qed

text \<open>Outcomes under which the manager starts: every call succeeds, the version is 4.\<close>

definition sampleEnv :: "(unit, unit) managerEnv" where
  "sampleEnv = \<lparr>env_parseVersion = (\<lambda>_. Inr 4), env_newGateOptions = (\<lambda>_. None), env_getConfig = None,
     env_newManager = (\<lambda>_. Inr sampleClient), env_applyGates = None, env_addScheme = (\<lambda>_. None),
     env_addMachineController = (\<lambda>_ _. None), env_buildSetController = None, env_addCheck = (\<lambda>_. None), env_start = None,
     env_credentials = (\<lambda>_. Inr ()), env_newCompute = (\<lambda>_. Inl (PlainError [])), env_newTags = (\<lambda>_. Inl (PlainError []))\<rparr>"

theorem managerMain_spec_witness:
  "fst (managerMain sampleEnv Raw (defaultFlags '':8081'') []) = Continue () \<and>
   managerMain (sampleEnv\<lparr>env_getConfig := Some (PlainError [])\<rparr>) Raw (defaultFlags '':8081'') [] =
     (Exit 1, [NewFeatureGateOptions 4, GetConfig])"
proof -
  let ?flags = "defaultFlags '':8081''"
  let ?env = "sampleEnv\<lparr>env_getConfig := Some (PlainError [])\<rparr>"
  have flags: "\<not> fl_printVersion ?flags" by (simp add: defaultFlags_def)
  have parse: "env_parseVersion sampleEnv (dropWhile (\<lambda>c. c = CHR ''v'') Raw) = Inr 4"
    "env_parseVersion ?env (dropWhile (\<lambda>c. c = CHR ''v'') Raw) = Inr 4"
    by (simp_all add: sampleEnv_def)
  have "list_all succeeds (managerPlan sampleEnv ?flags 4)"
    by (simp add: managerPlan_def succeeds_def sampleEnv_def withClient_def setControllerError_def SetupWithManager_def)
  then have started: "managerMain sampleEnv Raw ?flags [] = (Continue (), map fst (managerPlan sampleEnv ?flags 4))"
    using managerMain_spec [of sampleEnv Raw ?flags] flags by (simp add: parse(1) Let_def)
  have "\<exists>after. managerPlan ?env ?flags 4 = [(NewFeatureGateOptions 4, 255, None)] @ (GetConfig, 1, Some (PlainError [])) # after"
    by (simp add: managerPlan_def gateVersion_def sampleEnv_def)
  moreover have "list_all succeeds [(NewFeatureGateOptions 4, 255, None)]" by (simp add: succeeds_def)
  ultimately have "managerMain ?env Raw ?flags [] = (Exit 1, map fst [(NewFeatureGateOptions 4, 255 :: int, None :: error option)] @ [GetConfig])"
    using managerMain_spec [of ?env Raw ?flags] flags unfolding parse(2) sum.case Let_def by blast
  with started show ?thesis by simp
qed

text \<open>
  The durations \<open>NewLeaderElector\<close> of client-go accepts; its factor 1.2 for jitter is written as
  a fraction.
\<close>

definition leaderElectorAccepts :: "64 word \<Rightarrow> 64 word \<Rightarrow> 64 word \<Rightarrow> bool" where
  "leaderElectorAccepts lease renew retry \<longleftrightarrow>
     \<not> sint lease \<le> sint renew \<and> \<not> sint renew \<le> 6 * sint retry div 5 \<and>
     \<not> sint lease < 1 \<and> \<not> sint renew < 1 \<and> \<not> sint retry < 1"

lemma durations: "sint leaseDuration = 120000000000" "sint renewDealine = 110000000000" "sint retryPeriod = 20000000000"
  by (simp_all add: leaseDuration_def renewDealine_def retryPeriod_def Second_def)

text \<open>
  Of the durations of the leader election only the lease can be set by a flag.  The elector
  accepts them exactly if the lease is longer than the fixed renew deadline of 110 seconds, as
  it is by default.
\<close>

theorem lease_bound:
  "(leaderElectorAccepts (opt_LeaseDuration (managerOpts flags)) (opt_RenewDeadline (managerOpts flags))
      (opt_RetryPeriod (managerOpts flags)) \<longleftrightarrow> 110 * 10 ^ 9 < sint (leaderElectLeaseDuration flags)) \<and>
   110 * 10 ^ 9 < sint (leaderElectLeaseDuration (defaultFlags addr))"
  by (auto simp: leaderElectorAccepts_def managerOpts_def defaultFlags_def durations)

lemma sint_times:
  fixes a b :: "64 word"
  shows "sint (a * b) = sint a * sint b \<longleftrightarrow> - (2 ^ 63) \<le> sint a * sint b \<and> sint a * sint b < 2 ^ 63"
proof
  assume "sint (a * b) = sint a * sint b"
  then show "- (2 ^ 63) \<le> sint a * sint b \<and> sint a * sint b < 2 ^ 63"
    using sint_ge [of "a * b"] sint_lt [of "a * b"] by simp
next
  assume "- (2 ^ 63) \<le> sint a * sint b \<and> sint a * sint b < 2 ^ 63"
  then show "sint (a * b) = sint a * sint b"
    by (simp add: sint_word_ariths signed_take_bit_int_eq_self)
qed

lemma pollDuration_exact:
  "sint (pollDuration seconds) = sint seconds * 1000000000 \<longleftrightarrow> \<bar>sint seconds\<bar> \<le> 9223372036"
proof -
  have "sint Second = 1000000000" by (simp add: Second_def)
  then show ?thesis using sint_times [of seconds Second] unfolding pollDuration_def by auto
qed

text \<open>
  C32. The executable of the termination handler.  A version text that does not parse ends it with status 2,
  by a panic before \<open>main\<close>, as it does the manager.  Otherwise it never reports a failure to its
  caller: it ends with status 0, and whatever goes wrong is logged in exactly one message.  When it runs a handler, the
  handler watches the preemption endpoint of its own instance, for the node and namespace of the
  flags.  Its interval is the one of the flags exactly if that is at most 9223372036 seconds
  either way; beyond that the product of 64 bits wraps around.
\<close>

theorem terminationMain_spec:
  "case parse (dropWhile (\<lambda>c. c = CHR ''v'') raw) of
     Inl _ \<Rightarrow> terminationMain parse raw config newClient mkRequest send runHandler flags = Exit 2
   | Inr _ \<Rightarrow>
      (case terminationMain parse raw config newClient mkRequest send runHandler flags of
         Exit status \<Rightarrow> status = 0 \<and> tf_printVersion flags
       | Continue (None, logged) \<Rightarrow> length logged = 1 \<and> \<not> (config = None \<and> (\<exists>client. newClient = Inr client))
       | Continue (Some h, logged) \<Rightarrow> config = None \<and> newClient = Inr (h_client h) \<and>
           pollURL h = ''http://169.254.169.254/computeMetadata/v1/instance/preempted'' \<and>
           nodeName h = tf_nodeName flags \<and> h_namespace h = tf_namespace flags \<and>
           (sint (pollInterval h) = sint (pollIntervalSeconds flags) * 10 ^ 9 \<longleftrightarrow>
              \<bar>sint (pollIntervalSeconds flags)\<bar> \<le> 9223372036) \<and>
           length logged = (if runHandler h = None then 0 else 1))"
  by (auto simp: terminationMain_def versionMajor_def panicStatus_def NewHandler_def gcpTerminationEndpointURL_def
      pollDuration_exact split: option.splits sum.splits)

end
