(* ===== verification/Spec2Isabelle.thy ===== *)
theory Spec2Isabelle
  imports Witnesses Request_Isolation Panic_Freedom Status_Invariant Deletion_Liveness MachineSet_Convergence
    Cache_Concurrency Termination_Timing Executables
begin

text \<open>
  \<^bold>\<open>The GCP machine API provider.\<close>

  The program (\<open>src/\<close>) manages Google Compute Engine instances for the machines of an
  OpenShift cluster.  It has three running parts.

  \<^item> The \<^emph>\<open>machine actuator\<close> (\<open>pkg/cloud/gcp/actuators/machine\<close>).  The machine controller of
    machine-api-operator calls \<open>Create\<close>, \<open>Exists\<close>, \<open>Update\<close> and \<open>Delete\<close> (\<open>actuator.go\<close>).
    Each makes a scope (\<open>machine_scope.go\<close>: decoded provider spec and status, credentials,
    service clients), runs one operation of the reconciler (\<open>reconciler.go\<close>) on it, patches
    the machine and records events.
  \<^item> The \<^emph>\<open>machine set controller\<close> (\<open>pkg/cloud/gcp/actuators/machineset\<close>).  It annotates
    machine sets with CPU, memory, GPUs and architecture of their machine type, looked up
    through a cache, and turns off shielded options where the image cannot have them.
  \<^item> The \<^emph>\<open>termination handler\<close> (\<open>pkg/termination\<close>).  It polls the metadata server and marks
    the node when the instance is about to be preempted.

  They share the wrappers of the cloud API (\<open>services/compute\<close>, \<open>services/tags\<close>) and the
  helpers of \<open>util\<close>.

  \<^bold>\<open>How the program is modelled.\<close>

  \<^item> \<^emph>\<open>Effects.\<close>  An operation is a function from a state to an outcome and a state (\<open>Go_Monad\<close>):
    \<open>Ok\<close>, \<open>Err\<close> for a returned error and \<open>Crash\<close> for a panic.  The state of the reconciler is
    the scope and the world; the world (\<open>World\<close>) holds an outside state of any type, the log of
    calls that left the program, the recorded events, the metrics and the clock.
  \<^item> \<^emph>\<open>Errors.\<close>  \<open>Go_Errors\<close> has error values with Go's wrapping, so that \<open>errors.As\<close> and the
    difference between \<open>%w\<close> and \<open>%v\<close> are visible to the theorems.
  \<^item> \<^emph>\<open>Data.\<close>  Structs are records, nil pointers and nil maps are \<open>None\<close>, maps whose order the
    program does not see are partial functions; \<open>int32\<close> sums are words (\<open>Reconciler_Checks\<close>).
  \<^item> \<^emph>\<open>Code outside the repository.\<close>  The Google clients, the API server client and the tag
    service are records of functions on the outside state, JSON coding and similar library
    functions a record \<open>golib\<close>: every definition that uses them takes them as an argument.

  \<^bold>\<open>The theories.\<close>

  \<^item> \<open>Prelude\<close>, \<open>Go_Errors\<close>, \<open>Go_Monad\<close>, \<open>Api_Types\<close>, \<open>World\<close>: the base.  \<open>Go_Monad\<close> has the
    locale \<open>state_preorder\<close>: what every stage of an operation obeys, the whole obeys.  It is
    interpreted for the call log, the events, the fixed parts of the scope and the cloud.
  \<^item> \<open>Compute_Service\<close>: \<open>computeservice.go\<close>, \<open>computeservice_mock.go\<close>, \<open>tagservice.go\<close> and its
    mock.  Lemmas: the listing of GPU machine types over pages.
  \<^item> \<open>Provider_Config\<close>: \<open>register.go\<close> and \<open>gcp_credentials.go\<close>.  \<open>Machine_Scope\<close>:
    \<open>machine_scope.go\<close>; what a new scope describes, and what \<open>Close\<close> sends.
  \<^item> \<open>Labels_Tags\<close>: \<open>gcp_tags_labels.go\<close>; precedence, limits, the tag loop against its
    declarative specification.  \<open>Images\<close>: \<open>gcp_uefi_disk_check.go\<close>.  \<open>Conditions\<close>:
    \<open>conditions.go\<close>.
  \<^item> \<open>Reconciler_Checks\<close>, \<open>Reconciler_State\<close>, \<open>Reconciler_Pools\<close>, \<open>Reconciler_Create\<close>,
    \<open>Reconciler_Ops\<close>: \<open>reconciler.go\<close> by its parts.  The theorems say for every answer of the
    services which calls are made in which order, and what success and each class of failure mean.
  \<^item> \<open>Actuator\<close>: \<open>actuator.go\<close>; events, patches and error classes at the entry points.
  \<^item> \<open>Cloud_Lifecycle\<close>, \<open>Actuator_Cloud\<close>: refinement.  An abstract cloud is the set of its
    instances; the reconciler and the actuator add and remove at most the machine's own
    instance, and what they report is true of the cloud.  \<open>Request_Isolation\<close>: sequences of
    requests for many machines, with time between them, against a cloud whose inserts and deletes
    go on after the reply; an instance is disturbed by the requests for its own name only.
  \<^item> \<open>Deletion_Liveness\<close>: repeated calls of \<open>delete\<close> come to an end, with the instance gone.
  \<^item> \<open>Status_Invariant\<close>: the invariant of the provider status (\<open>wellStatus\<close>) and how a status may
    change (\<open>evolves\<close>), for every operation of the reconciler and for every patch the actuator sends.
  \<^item> \<open>Panic_Freedom\<close>: a small logic (\<open>safe\<close>, \<open>yields\<close>) of operations that keep an invariant and panic
    in allowed ways only, run over the reconciler.  Its locale \<open>answering\<close> says what is relied on of
    the compute service; the real service has it if the generated client does (\<open>google_api\<close>).
  \<^item> \<open>MachineSet_Controller\<close>: \<open>controller.go\<close>, \<open>cache.go\<close>, \<open>machine_architecture.go\<close>.
    The theorems follow a request through every answer of the services, down to the single patch.
    \<open>MachineSet_Convergence\<close>: how far the annotations are a fixed point of the controller, and what
    a pass over a machine set at rest (\<open>settled\<close>) patches.  \<open>Cache_Concurrency\<close>: the lookup in the
    cache taken apart at its mutex; interleaved goroutines (\<open>interleaved\<close>) refine sequences of
    undivided lookups (\<open>serial\<close>).
  \<^item> \<open>Termination\<close>: \<open>termination.go\<close>.  \<open>Run\<close>, the goroutine \<open>run\<close> and the polling functions of
    \<open>k8s.io/apimachinery\<close> are a step relation, in which the endpoint, the API server and the
    stop request act at any time; the theorems are invariants of its reachable states, whose
    history keeps the outside state in which each check was made.
    \<open>Termination_Timing\<close> adds the clock, the deadline and the ticker of the second loop: its
    relation refines the untimed one and ends.
  \<^item> \<open>Executables\<close>: \<open>cmd/manager/main.go\<close>, \<open>cmd/termination-handler/main.go\<close> and \<open>version.go\<close>; the
    order in which the manager is put together, the exit statuses of both, the panic of the version
    package included, and their durations in 64 bits.
  \<^item> \<open>Sample\<close>, \<open>Witnesses\<close>: a concrete machine and services, and the theorems applied to them.

  \<^bold>\<open>Hypotheses.\<close>  \<open>poolLaws\<close> (the target pools of the spec exist and keep members as documented), \<open>cloudLaws\<close> and
  \<open>lawfulActuator\<close> (lookups tell the truth, inserts and deletes concern the instance they name and take effect at
  once, everything else leaves the instances alone) and, for operations that finish later, \<open>asynchronous\<close> and \<open>timePasses\<close> are
  the behaviour of the cloud that the refinement theorems rely on; they hold for concrete services in the
  witnesses.  \<open>readingServices\<close> says that making a compute service only reads, as the real one does.  \<open>progressing\<close> and \<open>sideCalls\<close> say that the cloud finishes an
  accepted deletion and answers requests about pools and groups, \<open>answeringActuator\<close> that the Google client returns a value or an error and lists A2 and A3
  machine types with an accelerator, \<open>wellMachine\<close> that a provider spec is not null, has a network interface, no null in
  its lists and image names that are parts of a URL, and \<open>statusCodec\<close> that an encoded provider status can be
  decoded to the same condition types and instance.  \<open>rangesOver\<close> says that a list is an order in
  which Go may range over a map.  All other theorems hold for every behaviour of the services.

  \<^bold>\<open>Termination and bounds.\<close>  Every loop of the program but those of the termination handler is
  a recursion on a list, so that the model is total without fuel.  The loops of the handler are
  steps; the first one goes on until the instance is preempted or a stop is requested, as it is
  meant to, and from then on \<open>run_terminates\<close> bounds the steps by 65: five to get to the
  second loop and to return, and two for each of at most 30 attempts, since a ticker of one
  second fires at most 29 times before a deadline of 30 seconds.

  \<^bold>\<open>Not modelled.\<close>  The parsing of flags, log output, contexts that nothing reads, the user agent of
  the compute client, and how long requests take: in the step relations of the termination
  handler time passes in any amount between steps, and the ticker of the first loop fires at any
  time.  Lists in answers of the Google client (quotas, backends, interfaces, access configs) are
  modelled without nil elements, which the client does not produce.
\<close>

end
